(* ===== verification/Versions.thy ===== *)
theory Versions
  imports Prelude
begin

text \<open>
  Version ranges of endpoints (\<^verbatim>\<open>ApiEndpointVersions\<close> of \<^verbatim>\<open>api_description.rs\<close>).
  The type of versions is a parameter: all the code uses of \<^verbatim>\<open>semver::Version\<close> is that
  it is totally ordered, so the model is polymorphic in a \<open>linorder\<close>.  The locale
  \<open>exclusive_ranges\<close> is what the router relies on: ranges that do not overlap share
  no version, so a list of pairwise non-overlapping ranges is unambiguous.
\<close>

section \<open>The data and its constructors\<close>

datatype 'v ordered_version_pair = OrderedVersionPair (earliest: 'v) (until_v: 'v)

datatype 'v api_endpoint_versions =
    All
  | From 'v
  | FromUntil "'v ordered_version_pair"
  | Until 'v

definition all_versions :: "'v api_endpoint_versions" where
  "all_versions = All"

definition from_version :: "'v \<Rightarrow> 'v api_endpoint_versions" where
  "from_version v = From v"

definition until_version :: "'v \<Rightarrow> 'v api_endpoint_versions" where
  "until_version v = Until v"

definition from_until ::
  "'v::linorder \<Rightarrow> 'v \<Rightarrow> (string, 'v api_endpoint_versions) result" where
  "from_until e u =
    (if u < e
     then Inl ''versions in a from-until version range must be provided in order''
     else Inr (FromUntil (OrderedVersionPair e u)))"

section \<open>Matching and overlap\<close>

fun matches :: "'v::linorder api_endpoint_versions \<Rightarrow> 'v option \<Rightarrow> bool" where
  "matches r None = True"
| "matches All (Some v) = True"
| "matches (From e) (Some v) = (v \<ge> e)"
| "matches (FromUntil (OrderedVersionPair e u)) (Some v) =
    (v \<ge> e \<and> (v < u \<or> (v = u \<and> e = u)))"
| "matches (Until u) (Some v) = (v < u)"

fun overlaps_with :: "'v::linorder api_endpoint_versions \<Rightarrow> 'v api_endpoint_versions \<Rightarrow> bool" where
  "overlaps_with All _ = True"
| "overlaps_with _ All = True"
| "overlaps_with (From _) (From _) = True"
| "overlaps_with (Until _) (Until _) = True"
| "overlaps_with (From e) (Until u) = matches (Until u) (Some e)"
| "overlaps_with (Until u) (From e) = matches (Until u) (Some e)"
| "overlaps_with (From e) (FromUntil (OrderedVersionPair _ u)) = (e < u)"
| "overlaps_with (FromUntil (OrderedVersionPair _ u)) (From e) = (e < u)"
| "overlaps_with (Until u) (FromUntil (OrderedVersionPair e _)) = matches (Until u) (Some e)"
| "overlaps_with (FromUntil (OrderedVersionPair e _)) (Until u) = matches (Until u) (Some e)"
| "overlaps_with (FromUntil (OrderedVersionPair e1 u1)) (FromUntil (OrderedVersionPair e2 u2)) =
    (matches (FromUntil (OrderedVersionPair e1 u1)) (Some e2)
      \<or> matches (FromUntil (OrderedVersionPair e2 u2)) (Some e1))"

text \<open>The text that the \<^verbatim>\<open>slog::Value\<close> implementation emits; \<open>disp\<close> is the
  \<^verbatim>\<open>Display\<close> of versions.\<close>

fun versions_serialize :: "('v \<Rightarrow> string) \<Rightarrow> 'v api_endpoint_versions \<Rightarrow> string" where
  "versions_serialize disp All = ''all''"
| "versions_serialize disp (From v) = ''all starting from '' @ disp v"
| "versions_serialize disp (FromUntil (OrderedVersionPair e l)) =
    ''from '' @ disp e @ '' to '' @ disp l"
| "versions_serialize disp (Until v) = ''all ending with '' @ disp v"

section \<open>Well-formed and degenerate ranges\<close>

text \<open>What the private fields of \<^verbatim>\<open>OrderedVersionPair\<close> enforce.\<close>

fun versions_wf :: "'v::linorder api_endpoint_versions \<Rightarrow> bool" where
  "versions_wf (FromUntil (OrderedVersionPair e u)) = (e \<le> u)"
| "versions_wf _ = True"

text \<open>A range that holds exactly one version.\<close>

fun single_version :: "'v::linorder api_endpoint_versions \<Rightarrow> bool" where
  "single_version (FromUntil (OrderedVersionPair e u)) = (e = u)"
| "single_version _ = False"

definition inhabited :: "'v::linorder api_endpoint_versions \<Rightarrow> bool" where
  "inhabited r = (\<exists>v. matches r (Some v))"

text \<open>The one pair of shapes that \<open>overlaps_with\<close> misjudges.\<close>

fun point_meets_from :: "'v::linorder api_endpoint_versions \<Rightarrow> 'v api_endpoint_versions \<Rightarrow> bool" where
  "point_meets_from (From e) (FromUntil (OrderedVersionPair e' u)) = (e = e' \<and> e = u)"
| "point_meets_from (FromUntil (OrderedVersionPair e' u)) (From e) = (e = e' \<and> e = u)"
| "point_meets_from _ _ = False"

lemma versions_exhaust [case_names All From FromUntil Until]:
  obtains "r = All" | e where "r = From e" | e u where "r = FromUntil (OrderedVersionPair e u)"
  | u where "r = Until u"
  by (metis api_endpoint_versions.exhaust ordered_version_pair.exhaust)

lemma from_until_wf: "from_until e u = Inr r \<Longrightarrow> versions_wf r"
  by (auto simp: from_until_def split: if_splits)

lemma overlaps_with_sym: "overlaps_with a b = overlaps_with b a"
  by (cases a rule: versions_exhaust; cases b rule: versions_exhaust) auto

lemma overlap_shared_version:
  assumes "versions_wf a" "versions_wf b" "inhabited a" "inhabited b" "overlaps_with a b"
  shows "\<exists>v. matches a (Some v) \<and> matches b (Some v)"
proof (cases a rule: versions_exhaust)
  case All
  then show ?thesis using assms by (auto simp: inhabited_def)
next
  case a: (From e)
  show ?thesis
  proof (cases b rule: versions_exhaust)
    case (FromUntil e' u)
    then show ?thesis
      using assms a by (intro exI[of _ "max e e'"]) (auto simp: max_def)
  next
    case (From e')
    then show ?thesis
      using a by (intro exI[of _ "max e e'"]) auto
  qed (use assms a in \<open>auto simp: inhabited_def\<close>)
next
  case a: (FromUntil e u)
  show ?thesis
  proof (cases b rule: versions_exhaust)
    case (From e')
    then show ?thesis
      using assms a by (intro exI[of _ "max e e'"]) (auto simp: max_def)
  next
    case (FromUntil e' u')
    then show ?thesis
      using assms a by (intro exI[of _ "max e e'"]) (auto simp: max_def)
  qed (use assms a in \<open>auto simp: inhabited_def\<close>)
next
  case a: (Until u)
  show ?thesis
  proof (cases b rule: versions_exhaust)
    case (Until u')
    obtain v v' where "v < u" "v' < u'"
      using assms a Until by (auto simp: inhabited_def)
    then show ?thesis
      using a Until by (intro exI[of _ "min v v'"]) (auto simp: min_def)
  qed (use assms a in \<open>auto simp: inhabited_def\<close>)
qed

lemma no_overlap_disjoint:
  assumes "versions_wf a" "versions_wf b" "\<not> overlaps_with a b"
    and "matches a (Some v)" "matches b (Some v)"
  shows "point_meets_from a b"
  using assms
  by (cases a rule: versions_exhaust; cases b rule: versions_exhaust) auto

lemma point_meets_from_gap:
  "point_meets_from a b \<Longrightarrow>
    \<not> overlaps_with a b \<and> (\<exists>v. matches a (Some v) \<and> matches b (Some v))"
  by (cases a rule: versions_exhaust; cases b rule: versions_exhaust) auto

lemma point_meets_from_single: "point_meets_from a b \<Longrightarrow> single_version a \<or> single_version b"
  by (cases a rule: versions_exhaust; cases b rule: versions_exhaust) auto

section \<open>The contract of the router\<close>

locale exclusive_ranges =
  fixes mat :: "'r \<Rightarrow> 'v \<Rightarrow> bool"
    and ovl :: "'r \<Rightarrow> 'r \<Rightarrow> bool"
    and good :: "'r \<Rightarrow> bool"
  assumes ovl_sym: "ovl a b = ovl b a"
    and exclusive: "\<lbrakk>good a; good b; \<not> ovl a b; mat a v\<rbrakk> \<Longrightarrow> \<not> mat b v"
begin

lemma unique_index:
  assumes "sorted_wrt (\<lambda>a b. \<not> ovl a b) rs" "\<forall>r \<in> set rs. good r"
    and "i < length rs" "j < length rs" "mat (rs ! i) v" "mat (rs ! j) v"
  shows "i = j"
proof (rule ccontr)
  assume "i \<noteq> j"
  then have "\<not> ovl (rs ! i) (rs ! j)"
    using assms(1,3,4) ovl_sym by (metis linorder_neqE_nat sorted_wrt_nth_less)
  then show False
    using assms exclusive by (meson nth_mem)
qed

lemma unique_match:
  assumes "sorted_wrt (\<lambda>x y. \<not> ovl (f x) (f y)) xs" "\<forall>x \<in> set xs. good (f x)"
    and "x \<in> set xs" "y \<in> set xs" "mat (f x) v" "mat (f y) v"
  shows "x = y"
proof -
  obtain i j where ij: "i < length xs" "xs ! i = x" "j < length xs" "xs ! j = y"
    using assms(3,4) by (meson in_set_conv_nth)
  have "sorted_wrt (\<lambda>a b. \<not> ovl a b) (map f xs)"
    using assms(1) by (simp add: sorted_wrt_map)
  then have "i = j"
    using unique_index[of "map f xs" i j v] assms(2,5,6) ij by auto
  with ij show ?thesis by simp
qed

lemma find_unique:
  assumes "sorted_wrt (\<lambda>x y. \<not> ovl (f x) (f y)) xs" "\<forall>x \<in> set xs. good (f x)"
    and "x \<in> set xs" "mat (f x) v"
  shows "find (\<lambda>y. mat (f y) v) xs = Some x"
proof -
  have "find (\<lambda>y. mat (f y) v) xs \<noteq> None"
    using assms(3,4) by (auto simp: find_None_iff)
  then obtain y where y: "find (\<lambda>y. mat (f y) v) xs = Some y" by blast
  then have "y \<in> set xs" "mat (f y) v"
    by (auto simp: find_Some_iff)
  then show ?thesis
    using y unique_match[OF assms(1,2,3) _ assms(4)] by auto
qed

end

interpretation ranges: exclusive_ranges "\<lambda>r v. matches r (Some v)" overlaps_with
  "\<lambda>r. versions_wf r \<and> \<not> single_version r"
proof unfold_locales
  show "overlaps_with a b = overlaps_with b a" for a b :: "'a api_endpoint_versions"
    by (rule overlaps_with_sym)
  show "\<lbrakk>versions_wf a \<and> \<not> single_version a; versions_wf b \<and> \<not> single_version b;
      \<not> overlaps_with a b; matches a (Some v)\<rbrakk> \<Longrightarrow> \<not> matches b (Some v)"
    for a b :: "'a api_endpoint_versions" and v
    using no_overlap_disjoint point_meets_from_single by blast
qed

section \<open>Properties\<close>

text \<open>C35. For ordered ranges that contain some version, \<open>overlaps_with\<close> decides exactly
  whether a version lies in both ranges, except for the pairs of
  \<open>point_meets_from\<close>.\<close>

theorem overlaps_with_exact:
  assumes "versions_wf a" "versions_wf b" "inhabited a" "inhabited b"
    and "\<not> point_meets_from a b"
  shows "overlaps_with a b \<longleftrightarrow> (\<exists>v. matches a (Some v) \<and> matches b (Some v))"
  using assms overlap_shared_version no_overlap_disjoint by blast

theorem overlaps_with_exact_witness:
  "overlaps_with (FromUntil (OrderedVersionPair (1::nat) 4)) (From 3) \<longleftrightarrow>
    (\<exists>v. matches (FromUntil (OrderedVersionPair (1::nat) 4)) (Some v) \<and> matches (From 3) (Some v))"
proof (rule overlaps_with_exact)
  show "inhabited (FromUntil (OrderedVersionPair (1::nat) 4))"
    unfolding inhabited_def by (rule exI[of _ 2]) simp
  show "inhabited (From (3::nat))"
    unfolding inhabited_def by (rule exI[of _ 3]) simp
qed simp_all

text \<open>The gap of \<open>overlaps_with\<close>, characterised exactly: two ordered ranges are
  reported as not overlapping although some version matches both precisely when one
  is \<open>From v\<close> and the other the single-version range from \<open>v\<close> until \<open>v\<close>.\<close>

theorem overlaps_with_gap:
  assumes "versions_wf a" "versions_wf b"
  shows "(\<not> overlaps_with a b \<and> (\<exists>v. matches a (Some v) \<and> matches b (Some v)))
    \<longleftrightarrow> (\<exists>v. {a, b} = {From v, FromUntil (OrderedVersionPair v v)})"
proof
  assume "\<not> overlaps_with a b \<and> (\<exists>v. matches a (Some v) \<and> matches b (Some v))"
  then have "point_meets_from a b"
    using assms no_overlap_disjoint by blast
  then show "\<exists>v. {a, b} = {From v, FromUntil (OrderedVersionPair v v)}"
    by (cases a rule: versions_exhaust; cases b rule: versions_exhaust) auto
next
  assume "\<exists>v. {a, b} = {From v, FromUntil (OrderedVersionPair v v)}"
  then have "point_meets_from a b"
    by (auto simp: doubleton_eq_iff)
  then show "\<not> overlaps_with a b \<and> (\<exists>v. matches a (Some v) \<and> matches b (Some v))"
    by (rule point_meets_from_gap)
qed

theorem overlaps_with_gap_witness:
  "\<not> overlaps_with (From (2::nat)) (FromUntil (OrderedVersionPair 2 2))
    \<and> (\<exists>v. matches (From (2::nat)) (Some v) \<and> matches (FromUntil (OrderedVersionPair 2 2)) (Some v))"
  by (rule overlaps_with_gap[THEN iffD2]) auto

end
