(* ===== verification/Status_Codes.thy ===== *)
theory Status_Codes
  imports Prelude
begin

text \<open>
  The status-code newtypes of \<^verbatim>\<open>error_status_code.rs\<close>.  An \<^verbatim>\<open>http::StatusCode\<close> is a
  number from 100 to 999; \<^verbatim>\<open>ErrorStatusCode\<close> and \<^verbatim>\<open>ClientErrorStatusCode\<close> wrap one, and
  their constructors are private, so that 400--599 (400--499) is an invariant of
  every operation that builds one.
\<close>

section \<open>Status codes of the HTTP library\<close>

type_synonym status_code = nat

text \<open>The range check that the crate documents, and that the comment on
  \<^verbatim>\<open>InvalidStatus\<close> repeats: less than 100 or greater than 999 is invalid.\<close>

definition status_from_u16 :: "16 word \<Rightarrow> status_code option" where
  "status_from_u16 w = (if 100 \<le> unat w \<and> unat w \<le> 999 then Some (unat w) else None)"

definition status_is_client_error :: "status_code \<Rightarrow> bool" where
  "status_is_client_error s = (400 \<le> s \<and> s < 500)"

definition status_is_server_error :: "status_code \<Rightarrow> bool" where
  "status_is_server_error s = (500 \<le> s \<and> s < 600)"

section \<open>The wrappers\<close>

datatype error_status_code = ErrorStatusCode (as_status: status_code)

datatype client_error_status_code = ClientErrorStatusCode (client_as_status: status_code)

datatype not_an_error = NotAnError status_code

datatype not_a_client_error = NotAClientError status_code

datatype invalid_error_status_code = ENotAnError not_an_error | EInvalidStatus

datatype invalid_client_error_status_code = CNotAClientError not_a_client_error | CInvalidStatus

text \<open>The constants of the two types, with the number and the reason phrase that the
  comment of each gives.\<close>

definition client_error_constants :: "(string \<times> status_code \<times> string) list" where
  "client_error_constants = [
    (''BAD_REQUEST'', 400, ''Bad Request''),
    (''UNAUTHORIZED'', 401, ''Unauthorized''),
    (''PAYMENT_REQUIRED'', 402, ''Payment Required''),
    (''FORBIDDEN'', 403, ''Forbidden''),
    (''NOT_FOUND'', 404, ''Not Found''),
    (''METHOD_NOT_ALLOWED'', 405, ''Method Not Allowed''),
    (''NOT_ACCEPTABLE'', 406, ''Not Acceptable''),
    (''PROXY_AUTHENTICATION_REQUIRED'', 407, ''Proxy Authentication Required''),
    (''REQUEST_TIMEOUT'', 408, ''Request Timeout''),
    (''CONFLICT'', 409, ''Conflict''),
    (''GONE'', 410, ''Gone''),
    (''LENGTH_REQUIRED'', 411, ''Length Required''),
    (''PRECONDITION_FAILED'', 412, ''Precondition Failed''),
    (''PAYLOAD_TOO_LARGE'', 413, ''Payload Too Large''),
    (''URI_TOO_LONG'', 414, ''URI Too Long''),
    (''UNSUPPORTED_MEDIA_TYPE'', 415, ''Unsupported Media Type''),
    (''RANGE_NOT_SATISFIABLE'', 416, ''Range Not Satisfiable''),
    (''EXPECTATION_FAILED'', 417, ''Expectation Failed''),
    (''IM_A_TEAPOT'', 418, ''I'' @ [CHR 0x27] @ ''m a teapot''),
    (''MISDIRECTED_REQUEST'', 421, ''Misdirected Request''),
    (''UNPROCESSABLE_ENTITY'', 422, ''Unprocessable Entity''),
    (''LOCKED'', 423, ''Locked''),
    (''FAILED_DEPENDENCY'', 424, ''Failed Dependency''),
    (''UPGRADE_REQUIRED'', 426, ''Upgrade Required''),
    (''PRECONDITION_REQUIRED'', 428, ''Precondition Required''),
    (''TOO_MANY_REQUESTS'', 429, ''Too Many Requests''),
    (''REQUEST_HEADER_FIELDS_TOO_LARGE'', 431, ''Request Header Fields Too Large''),
    (''UNAVAILABLE_FOR_LEGAL_REASONS'', 451, ''Unavailable For Legal Reasons'')]"

definition error_constants :: "(string \<times> status_code \<times> string) list" where
  "error_constants = client_error_constants @ [
    (''INTERNAL_SERVER_ERROR'', 500, ''Internal Server Error''),
    (''NOT_IMPLEMENTED'', 501, ''Not Implemented''),
    (''BAD_GATEWAY'', 502, ''Bad Gateway''),
    (''SERVICE_UNAVAILABLE'', 503, ''Service Unavailable''),
    (''GATEWAY_TIMEOUT'', 504, ''Gateway Timeout''),
    (''HTTP_VERSION_NOT_SUPPORTED'', 505, ''HTTP Version Not Supported''),
    (''VARIANT_ALSO_NEGOTIATES'', 506, ''Variant Also Negotiates''),
    (''INSUFFICIENT_STORAGE'', 507, ''Insufficient Storage''),
    (''LOOP_DETECTED'', 508, ''Loop Detected''),
    (''NOT_EXTENDED'', 510, ''Not Extended''),
    (''NETWORK_AUTHENTICATION_REQUIRED'', 511, ''Network Authentication Required'')]"

definition error_constant :: "string \<Rightarrow> error_status_code" where
  "error_constant n = ErrorStatusCode (fst (the (map_of error_constants n)))"

definition client_error_constant :: "string \<Rightarrow> client_error_status_code" where
  "client_error_constant n = ClientErrorStatusCode (fst (the (map_of client_error_constants n)))"

definition canonical_reason :: "status_code \<Rightarrow> string option" where
  "canonical_reason s = map_of (map snd error_constants) s"

definition error_from_status :: "status_code \<Rightarrow> (not_an_error, error_status_code) result" where
  "error_from_status s =
    (if status_is_client_error s \<or> status_is_server_error s
     then Inr (ErrorStatusCode s) else Inl (NotAnError s))"

definition error_from_u16 :: "16 word \<Rightarrow> (invalid_error_status_code, error_status_code) result" where
  "error_from_u16 src =
    rbind (ok_or EInvalidStatus (status_from_u16 src)) (\<lambda>status.
      map_err ENotAnError (error_from_status status))"

definition client_from_status ::
  "status_code \<Rightarrow> (not_a_client_error, client_error_status_code) result" where
  "client_from_status s =
    (if status_is_client_error s then Inr (ClientErrorStatusCode s) else Inl (NotAClientError s))"

definition client_from_u16 ::
  "16 word \<Rightarrow> (invalid_client_error_status_code, client_error_status_code) result" where
  "client_from_u16 src =
    rbind (ok_or CInvalidStatus (status_from_u16 src)) (\<lambda>status.
      map_err CNotAClientError (client_from_status status))"

text \<open>\<^verbatim>\<open>from_bytes\<close> and \<^verbatim>\<open>from_str\<close>; \<open>parse\<close> is the crate's own parser.\<close>

definition error_from_bytes ::
  "(string \<Rightarrow> status_code option) \<Rightarrow> string \<Rightarrow> (invalid_error_status_code, error_status_code) result" where
  "error_from_bytes parse src =
    rbind (ok_or EInvalidStatus (parse src)) (\<lambda>status.
      map_err ENotAnError (error_from_status status))"

definition client_from_bytes ::
  "(string \<Rightarrow> status_code option) \<Rightarrow> string
    \<Rightarrow> (invalid_client_error_status_code, client_error_status_code) result" where
  "client_from_bytes parse src =
    rbind (ok_or CInvalidStatus (parse src)) (\<lambda>status.
      map_err CNotAClientError (client_from_status status))"

definition error_is_client_error :: "error_status_code \<Rightarrow> bool" where
  "error_is_client_error e = status_is_client_error (as_status e)"

definition error_is_server_error :: "error_status_code \<Rightarrow> bool" where
  "error_is_server_error e = status_is_server_error (as_status e)"

definition as_client_error ::
  "error_status_code \<Rightarrow> (not_a_client_error, client_error_status_code) result" where
  "as_client_error e =
    (if error_is_client_error e then Inr (ClientErrorStatusCode (as_status e))
     else Inl (NotAClientError (as_status e)))"

definition error_of_client :: "client_error_status_code \<Rightarrow> error_status_code" where
  "error_of_client c = ErrorStatusCode (client_as_status c)"

definition as_u16 :: "error_status_code \<Rightarrow> 16 word" where
  "as_u16 e = word_of_nat (as_status e)"

definition client_as_u16 :: "client_error_status_code \<Rightarrow> 16 word" where
  "client_as_u16 c = word_of_nat (client_as_status c)"

section \<open>Invariants\<close>

definition error_status_wf :: "error_status_code \<Rightarrow> bool" where
  "error_status_wf e = (400 \<le> as_status e \<and> as_status e < 600)"

definition client_status_wf :: "client_error_status_code \<Rightarrow> bool" where
  "client_status_wf c = (400 \<le> client_as_status c \<and> client_as_status c < 500)"

lemmas status_defs = status_is_client_error_def status_is_server_error_def
  error_is_client_error_def error_is_server_error_def error_status_wf_def client_status_wf_def

lemma error_constants_wf: "list_all (\<lambda>(n, s, r). 400 \<le> s \<and> s < 600) error_constants"
  by (simp add: error_constants_def client_error_constants_def)

lemma client_error_constants_wf:
  "list_all (\<lambda>(n, s, r). 400 \<le> s \<and> s < 500) client_error_constants"
  by (simp add: client_error_constants_def)

lemma error_from_status_wf: "error_from_status s = Inr e \<Longrightarrow> error_status_wf e \<and> as_status e = s"
  by (auto simp: error_from_status_def status_defs split: if_splits)

lemma client_from_status_wf:
  "client_from_status s = Inr c \<Longrightarrow> client_status_wf c \<and> client_as_status c = s"
  by (auto simp: client_from_status_def status_defs split: if_splits)

lemma error_from_u16_Inr_iff:
  "error_from_u16 w = Inr e \<longleftrightarrow> 400 \<le> unat w \<and> unat w < 600 \<and> e = ErrorStatusCode (unat w)"
  by (auto simp: error_from_u16_def rbind_simps status_from_u16_def error_from_status_def
      status_defs split: if_splits)

lemma client_from_u16_Inr_iff:
  "client_from_u16 w = Inr c \<longleftrightarrow> 400 \<le> unat w \<and> unat w < 500 \<and> c = ClientErrorStatusCode (unat w)"
  by (auto simp: client_from_u16_def rbind_simps status_from_u16_def client_from_status_def
      status_defs split: if_splits)

lemma error_of_client_wf: "client_status_wf c \<Longrightarrow> error_status_wf (error_of_client c)"
  by (auto simp: status_defs error_of_client_def)

lemma unat_as_u16: "error_status_wf e \<Longrightarrow> unat (as_u16 e) = as_status e"
  by (simp add: as_u16_def error_status_wf_def unat_word_ariths unat_of_nat)

lemma canonical_reason_constants [simp]:
  "canonical_reason 400 = Some ''Bad Request''"
  "canonical_reason 404 = Some ''Not Found''"
  "canonical_reason 405 = Some ''Method Not Allowed''"
  "canonical_reason 500 = Some ''Internal Server Error''"
  "canonical_reason 503 = Some ''Service Unavailable''"
  by (simp_all add: canonical_reason_def error_constants_def client_error_constants_def)

lemma error_constant_simps [simp]:
  "error_constant ''NOT_FOUND'' = ErrorStatusCode 404"
  "error_constant ''INTERNAL_SERVER_ERROR'' = ErrorStatusCode 500"
  "error_constant ''SERVICE_UNAVAILABLE'' = ErrorStatusCode 503"
  "client_error_constant ''BAD_REQUEST'' = ClientErrorStatusCode 400"
  "client_error_constant ''METHOD_NOT_ALLOWED'' = ClientErrorStatusCode 405"
  by (simp_all add: error_constant_def client_error_constant_def error_constants_def
      client_error_constants_def)

text \<open>Converting to \<open>u16\<close> and back is the identity on every error status code, the
  conversion from \<open>u16\<close> succeeds exactly on 400--599, and narrowing to a client error
  succeeds exactly on 400--499 and is undone by widening.\<close>

theorem error_status_roundtrip:
  assumes "error_status_wf e"
  shows "error_from_u16 (as_u16 e) = Inr e
    \<and> (as_client_error e = Inr c \<longleftrightarrow> as_status e < 500 \<and> error_of_client c = e)"
proof
  show "error_from_u16 (as_u16 e) = Inr e"
    using assms unat_as_u16[OF assms]
    by (auto simp: error_from_u16_Inr_iff error_status_wf_def)
  show "as_client_error e = Inr c \<longleftrightarrow> as_status e < 500 \<and> error_of_client c = e"
    using assms
    by (cases e; cases c) (auto simp: as_client_error_def error_of_client_def status_defs)
qed

theorem error_status_roundtrip_witness:
  "error_from_u16 (as_u16 (ErrorStatusCode 404)) = Inr (ErrorStatusCode 404)
    \<and> (as_client_error (ErrorStatusCode 404) = Inr (ClientErrorStatusCode 404)
        \<longleftrightarrow> as_status (ErrorStatusCode 404) < 500
          \<and> error_of_client (ClientErrorStatusCode 404) = ErrorStatusCode 404)"
  by (rule error_status_roundtrip) (simp add: error_status_wf_def)

end
