(* ===== verification/Http_Error.thy ===== *)
theory Http_Error
  imports Status_Codes
begin

text \<open>
  Header maps, responses and the \<^verbatim>\<open>HttpError\<close> type of \<^verbatim>\<open>error.rs\<close>, with the constants of
  \<^verbatim>\<open>http_util.rs\<close>.

  An \<^verbatim>\<open>http::HeaderMap\<close> is the multimap that the \<^verbatim>\<open>http\<close> crate documents: it is
  represented by the function from the (lower-case) header name to the values of
  that header in insertion order.  What the crate decides on its own (which names
  and values are valid, when a map is full) is the parameter record \<open>http_lib\<close>, and
  the JSON printer of \<^verbatim>\<open>serde_json\<close> is a function argument.
\<close>

named_theorems http_simps \<open>equations on header maps, responses and errors\<close>

section \<open>Panics\<close>

text \<open>A Rust panic is an outcome of its own, with the message of the source.\<close>

datatype panic = Panic string

type_synonym 'a outcome = "(panic, 'a) result"

section \<open>Header maps\<close>

type_synonym header_map = "string \<Rightarrow> string list"

definition hm_empty :: header_map where
  "hm_empty = (\<lambda>_. [])"

definition hm_append :: "string \<Rightarrow> string \<Rightarrow> header_map \<Rightarrow> header_map" where
  "hm_append n v h = h(n := h n @ [v])"

definition hm_insert :: "string \<Rightarrow> string \<Rightarrow> header_map \<Rightarrow> header_map" where
  "hm_insert n v h = h(n := [v])"

definition hm_remove :: "string \<Rightarrow> header_map \<Rightarrow> header_map" where
  "hm_remove n h = h(n := [])"

definition hm_get :: "header_map \<Rightarrow> string \<Rightarrow> string option" where
  "hm_get h n = (case h n of [] \<Rightarrow> None | v # _ \<Rightarrow> Some v)"

definition hm_contains_key :: "header_map \<Rightarrow> string \<Rightarrow> bool" where
  "hm_contains_key h n = (h n \<noteq> [])"

text \<open>\<^verbatim>\<open>extend\<close> with another map: every name of it replaces the values there.\<close>

definition hm_extend :: "header_map \<Rightarrow> header_map \<Rightarrow> header_map" where
  "hm_extend h g = (\<lambda>n. if g n = [] then h n else g n)"

lemmas hm_defs = hm_empty_def hm_append_def hm_insert_def hm_remove_def hm_get_def
  hm_contains_key_def hm_extend_def

lemma hm_lookup_simps [simp, http_simps]:
  "hm_empty n = []"
  "hm_append n v h m = (if m = n then h n @ [v] else h m)"
  "hm_insert n v h m = (if m = n then [v] else h m)"
  "hm_remove n h m = (if m = n then [] else h m)"
  "hm_extend h g m = (if g m = [] then h m else g m)"
  by (auto simp: hm_defs)

lemma hm_get_insert [simp]: "hm_get (hm_insert n v h) m = (if m = n then Some v else hm_get h m)"
  by (simp add: hm_get_def)

lemma hm_get_None_iff: "hm_get h n = None \<longleftrightarrow> h n = []"
  by (auto simp: hm_get_def split: list.splits)

lemma hm_fold_append:
  "fold (hm_append n) vs h = h(n := h n @ vs)"
  by (induction vs arbitrary: h) (auto simp: hm_append_def)

text \<open>The decisions of the \<^verbatim>\<open>http\<close> crate: the normal form of a header name, the
  validity of a value, and whether a map has no room for one more entry.\<close>

record http_lib =
  parse_header_name :: "string \<Rightarrow> string option"
  header_value_ok :: "string \<Rightarrow> bool"
  headers_full :: "header_map \<Rightarrow> bool"

datatype http_lib_error = InvalidHeaderName | InvalidHeaderValue | MaxSizeReached

section \<open>Constants of http\_util.rs\<close>

definition HEADER_REQUEST_ID :: string where
  "HEADER_REQUEST_ID = ''x-request-id''"

definition CONTENT_TYPE_OCTET_STREAM :: string where
  "CONTENT_TYPE_OCTET_STREAM = ''application/octet-stream''"

definition CONTENT_TYPE_JSON :: string where
  "CONTENT_TYPE_JSON = ''application/json''"

definition CONTENT_TYPE_NDJSON :: string where
  "CONTENT_TYPE_NDJSON = ''application/x-ndjson''"

definition CONTENT_TYPE_URL_ENCODED :: string where
  "CONTENT_TYPE_URL_ENCODED = ''application/x-www-form-urlencoded''"

definition CONTENT_TYPE_MULTIPART_FORM_DATA :: string where
  "CONTENT_TYPE_MULTIPART_FORM_DATA = ''multipart/form-data''"

section \<open>Responses and errors\<close>

record 'b response =
  resp_status :: status_code
  resp_headers :: header_map
  resp_body :: 'b

record http_error =
  status_code :: error_status_code
  error_code :: "string option"
  external_message :: string
  internal_message :: string
  headers :: "header_map option"

record http_error_response_body =
  body_request_id :: string
  body_error_code :: "string option"
  body_message :: string

definition for_client_error ::
  "string option \<Rightarrow> client_error_status_code \<Rightarrow> string \<Rightarrow> http_error" where
  "for_client_error code st msg =
    \<lparr> status_code = error_of_client st, error_code = code, external_message = msg,
      internal_message = msg, headers = None \<rparr>"

definition for_internal_error :: "string \<Rightarrow> http_error" where
  "for_internal_error imsg =
    (let st = error_constant ''INTERNAL_SERVER_ERROR'' in
    \<lparr> status_code = st, error_code = Some ''Internal'',
      external_message = the (canonical_reason (as_status st)),
      internal_message = imsg, headers = None \<rparr>)"

definition for_unavail :: "string option \<Rightarrow> string \<Rightarrow> http_error" where
  "for_unavail code imsg =
    (let st = error_constant ''SERVICE_UNAVAILABLE'' in
    \<lparr> status_code = st, error_code = code,
      external_message = the (canonical_reason (as_status st)),
      internal_message = imsg, headers = None \<rparr>)"

definition for_bad_request :: "string option \<Rightarrow> string \<Rightarrow> http_error" where
  "for_bad_request code msg = for_client_error code (client_error_constant ''BAD_REQUEST'') msg"

text \<open>The reason phrase of an arbitrary client error is unwrapped, so a status with no
  reason phrase panics.\<close>

definition for_client_error_with_status ::
  "string option \<Rightarrow> client_error_status_code \<Rightarrow> http_error outcome" where
  "for_client_error_with_status code st =
    rbind (ok_or (Panic ''called `Option::unwrap()` on a `None` value'')
            (canonical_reason (client_as_status st)))
      (\<lambda>message. Inr (for_client_error code st message))"

definition for_not_found :: "string option \<Rightarrow> string \<Rightarrow> http_error" where
  "for_not_found code imsg =
    (let st = error_constant ''NOT_FOUND'' in
    \<lparr> status_code = st, error_code = code,
      external_message = the (canonical_reason (as_status st)),
      internal_message = imsg, headers = None \<rparr>)"

text \<open>\<^verbatim>\<open>From<HyperError>\<close> and \<^verbatim>\<open>From<http::Error>\<close>; the argument is the printed error.\<close>

definition error_from_processing :: "string \<Rightarrow> http_error" where
  "error_from_processing err = for_bad_request None (''error processing request: '' @ err)"

definition headers_mut :: "http_error \<Rightarrow> header_map \<times> http_error" where
  "headers_mut e =
    (let h = (case headers e of None \<Rightarrow> hm_empty | Some h \<Rightarrow> h) in (h, e\<lparr>headers := Some h\<rparr>))"

text \<open>\<^verbatim>\<open>add_header\<close> updates the error in place: the result pairs the error as it is
  afterwards with the outcome of the call.\<close>

definition add_header ::
  "http_lib \<Rightarrow> string \<Rightarrow> string \<Rightarrow> http_error \<Rightarrow> http_error \<times> (http_lib_error, unit) result" where
  "add_header H name value e =
    (case parse_header_name H name of
       None \<Rightarrow> (e, Inl InvalidHeaderName)
     | Some n \<Rightarrow>
         if \<not> header_value_ok H value then (e, Inl InvalidHeaderValue)
         else (let (h, e') = headers_mut e in
               if headers_full H h then (e', Inl MaxSizeReached)
               else (e'\<lparr>headers := Some (hm_append n value h)\<rparr>, Inr ())))"

definition with_header ::
  "http_lib \<Rightarrow> string \<Rightarrow> string \<Rightarrow> http_error \<Rightarrow> (http_lib_error, http_error) result" where
  "with_header H name value e =
    rbind (ok_or InvalidHeaderName (parse_header_name H name)) (\<lambda>n.
      if \<not> header_value_ok H value then Inl InvalidHeaderValue
      else (let (h, e') = headers_mut e in
            if headers_full H h then Inl MaxSizeReached
            else Inr (e'\<lparr>headers := Some (hm_append n value h)\<rparr>)))"

text \<open>\<^verbatim>\<open>into_response\<close>: the headers of the error first, then the content type and the
  request id are appended; the final \<^verbatim>\<open>unwrap\<close> of the builder panics when the request
  id is no valid header value or the map has no room.\<close>

definition builder_header ::
  "http_lib \<Rightarrow> string \<Rightarrow> string \<Rightarrow> header_map \<Rightarrow> (http_lib_error, header_map) result" where
  "builder_header H name value h =
    (if \<not> header_value_ok H value then Inl InvalidHeaderValue
     else if headers_full H h then Inl MaxSizeReached
     else Inr (hm_append name value h))"

definition error_into_response ::
  "http_lib \<Rightarrow> (http_error_response_body \<Rightarrow> 'b) \<Rightarrow> string \<Rightarrow> http_error \<Rightarrow> 'b response outcome" where
  "error_into_response H to_json request_id e =
    map_err (\<lambda>_. Panic ''called `Result::unwrap()` on an `Err` value'')
     (rbind (builder_header H ''content-type'' CONTENT_TYPE_JSON
              (case headers e of Some h \<Rightarrow> h | None \<Rightarrow> hm_empty)) (\<lambda>h1.
      rbind (builder_header H HEADER_REQUEST_ID request_id h1) (\<lambda>h2.
      Inr \<lparr> resp_status = as_status (status_code e),
            resp_headers = h2,
            resp_body = to_json \<lparr> body_request_id = request_id,
                                  body_error_code = error_code e,
                                  body_message = external_message e \<rparr> \<rparr>)))"

text \<open>\<^verbatim>\<open>Display\<close>; \<open>disp\<close> prints the status code.\<close>

definition http_error_display :: "(error_status_code \<Rightarrow> string) \<Rightarrow> http_error \<Rightarrow> string" where
  "http_error_display disp e =
    ''HttpError('' @ disp (status_code e) @ ''): '' @ external_message e"

section \<open>Lemmas\<close>

lemma error_constructor_fields [simp, http_simps]:
  "status_code (for_client_error c st m) = error_of_client st"
  "status_code (for_internal_error m) = ErrorStatusCode 500"
  "status_code (for_unavail c m) = ErrorStatusCode 503"
  "status_code (for_bad_request c m) = ErrorStatusCode 400"
  "status_code (for_not_found c m) = ErrorStatusCode 404"
  "external_message (for_not_found c m) = ''Not Found''"
  "external_message (for_internal_error m) = ''Internal Server Error''"
  "external_message (for_unavail c m) = ''Service Unavailable''"
  "external_message (for_bad_request c m) = m"
  "internal_message (for_not_found c m) = m"
  "internal_message (for_internal_error m) = m"
  "internal_message (for_bad_request c m) = m"
  "headers (for_not_found c m) = None"
  "headers (for_internal_error m) = None"
  "headers (for_bad_request c m) = None"
  "headers (for_client_error c st m) = None"
  "error_code (for_bad_request c m) = c"
  by (auto simp: for_client_error_def for_internal_error_def for_unavail_def for_bad_request_def
      for_not_found_def error_of_client_def Let_def)

definition http_error_wf :: "http_error \<Rightarrow> bool" where
  "http_error_wf e = error_status_wf (status_code e)"

lemma http_error_constructors_wf [simp, intro]:
  "client_status_wf st \<Longrightarrow> http_error_wf (for_client_error c st m)"
  "http_error_wf (for_internal_error m)"
  "http_error_wf (for_unavail c m)"
  "http_error_wf (for_bad_request c m)"
  "http_error_wf (for_not_found c m)"
  by (simp_all add: http_error_wf_def error_of_client_wf)
     (simp_all add: error_status_wf_def)


definition error_headers :: "http_error \<Rightarrow> header_map" where
  "error_headers e = (case headers e of Some h \<Rightarrow> h | None \<Rightarrow> hm_empty)"

lemma add_header_frame:
  assumes "add_header H name value e = (e', r)"
  shows "status_code e' = status_code e \<and> error_code e' = error_code e
    \<and> external_message e' = external_message e \<and> internal_message e' = internal_message e
    \<and> error_headers e' =
        (if is_ok r then hm_append (the (parse_header_name H name)) value (error_headers e)
         else error_headers e)"
  using assms
  by (auto simp: add_header_def headers_mut_def error_headers_def Let_def
      split: option.splits if_splits)

lemma with_header_add_header:
  "with_header H name value e = (case add_header H name value e of (e', r) \<Rightarrow> rbind r (\<lambda>_. Inr e'))"
  by (auto simp: add_header_def with_header_def headers_mut_def Let_def ok_or_def
      split: option.splits)

lemma canonical_reason_client:
  assumes "client_status_wf st"
  shows "canonical_reason (client_as_status st)
    = map_of (map snd client_error_constants) (client_as_status st)"
proof -
  have "map_of (map snd [x\<leftarrow>error_constants. fst (snd x) \<ge> 500]) (client_as_status st) = None"
    using assms by (auto simp: client_status_wf_def map_of_eq_None_iff)
  then show ?thesis
    unfolding canonical_reason_def error_constants_def
    by (simp add: client_error_constants_def map_add_def split: option.split)
qed

section \<open>Properties\<close>

text \<open>Turning an error into a response succeeds exactly when the request id is a
  valid header value and the header map has room; the response then has the error's
  status, the error's headers followed by the content type and the request id, and a
  body built from the request id, the error code and the external message.\<close>

theorem error_into_response_spec:
  assumes "\<forall>h. \<not> headers_full H h" "header_value_ok H CONTENT_TYPE_JSON" "header_value_ok H rid"
  shows "\<exists>r. error_into_response H to_json rid e = Inr r
    \<and> resp_status r = as_status (status_code e)
    \<and> resp_headers r =
        hm_append HEADER_REQUEST_ID rid
          (hm_append ''content-type'' CONTENT_TYPE_JSON (error_headers e))
    \<and> resp_body r = to_json \<lparr> body_request_id = rid, body_error_code = error_code e,
                               body_message = external_message e \<rparr>"
  using assms by (simp add: error_into_response_def builder_header_def error_headers_def)

theorem error_into_response_spec_witness:
  "\<exists>r. error_into_response \<lparr>parse_header_name = Some, header_value_ok = (\<lambda>_. True),
          headers_full = (\<lambda>_. False)\<rparr> body_message ''r1'' (for_internal_error ''db down'') = Inr r
    \<and> resp_status r = as_status (status_code (for_internal_error ''db down''))
    \<and> resp_headers r =
        hm_append HEADER_REQUEST_ID ''r1''
          (hm_append ''content-type'' CONTENT_TYPE_JSON (error_headers (for_internal_error ''db down'')))
    \<and> resp_body r = body_message \<lparr> body_request_id = ''r1'',
          body_error_code = error_code (for_internal_error ''db down''),
          body_message = external_message (for_internal_error ''db down'') \<rparr>"
  by (rule error_into_response_spec) simp_all

text \<open>The internal message never reaches the client: errors that differ in nothing
  else produce the same response, whatever the JSON printer does.\<close>

theorem internal_message_not_sent:
  "error_into_response H to_json rid (e\<lparr>internal_message := m\<rparr>) = error_into_response H to_json rid e"
  by (simp add: error_into_response_def)

text \<open>Building an error from a bare client status panics exactly on the status codes
  that are none of the named constants (444 is one of them), and otherwise uses the
  standard label as both messages.\<close>

theorem for_client_error_with_status_panics:
  assumes "client_status_wf st"
  shows "(\<exists>p. for_client_error_with_status code st = Inl p)
    \<longleftrightarrow> client_as_status st \<notin> (fst \<circ> snd) ` set client_error_constants"
proof -
  have "(\<exists>p. for_client_error_with_status code st = Inl p)
      \<longleftrightarrow> map_of (map snd client_error_constants) (client_as_status st) = None"
    using canonical_reason_client[OF assms]
    by (auto simp: for_client_error_with_status_def rbind_simps)
  then show ?thesis
    by (simp add: map_of_eq_None_iff image_comp)
qed

theorem for_client_error_with_status_panics_witness:
  "(\<exists>p. for_client_error_with_status None (ClientErrorStatusCode 444) = Inl p)
    \<longleftrightarrow> client_as_status (ClientErrorStatusCode 444) \<notin> (fst \<circ> snd) ` set client_error_constants"
  by (rule for_client_error_with_status_panics) (simp add: client_status_wf_def)

end
