(* ===== verification/Json_Schema.thy ===== *)
theory Json_Schema
  imports Complex_Main Prelude
begin

text \<open>
  The data that the API description exchanges with \<^verbatim>\<open>schemars\<close> and \<^verbatim>\<open>serde_json\<close>: JSON
  values and JSON schemas, with the fields that the patterns of \<^verbatim>\<open>schema_util.rs\<close>,
  \<^verbatim>\<open>type_util.rs\<close> and \<^verbatim>\<open>api_description.rs\<close> list one by one; and the small
  schema functions of \<^verbatim>\<open>api_description.rs\<close> and \<^verbatim>\<open>schema_util.rs\<close> that read a schema
  without converting it.
\<close>

section \<open>Numbers and JSON values\<close>

text \<open>A superset of the IEEE doubles: the finite ones are rationals.\<close>

datatype f64 = Fin rat | PosInf | NegInf | NaN

text \<open>Rust's \<^verbatim>\<open>f as i64\<close>: truncation towards zero, saturating, and 0 for NaN.\<close>

definition i64_min :: int where "i64_min = - (2 ^ 63)"
definition i64_max :: int where "i64_max = 2 ^ 63 - 1"

definition trunc_rat :: "rat \<Rightarrow> int" where
  "trunc_rat q = (if q < 0 then \<lceil>q\<rceil> else \<lfloor>q\<rfloor>)"

fun f64_as_i64 :: "f64 \<Rightarrow> int" where
  "f64_as_i64 (Fin q) = max i64_min (min i64_max (trunc_rat q))"
| "f64_as_i64 PosInf = i64_max"
| "f64_as_i64 NegInf = i64_min"
| "f64_as_i64 NaN = 0"

datatype json_number = JInt int | JFloat f64

datatype json =
    JNull
  | JBool bool
  | JNumber json_number
  | JString string
  | JArray "json list"
  | JObject "(string \<times> json) list"

section \<open>Schemas\<close>

datatype instance_type = TNull | TBoolean | TObject | TArray | TNumber | TString | TInteger

datatype 'a single_or_vec = Single 'a | Vec "'a list"

record metadata =
  md_title :: "string option"
  md_description :: "string option"
  md_default :: "json option"
  md_deprecated :: bool
  md_read_only :: bool
  md_write_only :: bool

record number_validation =
  nv_multiple_of :: "f64 option"
  nv_maximum :: "f64 option"
  nv_exclusive_maximum :: "f64 option"
  nv_minimum :: "f64 option"
  nv_exclusive_minimum :: "f64 option"

record string_validation =
  sv_max_length :: "32 word option"
  sv_min_length :: "32 word option"
  sv_pattern :: "string option"

datatype schema =
    SBool bool
  | SObject schema_object
and schema_object = SchemaObject
    (so_metadata: "metadata option")
    (so_instance_type: "instance_type single_or_vec option")
    (so_format: "string option")
    (so_enum_values: "json list option")
    (so_const_value: "json option")
    (so_subschemas: "subschema_validation option")
    (so_number: "number_validation option")
    (so_string: "string_validation option")
    (so_array: "array_validation option")
    (so_object: "object_validation option")
    (so_reference: "string option")
    (so_extensions: "(string \<times> json) list")
and subschema_validation = SubschemaValidation
    (all_of: "schema list option")
    (any_of: "schema list option")
    (one_of: "schema list option")
    (not_schema: "schema option")
    (if_schema: "schema option")
    (then_schema: "schema option")
    (else_schema: "schema option")
and array_validation = ArrayValidation
    (av_items: "schema single_or_vec option")
    (av_additional_items: "schema option")
    (av_max_items: "32 word option")
    (av_min_items: "32 word option")
    (av_unique_items: "bool option")
    (av_contains: "schema option")
and object_validation = ObjectValidation
    (ov_max_properties: "32 word option")
    (ov_min_properties: "32 word option")
    (ov_required: "string list")
    (ov_properties: "(string \<times> schema) list")
    (ov_pattern_properties: "(string \<times> schema) list")
    (ov_additional_properties: "schema option")
    (ov_property_names: "schema option")

text \<open>\<^verbatim>\<open>Default::default()\<close> of a schema object: every field absent.\<close>

definition schema_object_default :: schema_object where
  "schema_object_default =
    SchemaObject None None None None None None None None None None None []"

section \<open>Shapes that the code matches\<close>

text \<open>Nothing but metadata and extensions beside the reference.\<close>

fun pure_reference :: "schema \<Rightarrow> string option" where
  "pure_reference (SObject (SchemaObject md None None None None None None None None None
      (Some r) ext)) = Some r"
| "pure_reference _ = None"

text \<open>Nothing but metadata and extensions beside the subschemas.\<close>

fun pure_subschemas :: "schema \<Rightarrow> subschema_validation option" where
  "pure_subschemas (SObject (SchemaObject md None None None None (Some s) None None None None
      None ext)) = Some s"
| "pure_subschemas _ = None"

text \<open>Returns true iff the schema represents the void schema that matches no data.\<close>

fun unconstrained :: "schema \<Rightarrow> bool" where
  "unconstrained (SBool b) = b"
| "unconstrained (SObject (SchemaObject md None None None None None None None None None
      None ext)) = True"
| "unconstrained _ = False"

definition is_empty_schema :: "schema \<Rightarrow> bool" where
  "is_empty_schema s =
    (s = SBool False \<or>
     (case pure_subschemas s of
        Some (SubschemaValidation None None None (Some n) None None None) \<Rightarrow> unconstrained n
      | _ \<Rightarrow> False))"

fun schema_extensions :: "schema \<Rightarrow> (string \<times> json) list option" where
  "schema_extensions (SBool _) = None"
| "schema_extensions (SObject obj) = Some (so_extensions obj)"

definition metadata_description :: "schema_object \<Rightarrow> string option" where
  "metadata_description obj = Option.bind (so_metadata obj) md_description"

fun clear_metadata :: "schema_object \<Rightarrow> schema_object" where
  "clear_metadata (SchemaObject md ty fmt ev cv sub nv sv av ov r ext) =
    SchemaObject None ty fmt ev cv sub nv sv av ov r ext"

definition schema_extract_description :: "schema \<Rightarrow> string option \<times> schema" where
  "schema_extract_description s =
    (case s of
       SBool _ \<Rightarrow> (None, s)
     | SObject obj \<Rightarrow>
         (case pure_subschemas s of
            Some (SubschemaValidation (Some [sub]) None None None None None None) \<Rightarrow>
              (metadata_description obj, sub)
          | _ \<Rightarrow> (metadata_description obj, SObject (clear_metadata obj))))"

lemma pure_reference_iff:
  "pure_reference s = Some r \<longleftrightarrow> (\<exists>md ext. s = SObject (SchemaObject md None None None None None
      None None None None (Some r) ext))"
  by (cases s rule: pure_reference.cases) auto

lemma pure_subschemas_iff:
  "pure_subschemas s = Some sub \<longleftrightarrow> (\<exists>md ext. s = SObject (SchemaObject md None None None None
      (Some sub) None None None None None ext))"
  by (cases s rule: pure_subschemas.cases) auto

lemma pure_shapes_disjoint: "pure_reference s = Some r \<Longrightarrow> pure_subschemas s = None"
  by (auto simp: pure_reference_iff)

lemma f64_as_i64_range: "i64_min \<le> f64_as_i64 f \<and> f64_as_i64 f \<le> i64_max"
  by (cases f) (auto simp: i64_min_def i64_max_def)

end
