(* ===== verification/Api_Types.thy ===== *)
theory Api_Types
  imports Versions Http_Error Json_Schema
begin

text \<open>
  The data of \<^verbatim>\<open>api_description.rs\<close>: endpoints, parameters, body content types,
  responses and tag policies, with the functions that build them.  The handler of an
  endpoint is a type parameter \<open>'h\<close>, the version type a type parameter \<open>'v\<close>.
\<close>

section \<open>Body content types\<close>

datatype api_endpoint_body_content_type = Bytes | Json | UrlEncoded | MultipartFormData

fun mime_type :: "api_endpoint_body_content_type \<Rightarrow> string" where
  "mime_type Bytes = CONTENT_TYPE_OCTET_STREAM"
| "mime_type Json = CONTENT_TYPE_JSON"
| "mime_type UrlEncoded = CONTENT_TYPE_URL_ENCODED"
| "mime_type MultipartFormData = CONTENT_TYPE_MULTIPART_FORM_DATA"

definition mime_split :: "string \<Rightarrow> (string \<times> string \<times> string option) option" where
  "mime_split m =
    (case split_once (CHR ''/'') m of
       None \<Rightarrow> None
     | Some (ty, rest) \<Rightarrow>
         (case split_once (CHR ''+'') rest of
            None \<Rightarrow> Some (ty, rest, None)
          | Some (subtype, suffix) \<Rightarrow> Some (ty, subtype, Some suffix)))"

definition from_mime_type :: "string \<Rightarrow> (string, api_endpoint_body_content_type) result" where
  "from_mime_type m =
    (if m = CONTENT_TYPE_OCTET_STREAM then Inr Bytes
     else if m = CONTENT_TYPE_JSON then Inr Json
     else if m = CONTENT_TYPE_URL_ENCODED then Inr UrlEncoded
     else if m = CONTENT_TYPE_MULTIPART_FORM_DATA then Inr MultipartFormData
     else (case mime_split m of
             Some (ty, _, Some suffix) \<Rightarrow>
               if ty = ''application'' \<and> suffix = ''json'' then Inr Json else Inl m
           | _ \<Rightarrow> Inl m))"

section \<open>Parameters and responses\<close>

text \<open>A schema is either generated later from a \<^verbatim>\<open>SchemaGenerator\<close> (\<open>'g\<close>, the two
  function pointers) or given with the definitions it refers to.\<close>

datatype 'g api_schema_generator =
    Gen 'g
  | Static (static_schema: schema) (static_dependencies: "(string \<times> schema) list")

datatype api_endpoint_parameter_location = LocPath | LocQuery | LocHeader

datatype api_endpoint_parameter_metadata =
    Path string
  | Query string
  | Header string
  | Body api_endpoint_body_content_type

record 'g api_endpoint_parameter =
  param_metadata :: api_endpoint_parameter_metadata
  param_description :: "string option"
  param_required :: bool
  param_schema :: "'g api_schema_generator"
  param_examples :: "string list"

fun located :: "api_endpoint_parameter_location \<Rightarrow> string \<Rightarrow> api_endpoint_parameter_metadata" where
  "located LocPath name = Path name"
| "located LocQuery name = Query name"
| "located LocHeader name = Header name"

definition new_named ::
  "api_endpoint_parameter_location \<Rightarrow> string \<Rightarrow> string option \<Rightarrow> bool
    \<Rightarrow> 'g api_schema_generator \<Rightarrow> string list \<Rightarrow> 'g api_endpoint_parameter" where
  "new_named loc name desc req sch exs =
    \<lparr> param_metadata = located loc name, param_description = desc, param_required = req,
      param_schema = sch, param_examples = exs \<rparr>"

definition new_body ::
  "api_endpoint_body_content_type \<Rightarrow> bool \<Rightarrow> 'g api_schema_generator \<Rightarrow> string list
    \<Rightarrow> 'g api_endpoint_parameter" where
  "new_body ct req sch exs =
    \<lparr> param_metadata = Body ct, param_description = None, param_required = req,
      param_schema = sch, param_examples = exs \<rparr>"

record 'g api_endpoint_header =
  header_name :: string
  header_description :: "string option"
  header_schema :: "'g api_schema_generator"
  header_required :: bool

record 'g api_endpoint_response =
  response_schema :: "'g api_schema_generator option"
  response_headers :: "'g api_endpoint_header list"
  response_success :: "status_code option"
  response_description :: "string option"

definition api_endpoint_response_default :: "'g api_endpoint_response" where
  "api_endpoint_response_default =
    \<lparr> response_schema = None, response_headers = [], response_success = None,
      response_description = None \<rparr>"

record 'g api_endpoint_error_response =
  error_schema :: "'g api_schema_generator"
  error_type_name :: string

text \<open>\<^verbatim>\<open>for_type\<close>; the arguments are the content metadata and the name of the type.\<close>

definition error_response_for_type ::
  "'g api_schema_generator option \<Rightarrow> string \<Rightarrow> 'g api_endpoint_error_response option" where
  "error_response_for_type content_metadata type_name =
    map_option (\<lambda>sch. \<lparr> error_schema = sch, error_type_name = type_name \<rparr>) content_metadata"

datatype extension_mode = ModeNone | Paginated json | Websocket

section \<open>Endpoints\<close>

record ('h, 'g, 'v) api_endpoint =
  operation_id :: string
  handler :: 'h
  "method" :: string
  path :: string
  parameters :: "'g api_endpoint_parameter list"
  body_content_type :: api_endpoint_body_content_type
  request_body_max_bytes :: "nat option"
  ep_response :: "'g api_endpoint_response"
  ep_error :: "'g api_endpoint_error_response option"
  summary :: "string option"
  description :: "string option"
  tags :: "string list"
  extension_mode :: extension_mode
  visible :: bool
  deprecated :: bool
  versions :: "'v api_endpoint_versions"

text \<open>What the types of a handler contribute to its endpoint: the metadata of its
  extractors, of its response and of its error type.\<close>

record 'g extractor_metadata =
  em_extension_mode :: extension_mode
  em_parameters :: "'g api_endpoint_parameter list"

definition endpoint_new ::
  "(api_endpoint_body_content_type \<Rightarrow> 'g extractor_metadata) \<Rightarrow> 'g api_endpoint_response
    \<Rightarrow> 'g api_endpoint_error_response option \<Rightarrow> string \<Rightarrow> 'h \<Rightarrow> string \<Rightarrow> string \<Rightarrow> string
    \<Rightarrow> 'v api_endpoint_versions \<Rightarrow> ('h, 'g, 'v) api_endpoint outcome" where
  "endpoint_new func_metadata resp err op_id h m content_type p vs =
    rbind (map_err (\<lambda>_. Panic ''unsupported mime type'') (from_mime_type content_type)) (\<lambda>bct.
      Inr \<lparr> operation_id = op_id, handler = h, method = m, path = p,
        parameters = em_parameters (func_metadata bct), body_content_type = bct,
        request_body_max_bytes = None, ep_response = resp, ep_error = err,
        summary = None, description = None, tags = [],
        extension_mode = em_extension_mode (func_metadata bct),
        visible = True, deprecated = False, versions = vs \<rparr>)"

text \<open>An endpoint that is given by types alone gets a stub handler of its name.\<close>

definition endpoint_new_for_types ::
  "(api_endpoint_body_content_type \<Rightarrow> 'g extractor_metadata) \<Rightarrow> 'g api_endpoint_response
    \<Rightarrow> 'g api_endpoint_error_response option \<Rightarrow> (string \<Rightarrow> 'h) \<Rightarrow> string \<Rightarrow> string \<Rightarrow> string \<Rightarrow> string
    \<Rightarrow> 'v api_endpoint_versions \<Rightarrow> ('h, 'g, 'v) api_endpoint outcome" where
  "endpoint_new_for_types func_metadata resp err stub_with_name op_id m content_type p vs =
    rbind (map_err (\<lambda>_. Panic ''unsupported mime type'') (from_mime_type content_type)) (\<lambda>bct.
      Inr \<lparr> operation_id = op_id, handler = stub_with_name op_id, method = m, path = p,
        parameters = em_parameters (func_metadata bct), body_content_type = bct,
        request_body_max_bytes = None, ep_response = resp, ep_error = err,
        summary = None, description = None, tags = [],
        extension_mode = em_extension_mode (func_metadata bct),
        visible = True, deprecated = False, versions = vs \<rparr>)"

definition with_summary :: "string \<Rightarrow> ('h, 'g, 'v) api_endpoint \<Rightarrow> ('h, 'g, 'v) api_endpoint" where
  "with_summary s e = e\<lparr>summary := Some s\<rparr>"

definition with_description ::
  "string \<Rightarrow> ('h, 'g, 'v) api_endpoint \<Rightarrow> ('h, 'g, 'v) api_endpoint" where
  "with_description s e = e\<lparr>description := Some s\<rparr>"

definition with_request_body_max_bytes ::
  "nat \<Rightarrow> ('h, 'g, 'v) api_endpoint \<Rightarrow> ('h, 'g, 'v) api_endpoint" where
  "with_request_body_max_bytes n e = e\<lparr>request_body_max_bytes := Some n\<rparr>"

definition with_tag :: "string \<Rightarrow> ('h, 'g, 'v) api_endpoint \<Rightarrow> ('h, 'g, 'v) api_endpoint" where
  "with_tag t e = e\<lparr>tags := tags e @ [t]\<rparr>"

definition with_visible :: "bool \<Rightarrow> ('h, 'g, 'v) api_endpoint \<Rightarrow> ('h, 'g, 'v) api_endpoint" where
  "with_visible b e = e\<lparr>visible := b\<rparr>"

definition with_deprecated :: "bool \<Rightarrow> ('h, 'g, 'v) api_endpoint \<Rightarrow> ('h, 'g, 'v) api_endpoint" where
  "with_deprecated b e = e\<lparr>deprecated := b\<rparr>"

lemmas content_type_defs = CONTENT_TYPE_OCTET_STREAM_def CONTENT_TYPE_JSON_def
  CONTENT_TYPE_NDJSON_def CONTENT_TYPE_URL_ENCODED_def CONTENT_TYPE_MULTIPART_FORM_DATA_def

lemma mime_split_suffix:
  assumes "CHR ''/'' \<notin> set ty" "CHR ''+'' \<notin> set sub"
  shows "mime_split (ty @ CHR ''/'' # sub @ CHR ''+'' # suf) = Some (ty, sub, Some suf)"
proof -
  have "split_once (CHR ''/'') (ty @ CHR ''/'' # sub @ CHR ''+'' # suf)
      = Some (ty, sub @ CHR ''+'' # suf)"
    using assms(1) by (simp add: split_once_Some_iff)
  moreover have "split_once (CHR ''+'') (sub @ CHR ''+'' # suf) = Some (sub, suf)"
    using assms(2) by (simp add: split_once_Some_iff)
  ultimately show ?thesis by (simp add: mime_split_def)
qed

lemma mime_type_no_plus: "CHR ''+'' \<notin> set (mime_type ct)"
  by (cases ct) (simp_all add: content_type_defs)

lemma from_mime_type_other:
  assumes "CHR ''+'' \<in> set m"
  shows "from_mime_type m =
    (case mime_split m of
       Some (ty, _, Some suffix) \<Rightarrow>
         if ty = ''application'' \<and> suffix = ''json'' then Inr Json else Inl m
     | _ \<Rightarrow> Inl m)"
proof -
  have "m \<noteq> mime_type ct" for ct
    using assms mime_type_no_plus by blast
  from this[of Bytes] this[of Json] this[of UrlEncoded] this[of MultipartFormData]
  show ?thesis by (simp add: from_mime_type_def)
qed

text \<open>The mime type of every body content type is recognised as that content type
  again, and \<open>application/X+json\<close> is treated as JSON for every subtype \<open>X\<close> without a
  plus sign.\<close>

theorem from_mime_type_roundtrip:
  assumes "CHR ''+'' \<notin> set x"
  shows "from_mime_type (mime_type ct) = Inr ct
    \<and> from_mime_type (''application/'' @ x @ ''+json'') = Inr Json"
proof
  show "from_mime_type (mime_type ct) = Inr ct"
    by (cases ct) (simp_all add: from_mime_type_def content_type_defs)
  have split: "mime_split (''application/'' @ x @ ''+json'') = Some (''application'', x, Some ''json'')"
    using mime_split_suffix[of "''application''" x "''json''"] assms by simp
  show "from_mime_type (''application/'' @ x @ ''+json'') = Inr Json"
    using from_mime_type_other[of "''application/'' @ x @ ''+json''"] split by simp
qed

theorem from_mime_type_roundtrip_witness:
  "from_mime_type (mime_type UrlEncoded) = Inr UrlEncoded
    \<and> from_mime_type (''application/'' @ ''scim'' @ ''+json'') = Inr Json"
  by (rule from_mime_type_roundtrip) simp

end
