(* ===== verification/Router.thy ===== *)
theory Router
  imports Api_Types
begin

text \<open>
  The router of \<^verbatim>\<open>router.rs\<close>: a trie whose edges are path segments.  \<open>router_insert\<close> is
  \<^verbatim>\<open>HttpRouter::insert\<close> with every panic as an outcome, \<open>lookup_route\<close> is
  \<^verbatim>\<open>HttpRouter::lookup_route\<close> with every error, and \<open>iter_next\<close> is the \<^verbatim>\<open>next\<close> of
  \<^verbatim>\<open>HttpRouterIter\<close>.  The percent decoder of the \<^verbatim>\<open>percent_encoding\<close> crate and the
  printer of versions are function arguments.
\<close>

named_theorems router_simps \<open>equations of the trie operations\<close>

section \<open>Path segments\<close>

datatype path_segment =
    Literal string
  | VarnameSegment string
  | VarnameWildcard string

definition path_segment_from :: "string \<Rightarrow> path_segment outcome" where
  "path_segment_from segment =
    (if starts_with ''{'' segment \<or> ends_with ''}'' segment then
       if \<not> starts_with ''{'' segment then
         Inl (Panic ''HTTP URI path segment variable missing leading {'')
       else if \<not> ends_with ''}'' segment then
         Inl (Panic ''HTTP URI path segment variable missing trailing }'')
       else
         (let var0 = butlast (tl segment);
              (var, pat) = (case split_once (CHR '':'') var0 of
                              Some (v, p) \<Rightarrow> (v, Some p)
                            | None \<Rightarrow> (var0, None))
          in if var = [] then
               Inl (Panic ''HTTP URI path segment variable name must not be empty'')
             else
               (case pat of
                  Some p \<Rightarrow>
                    if p \<noteq> ''.*'' then Inl (Panic ''Only the pattern .* is currently supported'')
                    else Inr (VarnameWildcard var)
                | None \<Rightarrow> Inr (VarnameSegment var)))
     else Inr (Literal segment))"

definition route_path_to_segments :: "string \<Rightarrow> string list outcome" where
  "route_path_to_segments p =
    (if \<not> starts_with ''/'' p then Inl (Panic (''route paths must begin with a /: '' @ p))
     else (let ret = tl (split_on (CHR ''/'') p) in
           if [] \<in> set (butlast ret) then
             Inl (Panic (''path segments may not be empty: '' @ p))
           else Inr (if last ret = [] then butlast ret else ret)))"

text \<open>\<open>decode\<close> is \<^verbatim>\<open>percent_decode_str(segment).decode_utf8()\<close> with its error printed.\<close>

definition input_path_to_segments ::
  "(string \<Rightarrow> (string, string) result) \<Rightarrow> string \<Rightarrow> (string, string list) result" where
  "input_path_to_segments decode p =
    mapM_result
      (\<lambda>segment. if segment = ''.'' \<or> segment = ''..''
                 then Inl ''dot-segments are not permitted''
                 else decode segment)
      (filter (\<lambda>segment. segment \<noteq> []) (split_on (CHR ''/'') p))"

section \<open>The trie\<close>

datatype 'e http_router_node = HttpRouterNode
    (methods: "(string, 'e list) btree_map")
    (edges: "'e http_router_edges option")
and 'e http_router_edges =
    Literals "(string, 'e http_router_node) btree_map"
  | VariableSingle string "'e http_router_node"
  | VariableRest string "'e http_router_node"

record 'e http_router =
  root :: "'e http_router_node"
  has_versioned_routes :: bool

definition node_new :: "'e http_router_node" where
  "node_new = HttpRouterNode [] None"

definition router_new :: "'e http_router" where
  "router_new = \<lparr> root = node_new, has_versioned_routes = False \<rparr>"

datatype variable_value = VString string | Components "string list"

type_synonym variable_set = "(string, variable_value) btree_map"

datatype map_error = MapError string

fun variable_as_value :: "variable_value \<Rightarrow> (map_error, string) result" where
  "variable_as_value (VString s) = Inr s"
| "variable_as_value (Components _) =
    Inl (MapError ''cannot deserialize sequence as a single value'')"

fun variable_as_seq :: "variable_value \<Rightarrow> (map_error, string list) result" where
  "variable_as_seq (VString _) =
    Inl (MapError ''cannot deserialize a single value as a sequence'')"
| "variable_as_seq (Components v) = Inr v"

section \<open>Insertion\<close>

definition insert_var :: "string \<Rightarrow> string set \<Rightarrow> string \<Rightarrow> string set outcome" where
  "insert_var p varnames new_varname =
    (if new_varname \<in> varnames then
       Inl (Panic (''URI path '' @ p @ '': variable name '' @ new_varname
                   @ '' is used more than once''))
     else Inr (insert new_varname varnames))"

text \<open>The end of \<^verbatim>\<open>insert\<close>: the handlers of the node that the path leads to.\<close>

definition add_handler ::
  "('h, 'g, 'v::linorder) api_endpoint \<Rightarrow> ('h, 'g, 'v) api_endpoint http_router_node
    \<Rightarrow> ('h, 'g, 'v) api_endpoint http_router_node outcome" where
  "add_handler e node =
    (let methodname = to_upper (method e);
         existing = (case map_of (methods node) methodname of None \<Rightarrow> [] | Some hs \<Rightarrow> hs)
     in (case find (\<lambda>h. overlaps_with (versions h) (versions e)) existing of
           Some h \<Rightarrow>
             if versions h = versions e then
               Inl (Panic (''URI path '' @ path e
                 @ '': attempted to create duplicate route for method '' @ methodname))
             else
               Inl (Panic (''URI path '' @ path e
                 @ '': attempted to register multiple handlers for method '' @ methodname
                 @ '' with overlapping version ranges''))
         | None \<Rightarrow>
             Inr (HttpRouterNode (bt_insert methodname (existing @ [e]) (methods node))
                    (edges node))))"

text \<open>One step of the loop per segment.  \<^verbatim>\<open>get_or_insert\<close> gives the edges the node
  already has, or the ones of the new segment.\<close>

fun insert_at ::
  "('h, 'g, 'v::linorder) api_endpoint \<Rightarrow> string set \<Rightarrow> string list
    \<Rightarrow> ('h, 'g, 'v) api_endpoint http_router_node
    \<Rightarrow> ('h, 'g, 'v) api_endpoint http_router_node outcome" where
  "insert_at e varnames [] node = add_handler e node"
| "insert_at e varnames (raw_segment # all_segments) node =
    rbind (path_segment_from raw_segment) (\<lambda>segment.
    (case segment of
       Literal lit \<Rightarrow>
         (case (case edges node of None \<Rightarrow> Literals [] | Some ed \<Rightarrow> ed) of
            VariableSingle varname _ \<Rightarrow>
              Inl (Panic (''URI path '' @ path e
                @ '': attempted to register route for literal path segment '' @ lit
                @ '' when a route exists for variable path segment (variable name: ''
                @ varname @ '')''))
          | VariableRest varname _ \<Rightarrow>
              Inl (Panic (''URI path '' @ path e
                @ '': attempted to register route for literal path segment '' @ lit
                @ '' when a route exists for variable path segment (variable name: ''
                @ varname @ '')''))
          | Literals literals \<Rightarrow>
              rbind (insert_at e varnames all_segments
                       (case map_of literals lit of None \<Rightarrow> node_new | Some n \<Rightarrow> n)) (\<lambda>n.
              Inr (HttpRouterNode (methods node) (Some (Literals (bt_insert lit n literals))))))
     | VarnameSegment new_varname \<Rightarrow>
         rbind (insert_var (path e) varnames new_varname) (\<lambda>varnames'.
         (case (case edges node of None \<Rightarrow> VariableSingle new_varname node_new | Some ed \<Rightarrow> ed) of
            Literals _ \<Rightarrow>
              Inl (Panic (''URI path '' @ path e
                @ '': attempted to register route for variable path segment (variable name: ''
                @ new_varname @ '') when a route already exists for a literal path segment''))
          | VariableRest varname _ \<Rightarrow>
              Inl (Panic (''URI path '' @ path e
                @ '': attempted to register route for variable path segment (variable name: ''
                @ new_varname @ '') when a route already exists for the remainder of the path as ''
                @ varname))
          | VariableSingle varname child \<Rightarrow>
              if new_varname \<noteq> varname then
                Inl (Panic (''URI path '' @ path e @ '': attempted to use variable name ''
                  @ new_varname @ '', but a different name ('' @ varname
                  @ '') has already been used for this''))
              else
                rbind (insert_at e varnames' all_segments child) (\<lambda>n.
                Inr (HttpRouterNode (methods node) (Some (VariableSingle varname n))))))
     | VarnameWildcard new_varname \<Rightarrow>
         if all_segments \<noteq> [] then
           Inl (Panic (''URI path '' @ path e
             @ '': attempted to match segments after the wildcard variable '' @ new_varname))
         else
         rbind (insert_var (path e) varnames new_varname) (\<lambda>varnames'.
         (case (case edges node of None \<Rightarrow> VariableRest new_varname node_new | Some ed \<Rightarrow> ed) of
            Literals _ \<Rightarrow>
              Inl (Panic (''URI path '' @ path e
                @ '': attempted to register route for variable path regex (variable name: ''
                @ new_varname @ '') when a route already exists for a literal path segment''))
          | VariableSingle varname _ \<Rightarrow>
              Inl (Panic (''URI path '' @ path e
                @ '': attempted to register route for variable path regex (variable name: ''
                @ new_varname @ '') when a route already exists for a segment '' @ varname))
          | VariableRest varname child \<Rightarrow>
              if new_varname \<noteq> varname then
                Inl (Panic (''URI path '' @ path e @ '': attempted to use variable name ''
                  @ new_varname @ '', but a different name ('' @ varname
                  @ '') has already been used for this''))
              else
                rbind (insert_at e varnames' all_segments child) (\<lambda>n.
                Inr (HttpRouterNode (methods node) (Some (VariableRest varname n))))))))"

definition router_insert ::
  "('h, 'g, 'v::linorder) api_endpoint \<Rightarrow> ('h, 'g, 'v) api_endpoint http_router
    \<Rightarrow> ('h, 'g, 'v) api_endpoint http_router outcome" where
  "router_insert e r =
    rbind (route_path_to_segments (path e)) (\<lambda>all_segments.
    rbind (insert_at e {} all_segments (root r)) (\<lambda>root'.
    Inr \<lparr> root = root',
          has_versioned_routes = (if versions e \<noteq> All then True else has_versioned_routes r) \<rparr>))"

section \<open>Lookup\<close>

definition find_handler_matching_version ::
  "('h, 'g, 'v::linorder) api_endpoint list \<Rightarrow> 'v option \<Rightarrow> ('h, 'g, 'v) api_endpoint option" where
  "find_handler_matching_version handlers version =
    find (\<lambda>h. matches (versions h) version) handlers"

text \<open>The walk of \<^verbatim>\<open>lookup_route\<close> down the trie; \<open>None\<close> is "no path in router", and a
  failed assertion is a panic.  The first equation is the code after the loop, where a
  wildcard edge consumes the implicit, empty rest of the path.\<close>

fun walk ::
  "'e http_router_node \<Rightarrow> variable_set \<Rightarrow> string list
    \<Rightarrow> ('e http_router_node \<times> variable_set) option outcome" where
  "walk node variables [] =
    (case edges node of
       Some (VariableRest varname new_node) \<Rightarrow>
         if edges new_node \<noteq> None then Inl (Panic ''assertion failed: new_node.edges.is_none()'')
         else Inr (Some (new_node, bt_insert varname (Components []) variables))
     | _ \<Rightarrow> Inr (Some (node, variables)))"
| "walk node variables (segment # all_segments) =
    (case edges node of
       None \<Rightarrow> Inr None
     | Some (Literals literals) \<Rightarrow>
         (case map_of literals segment of
            None \<Rightarrow> Inr None
          | Some child \<Rightarrow> walk child variables all_segments)
     | Some (VariableSingle varname child) \<Rightarrow>
         walk child (bt_insert varname (VString segment) variables) all_segments
     | Some (VariableRest varname child) \<Rightarrow>
         if edges child \<noteq> None then Inl (Panic ''assertion failed: node.edges.is_none()'')
         else walk child
                (bt_insert varname (Components (segment # all_segments)) variables) [])"

record request_endpoint_metadata =
  rem_operation_id :: string
  rem_variables :: variable_set
  rem_body_content_type :: api_endpoint_body_content_type
  rem_request_body_max_bytes :: "nat option"

record 'h router_lookup_result =
  lr_handler :: 'h
  lr_endpoint :: request_endpoint_metadata

fun add_allow_headers :: "http_lib \<Rightarrow> string list \<Rightarrow> http_error \<Rightarrow> http_error outcome" where
  "add_allow_headers H [] err = Inr err"
| "add_allow_headers H (allowed # ks) err =
    (case add_header H ''allow'' allowed err of
       (err', Inr _) \<Rightarrow> add_allow_headers H ks err'
     | (_, Inl _) \<Rightarrow> Inl (Panic ''method should be a valid allow header''))"

text \<open>What \<^verbatim>\<open>lookup_route\<close> does with the node that the walk found.\<close>

definition select_handler ::
  "http_lib \<Rightarrow> ('v::linorder \<Rightarrow> string) \<Rightarrow> ('h, 'g, 'v) api_endpoint http_router_node
    \<Rightarrow> variable_set \<Rightarrow> string \<Rightarrow> 'v option
    \<Rightarrow> (http_error, 'h router_lookup_result) result outcome" where
  "select_handler H show_version node variables m version =
    (case find_handler_matching_version
            (case map_of (methods node) (to_upper m) of None \<Rightarrow> [] | Some v \<Rightarrow> v) version of
       Some h \<Rightarrow>
         Inr (Inr \<lparr> lr_handler = handler h,
                    lr_endpoint = \<lparr> rem_operation_id = operation_id h,
                                    rem_variables = variables,
                                    rem_body_content_type = body_content_type h,
                                    rem_request_body_max_bytes = request_body_max_bytes h \<rparr> \<rparr>)
     | None \<Rightarrow>
         if list_ex (\<lambda>handlers. find_handler_matching_version handlers version \<noteq> None)
              (map snd (methods node))
         then rbind (for_client_error_with_status None (client_error_constant ''METHOD_NOT_ALLOWED''))
                (\<lambda>err. rbind (add_allow_headers H (bt_keys (methods node)) err) (\<lambda>err'.
                Inr (Inl err')))
         else Inr (Inl (for_not_found None
                (''route has no handlers for version ''
                 @ (case version of Some v \<Rightarrow> show_version v | None \<Rightarrow> ''<none>'')))))"

definition lookup_route ::
  "http_lib \<Rightarrow> (string \<Rightarrow> (string, string) result) \<Rightarrow> ('v::linorder \<Rightarrow> string)
    \<Rightarrow> ('h, 'g, 'v) api_endpoint http_router \<Rightarrow> string \<Rightarrow> string \<Rightarrow> 'v option
    \<Rightarrow> (http_error, 'h router_lookup_result) result outcome" where
  "lookup_route H decode show_version r m p version =
    (case input_path_to_segments decode p of
       Inl _ \<Rightarrow> Inr (Inl (for_bad_request None ''invalid path encoding''))
     | Inr all_segments \<Rightarrow>
         rbind (walk (root r) [] all_segments) (\<lambda>found.
         (case found of
            None \<Rightarrow> Inr (Inl (for_not_found None ''no route found (no path in router)''))
          | Some (node, variables) \<Rightarrow> select_handler H show_version node variables m version)))"

end
