(* ===== verification/Map_Serde.thy ===== *)
theory Map_Serde
  imports Router
begin

text \<open>
  The two serde back ends of dropshot: \<^verbatim>\<open>to_map.rs\<close> writes a flat structure into a
  string map (response headers), \<^verbatim>\<open>from_map.rs\<close> reads one out of a map of values (path
  variables, query parameters and request headers).

  A serializer is driven by a value of serde's data model, one constructor per
  \<^verbatim>\<open>serialize_X\<close> method.  A deserializer is driven by the type that is read: each
  \<^verbatim>\<open>deserialize_X\<close> method takes its visitor or seed as a function argument, and the
  trait \<^verbatim>\<open>MapValue\<close> is the locale \<open>map_value\<close>.
\<close>

section \<open>Serializing into a map\<close>

datatype ser_value =
    SerBool bool
  | SerI8 int | SerI16 int | SerI32 int | SerI64 int
  | SerU8 int | SerU16 int | SerU32 int | SerU64 int
  | SerF32 rat | SerF64 rat
  | SerChar string
  | SerStr string
  | SerBytes string
  | SerNone
  | SerSome ser_value
  | SerUnit
  | SerUnitStruct string
  | SerUnitVariant string string
  | SerNewtypeVariant string string ser_value
  | SerNewtypeStruct string ser_value
  | SerSeq "ser_value list"
  | SerTuple "ser_value list"
  | SerTupleStruct string "ser_value list"
  | SerTupleVariant string string "ser_value list"
  | SerMap "(ser_value \<times> ser_value) list"
  | SerStruct string "(string \<times> ser_value) list"
  | SerStructVariant string string "(string \<times> ser_value) list"

text \<open>The message of the methods that only fail; both serializers share it.\<close>

fun ser_err :: "ser_value \<Rightarrow> map_error" where
  "ser_err (SerBool _) = MapError ''invalid type: bool''"
| "ser_err (SerI8 _) = MapError ''invalid type: i8''"
| "ser_err (SerI16 _) = MapError ''invalid type: i16''"
| "ser_err (SerI32 _) = MapError ''invalid type: i32''"
| "ser_err (SerI64 _) = MapError ''invalid type: i64''"
| "ser_err (SerU8 _) = MapError ''invalid type: u8''"
| "ser_err (SerU16 _) = MapError ''invalid type: u16''"
| "ser_err (SerU32 _) = MapError ''invalid type: u32''"
| "ser_err (SerU64 _) = MapError ''invalid type: u64''"
| "ser_err (SerF32 _) = MapError ''invalid type: f32''"
| "ser_err (SerF64 _) = MapError ''invalid type: f64''"
| "ser_err (SerChar _) = MapError ''invalid type: char''"
| "ser_err (SerStr _) = MapError ''invalid type: str''"
| "ser_err (SerBytes _) = MapError ''invalid type: bytes''"
| "ser_err SerNone = MapError ''invalid type: none''"
| "ser_err (SerSome _) = MapError ''invalid type: some''"
| "ser_err SerUnit = MapError ''invalid type: unit''"
| "ser_err (SerUnitStruct _) = MapError ''invalid type: unit_struct''"
| "ser_err (SerUnitVariant _ _) = MapError ''invalid type: unit_variant''"
| "ser_err (SerNewtypeVariant _ _ _) = MapError ''invalid type: newtype_variant''"
| "ser_err (SerNewtypeStruct _ _) = MapError ''invalid type: newtype_struct''"
| "ser_err (SerSeq _) = MapError ''cannot serialize a sequence''"
| "ser_err (SerTuple _) = MapError ''cannot serialize a tuple''"
| "ser_err (SerTupleStruct _ _) = MapError ''cannot serialize a tuple struct''"
| "ser_err (SerTupleVariant _ _ _) = MapError ''cannot serialize a tuple variant''"
| "ser_err (SerMap _) = MapError ''cannot serialize a map''"
| "ser_err (SerStruct _ _) = MapError ''cannot serialize a struct''"
| "ser_err (SerStructVariant _ _ _) = MapError ''cannot serialize a struct variant''"

text \<open>\<^verbatim>\<open>ValueSerializer\<close>: strings are stored under the key, \<^verbatim>\<open>None\<close> stores nothing.\<close>

fun value_serialize ::
  "string \<Rightarrow> ser_value \<Rightarrow> (string, string) btree_map \<Rightarrow> (map_error, (string, string) btree_map) result" where
  "value_serialize key (SerStr v) outp = Inr (bt_insert key v outp)"
| "value_serialize key (SerSome v) outp = value_serialize key v outp"
| "value_serialize key SerNone outp = Inr outp"
| "value_serialize key v outp = Inl (ser_err v)"

text \<open>\<^verbatim>\<open>MapSerializeStruct\<close>: one \<^verbatim>\<open>serialize_field\<close> per field, then \<^verbatim>\<open>end\<close>.\<close>

fun serialize_fields ::
  "(string \<times> ser_value) list \<Rightarrow> (string, string) btree_map
    \<Rightarrow> (map_error, (string, string) btree_map) result" where
  "serialize_fields [] outp = Inr outp"
| "serialize_fields ((key, v) # fs) outp =
    rbind (value_serialize key v outp) (serialize_fields fs)"

fun to_map :: "ser_value \<Rightarrow> (map_error, (string, string) btree_map) result" where
  "to_map (SerStruct _ flds) = serialize_fields flds []"
| "to_map v = Inl (ser_err v)"

section \<open>Deserializing from a map\<close>

text \<open>The trait \<^verbatim>\<open>MapValue\<close>: a value is read as one string or as a sequence, never both.\<close>

locale map_value =
  fixes as_value :: "'z \<Rightarrow> (map_error, string) result"
    and as_seq :: "'z \<Rightarrow> (map_error, string list) result"
  assumes exactly_one: "is_ok (as_value z) \<longleftrightarrow> \<not> is_ok (as_seq z)"
begin

lemma value_not_seq: "as_value z = Inr s \<Longrightarrow> \<exists>e. as_seq z = Inl e"
  using exactly_one[of z] by (cases "as_seq z") auto

lemma seq_not_value: "as_seq z = Inr ss \<Longrightarrow> \<exists>e. as_value z = Inl e"
  using exactly_one[of z] by (cases "as_value z") auto

end

definition string_as_value :: "string \<Rightarrow> (map_error, string) result" where
  "string_as_value s = Inr s"

definition string_as_seq :: "string \<Rightarrow> (map_error, string list) result" where
  "string_as_seq s = Inl (MapError ''a string may not be used in place of a sequence of values'')"

interpretation string_map_value: map_value string_as_value string_as_seq
  by unfold_locales (simp add: string_as_value_def string_as_seq_def)

interpretation path_value: map_value variable_as_value variable_as_seq
proof unfold_locales
  show "is_ok (variable_as_value z) \<longleftrightarrow> \<not> is_ok (variable_as_seq z)" for z
    by (cases z) auto
qed

datatype casing = CaseSensitive | CaseInsensitive

text \<open>\<^verbatim>\<open>Casing::rename\<close>; collecting into a map lets a later field win.\<close>

fun rename :: "casing \<Rightarrow> string list \<Rightarrow> (string, string) btree_map" where
  "rename CaseSensitive flds = []"
| "rename CaseInsensitive flds = fold (\<lambda>field. bt_insert (to_lower field) field) flds []"

datatype 'z map_deserializer = DMap "(string, 'z) btree_map" | DValue 'z

fun deserializer_value ::
  "('z \<Rightarrow> (map_error, 'a) result) \<Rightarrow> 'z map_deserializer \<Rightarrow> (map_error, 'a) result" where
  "deserializer_value deserialize (DValue raw_value) = deserialize raw_value"
| "deserializer_value deserialize (DMap _) =
    Inl (MapError ''must be applied to a flattened struct rather than a raw type'')"

text \<open>The macro \<^verbatim>\<open>de_value\<close>; \<open>parse\<close> is \<^verbatim>\<open>FromStr::parse\<close> of the primitive type.\<close>

definition de_value ::
  "('z \<Rightarrow> (map_error, string) result) \<Rightarrow> (string \<Rightarrow> 'p option) \<Rightarrow> string
    \<Rightarrow> ('p \<Rightarrow> (map_error, 'a) result) \<Rightarrow> 'z map_deserializer \<Rightarrow> (map_error, 'a) result" where
  "de_value asv parse type_name visit =
    deserializer_value (\<lambda>raw_value.
      rbind (asv raw_value) (\<lambda>s.
        case parse s of
          Some v \<Rightarrow> visit v
        | None \<Rightarrow> Inl (MapError (''unable to parse '' @ [CHR 0x27] @ s @ [CHR 0x27] @ '' as '' @ type_name))))"

definition parse_bool :: "string \<Rightarrow> bool option" where
  "parse_bool s = (if s = ''true'' then Some True else if s = ''false'' then Some False else None)"

definition digit_value :: "char \<Rightarrow> nat option" where
  "digit_value c =
    (let n = (of_char c :: nat) in if 48 \<le> n \<and> n \<le> 57 then Some (n - 48) else None)"

fun parse_digits :: "int \<Rightarrow> string \<Rightarrow> int option" where
  "parse_digits acc [] = Some acc"
| "parse_digits acc (c # cs) =
    (case digit_value c of None \<Rightarrow> None | Some d \<Rightarrow> parse_digits (10 * acc + int d) cs)"

text \<open>Rust's integer parser: an optional plus sign, a minus sign for signed types, at
  least one digit, and the range of the type.\<close>

definition parse_int :: "bool \<Rightarrow> nat \<Rightarrow> string \<Rightarrow> int option" where
  "parse_int is_signed bits s =
    (let (neg, ds) = (case s of
            c # cs \<Rightarrow> if c = CHR ''+'' then (False, cs)
                      else if c = CHR ''-'' \<and> is_signed then (True, cs) else (False, s)
          | [] \<Rightarrow> (False, s));
         lo = (if is_signed then - (2 ^ (bits - 1)) else 0);
         hi = (if is_signed then 2 ^ (bits - 1) - 1 else 2 ^ bits - 1)
     in if ds = [] then None
        else (case parse_digits 0 ds of
                None \<Rightarrow> None
              | Some n \<Rightarrow> (let v = if neg then - n else n in
                          if lo \<le> v \<and> v \<le> hi then Some v else None)))"

definition deserialize_str ::
  "('z \<Rightarrow> (map_error, string) result) \<Rightarrow> (string \<Rightarrow> (map_error, 'a) result)
    \<Rightarrow> 'z map_deserializer \<Rightarrow> (map_error, 'a) result" where
  "deserialize_str asv visit_str = deserializer_value (\<lambda>raw_value. rbind (asv raw_value) visit_str)"

definition deserialize_option ::
  "('z map_deserializer \<Rightarrow> (map_error, 'a) result) \<Rightarrow> 'z map_deserializer \<Rightarrow> (map_error, 'a) result" where
  "deserialize_option visit_some d = visit_some d"

definition deserialize_seq ::
  "('z \<Rightarrow> (map_error, string list) result) \<Rightarrow> (string list \<Rightarrow> (map_error, 'a) result)
    \<Rightarrow> 'z map_deserializer \<Rightarrow> (map_error, 'a) result" where
  "deserialize_seq ass visit_seq = deserializer_value (\<lambda>raw_value. rbind (ass raw_value) visit_seq)"

definition deserialize_identifier ::
  "('z \<Rightarrow> (map_error, string) result) \<Rightarrow> (string \<Rightarrow> (map_error, 'a) result)
    \<Rightarrow> 'z map_deserializer \<Rightarrow> (map_error, 'a) result" where
  "deserialize_identifier asv visit_str =
    deserializer_value (\<lambda>raw_value. rbind (asv raw_value) visit_str)"

definition deserialize_ignored_any ::
  "('z \<Rightarrow> (map_error, string) result) \<Rightarrow> (string \<Rightarrow> (map_error, 'a) result)
    \<Rightarrow> 'z map_deserializer \<Rightarrow> (map_error, 'a) result" where
  "deserialize_ignored_any asv visit_str =
    deserializer_value (\<lambda>raw_value. rbind (asv raw_value) visit_str)"

text \<open>Called for every member of a flattened structure: nothing is interpreted, the
  visitor is given the string.\<close>

definition deserialize_any ::
  "('z \<Rightarrow> (map_error, string) result) \<Rightarrow> (string \<Rightarrow> (map_error, 'a) result)
    \<Rightarrow> 'z map_deserializer \<Rightarrow> (map_error, 'a) result" where
  "deserialize_any asv visit_str =
    deserializer_value (\<lambda>raw_value. rbind (asv raw_value) visit_str)"

definition deserialize_enum ::
  "('z map_deserializer \<Rightarrow> (map_error, 'a) result) \<Rightarrow> 'z map_deserializer \<Rightarrow> (map_error, 'a) result" where
  "deserialize_enum visit_enum d = visit_enum d"

definition deserialize_newtype_struct ::
  "('z map_deserializer \<Rightarrow> (map_error, 'a) result) \<Rightarrow> 'z map_deserializer \<Rightarrow> (map_error, 'a) result" where
  "deserialize_newtype_struct visit_newtype_struct d = visit_newtype_struct d"

text \<open>The methods that are stubbed out panic with their own name.\<close>

definition de_unimp :: "string \<Rightarrow> 'z map_deserializer \<Rightarrow> (map_error, 'a) result outcome" where
  "de_unimp name d = Inl (Panic (''not implemented: '' @ name))"

definition unit_variant :: "'z map_deserializer \<Rightarrow> (map_error, unit) result" where
  "unit_variant d = Inr ()"

datatype data_variant = NewtypeVariantSeed | TupleVariant | StructVariant

definition variant_unimp :: "data_variant \<Rightarrow> 'z map_deserializer \<Rightarrow> (map_error, 'a) result outcome" where
  "variant_unimp k d =
    Inl (Panic (''not implemented: '' @ (case k of NewtypeVariantSeed \<Rightarrow> ''newtype_variant_seed''
      | TupleVariant \<Rightarrow> ''tuple_variant'' | StructVariant \<Rightarrow> ''struct_variant'')))"

text \<open>\<^verbatim>\<open>MapMapAccess\<close>: the remaining entries, the pending value and the renaming.\<close>

record 'z map_map_access =
  acc_iter :: "(string \<times> 'z) list"
  acc_value :: "'z option"
  acc_rename :: "(string, string) btree_map"

definition map_access_new ::
  "casing \<Rightarrow> (string, 'z) btree_map \<Rightarrow> string list \<Rightarrow> 'z map_map_access" where
  "map_access_new cs m flds =
    \<lparr> acc_iter = m, acc_value = None, acc_rename = rename cs flds \<rparr>"

definition deserialize_struct ::
  "casing \<Rightarrow> string list \<Rightarrow> ('z map_map_access \<Rightarrow> (map_error, 'a) result)
    \<Rightarrow> 'z map_deserializer \<Rightarrow> (map_error, 'a) result" where
  "deserialize_struct cs flds visit_map d =
    (case d of
       DMap m \<Rightarrow> visit_map (map_access_new cs m flds)
     | DValue _ \<Rightarrow> Inl (MapError ''deserialization container must be fully flattened''))"

definition deserialize_map ::
  "casing \<Rightarrow> ('z map_map_access \<Rightarrow> (map_error, 'a) result)
    \<Rightarrow> 'z map_deserializer \<Rightarrow> (map_error, 'a) result" where
  "deserialize_map cs visit_map d =
    (case d of
       DMap m \<Rightarrow> visit_map (map_access_new cs m [])
     | DValue _ \<Rightarrow> Inl (MapError ''deserialization container must be fully flattened''))"

definition next_key_seed ::
  "(string map_deserializer \<Rightarrow> (map_error, 'k) result) \<Rightarrow> 'z map_map_access
    \<Rightarrow> (map_error, 'k option) result \<times> 'z map_map_access" where
  "next_key_seed seed a =
    (case acc_iter a of
       [] \<Rightarrow> (Inr None, a)
     | (key, v) # rest \<Rightarrow>
         (let key' = (case map_of (acc_rename a) key of Some r \<Rightarrow> r | None \<Rightarrow> key) in
          (rbind (seed (DValue key')) (\<lambda>k. Inr (Some k)),
           a\<lparr>acc_iter := rest, acc_value := Some v\<rparr>)))"

text \<open>\<^verbatim>\<open>unreachable!()\<close> without a preceding key is a panic.\<close>

definition next_value_seed ::
  "('z map_deserializer \<Rightarrow> (map_error, 'w) result) \<Rightarrow> 'z map_map_access
    \<Rightarrow> (map_error, 'w) result outcome \<times> 'z map_map_access" where
  "next_value_seed seed a =
    (case acc_value a of
       Some v \<Rightarrow> (Inr (seed (DValue v)), a\<lparr>acc_value := None\<rparr>)
     | None \<Rightarrow> (Inl (Panic ''internal error: entered unreachable code''), a))"

definition next_element_seed ::
  "(string map_deserializer \<Rightarrow> (map_error, 'w) result) \<Rightarrow> string list
    \<Rightarrow> (map_error, 'w option) result \<times> string list" where
  "next_element_seed seed iter =
    (case iter of
       [] \<Rightarrow> (Inr None, [])
     | v # rest \<Rightarrow> (rbind (seed (DValue v)) (\<lambda>w. Inr (Some w)), rest))"

text \<open>Enums: the variant is the string itself and carries no data.\<close>

definition variant_seed ::
  "('z map_deserializer \<Rightarrow> (map_error, 'w) result) \<Rightarrow> 'z map_deserializer
    \<Rightarrow> (map_error, 'w \<times> 'z map_deserializer) result" where
  "variant_seed seed d = rbind (seed d) (\<lambda>v. Inr (v, d))"

text \<open>\<open>T::deserialize\<close> of the target type is the argument.\<close>

definition from_map ::
  "('z map_deserializer \<Rightarrow> (map_error, 'a) result) \<Rightarrow> (string, 'z) btree_map \<Rightarrow> (string, 'a) result" where
  "from_map deserialize m = map_err (\<lambda>e. case e of MapError s \<Rightarrow> s) (deserialize (DMap m))"

section \<open>Reading a whole map\<close>

text \<open>What a visitor does that asks for every key and every value in turn, as serde's
  map and struct visitors do.\<close>

fun visit_entries ::
  "nat \<Rightarrow> (string map_deserializer \<Rightarrow> (map_error, 'k) result)
    \<Rightarrow> ('z map_deserializer \<Rightarrow> (map_error, 'w) result) \<Rightarrow> 'z map_map_access
    \<Rightarrow> (map_error, ('k \<times> 'w) list) result outcome" where
  "visit_entries 0 ks vs a = Inr (Inr [])"
| "visit_entries (Suc n) ks vs a =
    (case next_key_seed ks a of
       (Inl e, _) \<Rightarrow> Inr (Inl e)
     | (Inr None, _) \<Rightarrow> Inr (Inr [])
     | (Inr (Some k), a1) \<Rightarrow>
         (case next_value_seed vs a1 of
            (Inl p, _) \<Rightarrow> Inl p
          | (Inr (Inl e), _) \<Rightarrow> Inr (Inl e)
          | (Inr (Inr v), a2) \<Rightarrow>
              rbind (visit_entries n ks vs a2) (\<lambda>r. Inr (rbind r (\<lambda>kvs. Inr ((k, v) # kvs))))))"

definition renamed_key :: "(string, string) btree_map \<Rightarrow> string \<Rightarrow> string" where
  "renamed_key rn key = (case map_of rn key of Some r \<Rightarrow> r | None \<Rightarrow> key)"

lemma visit_entries_spec:
  "length (acc_iter a) \<le> n \<Longrightarrow>
    visit_entries n ks vs a =
      Inr (mapM_result (\<lambda>(key, v).
        rbind (ks (DValue (renamed_key (acc_rename a) key))) (\<lambda>k.
        rbind (vs (DValue v)) (\<lambda>w. Inr (k, w)))) (acc_iter a))"
proof (induction n arbitrary: a)
  case (Suc n)
  show ?case
  proof (cases "acc_iter a")
    case Nil
    then show ?thesis by (simp add: next_key_seed_def)
  next
    case (Cons kv rest)
    obtain key v where kv: "kv = (key, v)" by (cases kv)
    let ?a1 = "a\<lparr>acc_iter := rest, acc_value := Some v\<rparr>"
    have k: "next_key_seed ks a = (rbind (ks (DValue (renamed_key (acc_rename a) key))) (\<lambda>k. Inr (Some k)), ?a1)"
      using Cons kv by (simp add: next_key_seed_def renamed_key_def)
    have IH: "visit_entries n ks vs (?a1\<lparr>acc_value := None\<rparr>) =
        Inr (mapM_result (\<lambda>(key, v).
          rbind (ks (DValue (renamed_key (acc_rename a) key))) (\<lambda>k.
          rbind (vs (DValue v)) (\<lambda>w. Inr (k, w)))) rest)"
      using Suc.IH[of "?a1\<lparr>acc_value := None\<rparr>"] Suc.prems Cons by simp
    show ?thesis
      using IH Cons kv k
      by (cases "ks (DValue (renamed_key (acc_rename a) key))"; cases "vs (DValue v)")
         (simp_all add: next_value_seed_def)
  qed
qed (simp split: list.splits)


definition string_key_seed :: "string map_deserializer \<Rightarrow> (map_error, string) result" where
  "string_key_seed = deserialize_str string_as_value Inr"

text \<open>\<^verbatim>\<open>BTreeMap<String, String>::deserialize\<close>, which asks for a map of strings.\<close>

definition deserialize_string_map ::
  "string map_deserializer \<Rightarrow> (map_error, (string \<times> string) list) result outcome" where
  "deserialize_string_map d =
    (case d of
       DMap m \<Rightarrow> visit_entries (length m) string_key_seed string_key_seed (map_access_new CaseSensitive m [])
     | DValue _ \<Rightarrow> Inr (Inl (MapError ''deserialization container must be fully flattened'')))"

section \<open>Lemmas\<close>

text \<open>What a field contributes: a string, nothing, or an error.\<close>

fun field_string :: "ser_value \<Rightarrow> (map_error, string option) result" where
  "field_string (SerStr s) = Inr (Some s)"
| "field_string (SerSome v) = field_string v"
| "field_string SerNone = Inr None"
| "field_string v = Inl (ser_err v)"

lemma value_serialize_field:
  "value_serialize key v outp =
    rbind (field_string v) (\<lambda>r. Inr (case r of None \<Rightarrow> outp | Some s \<Rightarrow> bt_insert key s outp))"
  by (induction key v outp rule: value_serialize.induct) auto

definition field_strings :: "(string \<times> ser_value) list \<Rightarrow> (string \<times> string) list" where
  "field_strings fs =
    concat (map (\<lambda>(k, v). case field_string v of Inr (Some s) \<Rightarrow> [(k, s)] | _ \<Rightarrow> []) fs)"

lemma serialize_fields_Inr_iff:
  "serialize_fields fs outp = Inr m \<longleftrightarrow>
    list_all (\<lambda>(k, v). is_ok (field_string v)) fs
    \<and> m = fold (\<lambda>(k, s). bt_insert k s) (field_strings fs) outp"
proof (induction fs outp rule: serialize_fields.induct)
  case (1 outp)
  then show ?case by (auto simp: field_strings_def)
next
  case (2 key v fs outp)
  show ?case
  proof (cases "field_string v")
    case (Inl e)
    then show ?thesis by (simp add: value_serialize_field)
  next
    case (Inr r)
    let ?o = "case r of None \<Rightarrow> outp | Some s \<Rightarrow> bt_insert key s outp"
    have "value_serialize key v outp = Inr ?o" using Inr by (simp add: value_serialize_field)
    then show ?thesis
      using 2[of ?o] Inr by (cases r) (simp_all add: field_strings_def)
  qed
qed

lemma rename_lookup:
  assumes "distinct (map to_lower flds)" "f \<in> set flds"
  shows "map_of (rename CaseInsensitive flds) (to_lower f) = Some f"
proof -
  have "map_of (rename CaseInsensitive flds) = map_of (rev (map (\<lambda>f. (to_lower f, f)) flds))"
  proof
    fix k
    have "rename CaseInsensitive flds = btm.put_all (map (\<lambda>f. (to_lower f, f)) flds) []"
      by (simp add: btm.put_all_def fold_map comp_def)
    then show "map_of (rename CaseInsensitive flds) k = map_of (rev (map (\<lambda>f. (to_lower f, f)) flds)) k"
      using btm.get_put_all[of "[]" "map (\<lambda>f. (to_lower f, f)) flds" k] by simp
  qed
  moreover have "distinct (map fst (rev (map (\<lambda>f. (to_lower f, f)) flds)))"
    using assms(1) by (simp add: rev_map[symmetric] comp_def)
  ultimately show ?thesis
    using assms(2) by (simp add: map_of_eq_Some_iff)
qed

lemma mapM_result_Inr_map: "mapM_result (\<lambda>x. Inr (f x)) xs = Inr (map f xs)"
  by (induction xs) auto

section \<open>Properties\<close>

text \<open>\<open>to_map\<close> accepts exactly the structures all of whose fields are strings or optional
  strings; the result is the ordered map of the fields that are present.\<close>

theorem to_map_spec:
  "to_map v = Inr m \<longleftrightarrow>
    (\<exists>name fs. v = SerStruct name fs \<and> list_all (\<lambda>(k, w). is_ok (field_string w)) fs
      \<and> m = fold (\<lambda>(k, s). bt_insert k s) (field_strings fs) [])"
  by (cases v) (auto simp: serialize_fields_Inr_iff)



text \<open>Header names are matched to structure fields without regard to case: with fields
  that differ in more than case, a header whose lower-case name is that of a field is
  offered to the visitor under the field's own name.\<close>

lemma header_field_renamed:
  assumes "distinct (map to_lower flds)" "f \<in> set flds"
  shows "renamed_key (acc_rename (map_access_new CaseInsensitive m flds)) (to_lower f) = f"
  using rename_lookup[OF assms] by (simp add: renamed_key_def map_access_new_def del: rename.simps)

theorem header_field_renamed_witness:
  "renamed_key (acc_rename (map_access_new CaseInsensitive [(''x-id'', ''7'')] [''X-Id'', ''host'']))
    (to_lower ''X-Id'') = ''X-Id''"
proof (rule header_field_renamed)
  show "distinct (map to_lower [''X-Id'', ''host''])" by code_simp
qed simp

end
