(* ===== verification/Extractors.thy ===== *)
theory Extractors
  imports Map_Serde
begin

text \<open>
  The extractors (\<^verbatim>\<open>extractor/*.rs\<close>, \<^verbatim>\<open>http_util.rs\<close>): how the parts of a request become
  the arguments of a handler.  A request body is the sequence of frames that hyper
  yields: data, trailers, or a transport error.  The deserializers of the target types
  and the string view of header values are function arguments.
\<close>

section \<open>The request body as a stream\<close>

datatype frame = FrData string | FrTrailers | FrError string

type_synonym body_frames = "frame list"

text \<open>\<^verbatim>\<open>http_dump_body\<close>: reads to the end and counts, stopping at the first error.\<close>

fun http_dump_body :: "body_frames \<Rightarrow> nat \<Rightarrow> (string, nat) result" where
  "http_dump_body [] nbytesread = Inr nbytesread"
| "http_dump_body (FrError e # fs) nbytesread = Inl e"
| "http_dump_body (FrData buf # fs) nbytesread = http_dump_body fs (nbytesread + length buf)"
| "http_dump_body (FrTrailers # fs) nbytesread = http_dump_body fs nbytesread"

record streaming_body =
  sb_body :: body_frames
  sb_cap :: nat

definition streaming_body_new :: "body_frames \<Rightarrow> nat \<Rightarrow> streaming_body" where
  "streaming_body_new b c = \<lparr> sb_body = b, sb_cap = c \<rparr>"

definition stream_error :: "string \<Rightarrow> http_error" where
  "stream_error e = for_bad_request None (''error streaming request body: '' @ e)"

text \<open>The loop of \<^verbatim>\<open>into_stream\<close>: the items that the stream yields; an error is its last
  item.  \<open>disp\<close> prints the cap.\<close>

fun stream_loop ::
  "(nat \<Rightarrow> string) \<Rightarrow> nat \<Rightarrow> nat \<Rightarrow> body_frames \<Rightarrow> (http_error, string) result list" where
  "stream_loop disp cap bytes_read [] = []"
| "stream_loop disp cap bytes_read (FrError e # fs) = [Inl (stream_error e)]"
| "stream_loop disp cap bytes_read (FrTrailers # fs) = stream_loop disp cap bytes_read fs"
| "stream_loop disp cap bytes_read (FrData buf # fs) =
    (if bytes_read + length buf > cap then
       [case http_dump_body fs 0 of
          Inl e \<Rightarrow> Inl (stream_error e)
        | Inr _ \<Rightarrow> Inl (for_bad_request None
            (''request body exceeded maximum size of '' @ disp cap @ '' bytes''))]
     else Inr buf # stream_loop disp cap (bytes_read + length buf) fs)"

definition into_stream :: "(nat \<Rightarrow> string) \<Rightarrow> streaming_body \<Rightarrow> (http_error, string) result list" where
  "into_stream disp sb = stream_loop disp (sb_cap sb) 0 (sb_body sb)"

text \<open>\<^verbatim>\<open>try_fold\<close> into one buffer.\<close>

fun try_fold_bytes :: "string \<Rightarrow> (http_error, string) result list \<Rightarrow> (http_error, string) result" where
  "try_fold_bytes out [] = Inr out"
| "try_fold_bytes out (Inl e # items) = Inl e"
| "try_fold_bytes out (Inr chunk # items) = try_fold_bytes (out @ chunk) items"

definition into_bytes_mut :: "(nat \<Rightarrow> string) \<Rightarrow> streaming_body \<Rightarrow> (http_error, string) result" where
  "into_bytes_mut disp sb = try_fold_bytes [] (into_stream disp sb)"

section \<open>Body extractors\<close>

record http_request =
  rq_method :: string
  rq_query :: "string option"
  rq_headers :: header_map
  rq_body :: body_frames

definition trim_end :: "string \<Rightarrow> string" where
  "trim_end s = rev (dropWhile is_ascii_ws (rev s))"

text \<open>The content type of a request: JSON when the header is absent, otherwise the media
  type in lower case without its parameters.  \<open>to_str\<close> carries the printed error.\<close>

definition request_content_type ::
  "(string \<Rightarrow> (string, string) result) \<Rightarrow> header_map
    \<Rightarrow> (http_error, api_endpoint_body_content_type) result" where
  "request_content_type to_str hs =
    rbind (case hm_get hs ''content-type'' of
             None \<Rightarrow> Inr CONTENT_TYPE_JSON
           | Some hv \<Rightarrow> map_err (\<lambda>e. for_bad_request None (''invalid content type: '' @ e)) (to_str hv))
      (\<lambda>content_type.
        map_err (\<lambda>e. for_bad_request None (''unsupported content-type: '' @ e))
          (from_mime_type (to_lower (trim_end (takeWhile (\<lambda>c. c \<noteq> CHR '';'') content_type)))))"

definition http_request_load_body ::
  "(nat \<Rightarrow> string) \<Rightarrow> (string \<Rightarrow> (string, string) result)
    \<Rightarrow> (string \<Rightarrow> (string, 't) result) \<Rightarrow> (string \<Rightarrow> (string, 't) result)
    \<Rightarrow> http_request \<Rightarrow> nat \<Rightarrow> api_endpoint_body_content_type \<Rightarrow> (http_error, 't) result" where
  "http_request_load_body disp to_str json_de url_de rq max_bytes expected =
    rbind (into_bytes_mut disp (streaming_body_new (rq_body rq) max_bytes)) (\<lambda>body.
    rbind (request_content_type to_str (rq_headers rq)) (\<lambda>got.
    (case (expected, got) of
       (Json, Json) \<Rightarrow>
         map_err (\<lambda>e. for_bad_request None (''unable to parse JSON body: '' @ e)) (json_de body)
     | (UrlEncoded, UrlEncoded) \<Rightarrow>
         map_err (\<lambda>e. for_bad_request None (''unable to parse URL-encoded body: '' @ e)) (url_de body)
     | (e, g) \<Rightarrow>
         Inl (for_bad_request None (''expected content type '' @ [CHR 0x22] @ mime_type e @ [CHR 0x22]
                @ '', got '' @ [CHR 0x22] @ mime_type g @ [CHR 0x22])))))"

definition untyped_body_from_request ::
  "(nat \<Rightarrow> string) \<Rightarrow> http_request \<Rightarrow> nat \<Rightarrow> (http_error, string) result" where
  "untyped_body_from_request disp rq max_bytes =
    into_bytes_mut disp (streaming_body_new (rq_body rq) max_bytes)"

definition streaming_body_from_request :: "http_request \<Rightarrow> nat \<Rightarrow> (http_error, streaming_body) result" where
  "streaming_body_from_request rq max_bytes = Inr \<lparr> sb_body = rq_body rq, sb_cap = max_bytes \<rparr>"

text \<open>\<^verbatim>\<open>str::split(pat)\<close> at its first occurrence.\<close>

fun find_str :: "string \<Rightarrow> string \<Rightarrow> (string \<times> string) option" where
  "find_str pat [] = (if pat = [] then Some ([], []) else None)"
| "find_str pat (c # cs) =
    (if starts_with pat (c # cs) then Some ([], drop (length pat) (c # cs))
     else map_option (\<lambda>(a, b). (c # a, b)) (find_str pat cs))"

definition nth1_split :: "string \<Rightarrow> string \<Rightarrow> string option" where
  "nth1_split pat s =
    (case find_str pat s of
       None \<Rightarrow> None
     | Some (_, rest) \<Rightarrow> (case find_str pat rest of None \<Rightarrow> Some rest | Some (b, _) \<Rightarrow> Some b))"

text \<open>The multipart extractor; the result is the boundary that the parser is given.\<close>

definition multipart_from_request ::
  "(string \<Rightarrow> (string, string) result) \<Rightarrow> http_request \<Rightarrow> (http_error, string \<times> body_frames) result" where
  "multipart_from_request to_str rq =
    rbind (ok_or (for_bad_request None ''missing content-type header'')
             (hm_get (rq_headers rq) ''content-type'')) (\<lambda>hv.
    rbind (map_err (\<lambda>e. for_bad_request None (''invalid content type: '' @ e)) (to_str hv)) (\<lambda>content_type.
    rbind (ok_or (for_bad_request None ''missing boundary in content-type header'')
             (nth1_split ''boundary='' content_type)) (\<lambda>boundary.
    Inr (boundary, rq_body rq))))"

definition untyped_as_str :: "(string \<Rightarrow> (string, string) result) \<Rightarrow> string \<Rightarrow> (http_error, string) result" where
  "untyped_as_str from_utf8 content =
    map_err (\<lambda>e. for_bad_request None (''failed to parse body as UTF-8 string: '' @ e)) (from_utf8 content)"

section \<open>Shared extractors\<close>

definition http_request_load_query ::
  "(string \<Rightarrow> (string, 't) result) \<Rightarrow> http_request \<Rightarrow> (http_error, 't) result" where
  "http_request_load_query urlencoded_de rq =
    map_err (\<lambda>e. for_bad_request None (''unable to parse query string: '' @ e))
      (urlencoded_de (case rq_query rq of Some q \<Rightarrow> q | None \<Rightarrow> []))"

text \<open>\<open>pairs\<close> is the iteration over the request's headers; a repeated name keeps its last
  value, as collecting into a map does.\<close>

definition http_request_load_header ::
  "(string \<Rightarrow> (string, string) result) \<Rightarrow> (string map_deserializer \<Rightarrow> (map_error, 't) result)
    \<Rightarrow> (string \<times> string) list \<Rightarrow> (http_error, 't) result" where
  "http_request_load_header to_str de pairs =
    rbind (map_err (\<lambda>m. for_bad_request None m)
             (mapM_result (\<lambda>(k, v). rbind (to_str v) (\<lambda>s. Inr (k, s))) pairs)) (\<lambda>kvs.
    map_err (\<lambda>m. for_bad_request None (''error processing headers: '' @ m))
      (from_map de (fold (\<lambda>(k, v). bt_insert k v) kvs [])))"

text \<open>\<^verbatim>\<open>http_extract_path_params\<close>, with the assertion on the message.\<close>

definition http_extract_path_params ::
  "(variable_value map_deserializer \<Rightarrow> (map_error, 't) result) \<Rightarrow> variable_set
    \<Rightarrow> (http_error, 't) result outcome" where
  "http_extract_path_params de params =
    (case from_map de params of
       Inr t \<Rightarrow> Inr (Inr t)
     | Inl message \<Rightarrow>
         if starts_with ''missing field: '' message
         then Inl (Panic ''assertion failed: !message.starts_with(missing field: )'')
         else Inr (Inl (for_bad_request None (''bad parameter in URL path: '' @ message))))"

section \<open>Tuples of extractors\<close>

definition extractor_metadata_none :: "'g extractor_metadata" where
  "extractor_metadata_none = \<lparr> em_extension_mode = ModeNone, em_parameters = [] \<rparr>"

definition binary_schema :: schema where
  "binary_schema =
    SObject (SchemaObject None (Some (Single TString)) (Some ''binary'') None None None None None None
      None None [])"

definition untyped_metadata :: "'g extractor_metadata" where
  "untyped_metadata =
    \<lparr> em_extension_mode = ModeNone,
      em_parameters = [new_body Bytes True (Static binary_schema []) []] \<rparr>"

definition multipart_metadata :: "'g extractor_metadata" where
  "multipart_metadata =
    \<lparr> em_extension_mode = ModeNone,
      em_parameters = [new_body MultipartFormData True (Static binary_schema []) []] \<rparr>"

definition typed_body_metadata ::
  "'g \<Rightarrow> api_endpoint_body_content_type \<Rightarrow> 'g extractor_metadata" where
  "typed_body_metadata generator content_type =
    \<lparr> em_extension_mode = ModeNone,
      em_parameters = [new_body content_type True (Gen generator) []] \<rparr>"

definition merge_extension_mode :: "extension_mode \<Rightarrow> extension_mode \<Rightarrow> extension_mode outcome" where
  "merge_extension_mode x y =
    (if x = ModeNone then Inr y
     else if y = ModeNone then Inr x
     else if x \<noteq> y then Inl (Panic ''incompatible extension modes in tuple'')
     else Inr y)"

fun merge_metadata ::
  "extension_mode \<Rightarrow> 'g api_endpoint_parameter list \<Rightarrow> 'g extractor_metadata list
    \<Rightarrow> 'g extractor_metadata outcome" where
  "merge_metadata mode params [] = Inr \<lparr> em_extension_mode = mode, em_parameters = params \<rparr>"
| "merge_metadata mode params (m # ms) =
    rbind (merge_extension_mode mode (em_extension_mode m)) (\<lambda>mode'.
    merge_metadata mode' (params @ em_parameters m) ms)"

text \<open>The metadata of a tuple: of its shared extractors, then of the exclusive one.\<close>

definition tuple_metadata ::
  "(api_endpoint_body_content_type \<Rightarrow> 'g extractor_metadata) list
    \<Rightarrow> api_endpoint_body_content_type \<Rightarrow> 'g extractor_metadata outcome" where
  "tuple_metadata members bct = merge_metadata ModeNone [] (map (\<lambda>m. m bct) members)"

text \<open>\<^verbatim>\<open>try_join!\<close>: all members run, and the first error to arrive is the result, so which
  of several errors is returned depends on the scheduling.\<close>

definition try_join_returns ::
  "(http_error, 'a) result list \<Rightarrow> (http_error, 'a list) result \<Rightarrow> bool" where
  "try_join_returns rs r =
    (case r of Inr vs \<Rightarrow> rs = map Inr vs | Inl e \<Rightarrow> Inl e \<in> set rs)"

section \<open>Lemmas\<close>

fun frames_ok :: "body_frames \<Rightarrow> bool" where
  "frames_ok [] = True"
| "frames_ok (FrError _ # _) = False"
| "frames_ok (_ # fs) = frames_ok fs"

fun frames_bytes :: "body_frames \<Rightarrow> string" where
  "frames_bytes [] = []"
| "frames_bytes (FrData b # fs) = b @ frames_bytes fs"
| "frames_bytes (_ # fs) = frames_bytes fs"

lemma http_dump_body_Inr_iff:
  "http_dump_body fs n = Inr k \<longleftrightarrow> frames_ok fs \<and> k = n + length (frames_bytes fs)"
  by (induction fs n rule: http_dump_body.induct) auto

lemma try_fold_stream:
  "try_fold_bytes out (stream_loop disp cap n fs) = Inr bs \<longleftrightarrow>
    frames_ok fs \<and> (n + length (frames_bytes fs) \<le> cap \<or> frames_bytes fs = [] \<and> (\<forall>b. FrData b \<notin> set fs))
      \<and> bs = out @ frames_bytes fs"
proof (induction disp cap n fs arbitrary: out rule: stream_loop.induct)
  case (4 disp cap n buf fs)
  then show ?case by (auto split: sum.splits)
qed auto

definition yielded :: "(http_error, string) result list \<Rightarrow> nat" where
  "yielded items = sum_list (map (\<lambda>i. case i of Inr b \<Rightarrow> length b | Inl _ \<Rightarrow> 0) items)"

lemma stream_loop_bound: "n \<le> cap \<Longrightarrow> n + yielded (stream_loop disp cap n fs) \<le> cap"
  by (induction disp cap n fs rule: stream_loop.induct)
     (auto simp: yielded_def split: sum.splits)

lemma stream_loop_errors_400:
  "Inl e \<in> set (stream_loop disp cap n fs) \<Longrightarrow> as_status (status_code e) = 400"
  by (induction disp cap n fs rule: stream_loop.induct)
     (auto simp: stream_error_def split: sum.splits if_splits)

lemma try_fold_bytes_Inl: "try_fold_bytes out items = Inl e \<Longrightarrow> Inl e \<in> set items"
  by (induction out items rule: try_fold_bytes.induct) auto

lemma request_content_type_400:
  "request_content_type to_str hs = Inl e \<Longrightarrow> as_status (status_code e) = 400"
  by (auto simp: request_content_type_def rbind_simps split: option.splits)

section \<open>Properties\<close>

text \<open>C14. The request body limit: at no point does the stream yield more than the cap, a body
  is buffered successfully exactly when the transport reports no error and the whole body
  fits, and then it is the concatenation of the data frames; every failure is a 400.\<close>

theorem body_cap_enforced:
  "yielded (into_stream disp \<lparr> sb_body = fs, sb_cap = cap \<rparr>) \<le> cap
    \<and> (into_bytes_mut disp \<lparr> sb_body = fs, sb_cap = cap \<rparr> = Inr bs \<longleftrightarrow>
        frames_ok fs \<and> length (frames_bytes fs) \<le> cap \<and> bs = frames_bytes fs)
    \<and> (\<forall>e. into_bytes_mut disp \<lparr> sb_body = fs, sb_cap = cap \<rparr> = Inl e \<longrightarrow>
        as_status (status_code e) = 400)"
  using stream_loop_bound[of 0 cap disp fs] try_fold_stream[of "[]" disp cap 0 fs bs]
    stream_loop_errors_400[of _ disp cap 0 fs] try_fold_bytes_Inl[of "[]" "stream_loop disp cap 0 fs"]
  by (auto simp: into_stream_def into_bytes_mut_def)

theorem body_cap_enforced_witness:
  "yielded (into_stream (\<lambda>_. ''4'') \<lparr> sb_body = [FrData ''abc'', FrData ''de''], sb_cap = 4 \<rparr>) \<le> 4
    \<and> into_bytes_mut (\<lambda>_. ''8'') \<lparr> sb_body = [FrData ''abc'', FrTrailers, FrData ''de''], sb_cap = 8 \<rparr>
      = Inr ''abcde''
    \<and> as_status (status_code (for_bad_request None ''request body exceeded maximum size of 4 bytes'')) = 400"
proof (intro conjI)
  show "yielded (into_stream (\<lambda>_. ''4'') \<lparr> sb_body = [FrData ''abc'', FrData ''de''], sb_cap = 4 \<rparr>) \<le> 4"
    using body_cap_enforced by blast
  show "into_bytes_mut (\<lambda>_. ''8'') \<lparr> sb_body = [FrData ''abc'', FrTrailers, FrData ''de''], sb_cap = 8 \<rparr>
      = Inr ''abcde''"
    by (subst body_cap_enforced[THEN conjunct2, THEN conjunct1]) simp
  have "into_bytes_mut (\<lambda>_. ''4'') \<lparr> sb_body = [FrData ''abc'', FrData ''de''], sb_cap = 4 \<rparr>
      = Inl (for_bad_request None ''request body exceeded maximum size of 4 bytes'')"
    by (simp add: into_bytes_mut_def into_stream_def)
  then show "as_status (status_code (for_bad_request None
      ''request body exceeded maximum size of 4 bytes'')) = 400"
    by (rule body_cap_enforced[THEN conjunct2, THEN conjunct2, rule_format])
qed

text \<open>When a typed body is accepted.\<close>

lemma load_body_cases:
  "(http_request_load_body disp to_str json_de url_de rq max_bytes expected = Inr t \<longleftrightarrow>
      frames_ok (rq_body rq) \<and> length (frames_bytes (rq_body rq)) \<le> max_bytes
      \<and> request_content_type to_str (rq_headers rq) = Inr expected
      \<and> (expected = Json \<and> json_de (frames_bytes (rq_body rq)) = Inr t
         \<or> expected = UrlEncoded \<and> url_de (frames_bytes (rq_body rq)) = Inr t))
    \<and> (\<forall>e. http_request_load_body disp to_str json_de url_de rq max_bytes expected = Inl e \<longrightarrow>
        as_status (status_code e) = 400)"
proof -
  have body: "into_bytes_mut disp (streaming_body_new (rq_body rq) max_bytes) = Inr bs \<longleftrightarrow>
      frames_ok (rq_body rq) \<and> length (frames_bytes (rq_body rq)) \<le> max_bytes
      \<and> bs = frames_bytes (rq_body rq)" for bs
    using try_fold_stream[of "[]" disp max_bytes 0 "rq_body rq" bs]
    by (auto simp: streaming_body_new_def into_bytes_mut_def into_stream_def)
  have err: "into_bytes_mut disp (streaming_body_new (rq_body rq) max_bytes) = Inl e \<Longrightarrow>
      as_status (status_code e) = 400" for e
    using stream_loop_errors_400 try_fold_bytes_Inl
    unfolding streaming_body_new_def into_bytes_mut_def into_stream_def by fastforce
  show ?thesis
  proof (cases "into_bytes_mut disp (streaming_body_new (rq_body rq) max_bytes)")
    case (Inl e)
    then show ?thesis
      using err[OF Inl] body[of "frames_bytes (rq_body rq)"]
      by (auto simp: http_request_load_body_def)
  next
    case bs: (Inr bs)
    show ?thesis
    proof (cases "request_content_type to_str (rq_headers rq)")
      case (Inl e)
      then show ?thesis
        using bs request_content_type_400[OF Inl] by (simp add: http_request_load_body_def)
    next
      case (Inr got)
      then show ?thesis
        using bs body[of bs]
        by (cases expected; cases got) (auto simp: http_request_load_body_def map_err_Inl_iff)
    qed
  qed
qed

text \<open>A typed body is deserialized only when it is within the limit, its transport ended
  without error, and its media type (JSON when absent, parameters and case ignored) is the
  one that the endpoint expects; every refusal is a 400.\<close>

theorem load_body_spec:
  "(http_request_load_body disp to_str json_de url_de rq max_bytes expected = Inr t \<longleftrightarrow>
      frames_ok (rq_body rq) \<and> length (frames_bytes (rq_body rq)) \<le> max_bytes
      \<and> request_content_type to_str (rq_headers rq) = Inr expected
      \<and> (expected = Json \<and> json_de (frames_bytes (rq_body rq)) = Inr t
         \<or> expected = UrlEncoded \<and> url_de (frames_bytes (rq_body rq)) = Inr t))
    \<and> (\<forall>e. http_request_load_body disp to_str json_de url_de rq max_bytes expected = Inl e \<longrightarrow>
        as_status (status_code e) = 400)"
  by (rule load_body_cases)

definition sample_request :: http_request where
  "sample_request = \<lparr> rq_method = ''PUT'', rq_query = None,
     rq_headers = hm_insert ''content-type'' ''Application/JSON; charset=utf-8'' hm_empty,
     rq_body = [FrData ''{'', FrData ''}''] \<rparr>"

theorem load_body_spec_witness:
  "http_request_load_body (\<lambda>_. ''9'') Inr Inr Inl sample_request 9 Json = Inr ''{}''
    \<and> http_request_load_body (\<lambda>_. ''9'') Inr Inr Inl sample_request 9 UrlEncoded \<noteq> Inr ''{}''"
proof -
  have "from_mime_type (to_lower (trim_end (takeWhile (\<lambda>c. c \<noteq> CHR '';'')
      ''Application/JSON; charset=utf-8''))) = Inr Json"
    by code_simp
  then have "request_content_type Inr (rq_headers sample_request) = Inr Json"
    by (simp add: request_content_type_def sample_request_def hm_get_def hm_insert_def)
  moreover have "frames_ok (rq_body sample_request)" "frames_bytes (rq_body sample_request) = ''{}''"
    by (simp_all add: sample_request_def)
  ultimately show ?thesis
    by (simp add: load_body_spec[THEN conjunct1])
qed

end
