(* ===== verification/Config.thy ===== *)
theory Config
  imports Http_Error
begin

text \<open>
  The configuration of a server (\<^verbatim>\<open>config.rs\<close>, and the \<^verbatim>\<open>ServerConfig\<close> that \<^verbatim>\<open>server.rs\<close>
  derives from it).  Reading a configuration is what the
  derived \<^verbatim>\<open>Deserialize\<close> does with the attributes of \<^verbatim>\<open>DeserializedConfigDropshot\<close>: a field
  that is absent takes its default, and the old name of a renamed field is refused.  The
  socket address is a type parameter; its parser is a function argument.
\<close>

section \<open>Server configuration\<close>

datatype compression_config = CompressionNone | Gzip

datatype handler_task_mode = CancelOnDisconnect | Detached

record 'a config_dropshot =
  bind_address :: 'a
  cfg_request_body_max_bytes :: nat
  cfg_handler_task_mode :: handler_task_mode
  cfg_log_headers :: "string list"
  cfg_compression :: compression_config

definition config_default :: "'a \<Rightarrow> 'a config_dropshot" where
  "config_default localhost =
    \<lparr> bind_address = localhost, cfg_request_body_max_bytes = 1024,
      cfg_handler_task_mode = Detached, cfg_log_headers = [],
      cfg_compression = CompressionNone \<rparr>"

text \<open>The type of the old field has no value, so the field is always \<^const>\<open>None\<close>.\<close>

record 'a deserialized_config =
  dc_bind_address :: 'a
  dc_default_request_body_max_bytes :: nat
  dc_request_body_max_bytes :: "unit option"
  dc_default_handler_task_mode :: handler_task_mode
  dc_log_headers :: "string list"
  dc_compression :: compression_config

definition config_of_deserialized :: "'a deserialized_config \<Rightarrow> 'a config_dropshot" where
  "config_of_deserialized v =
    \<lparr> bind_address = dc_bind_address v,
      cfg_request_body_max_bytes = dc_default_request_body_max_bytes v,
      cfg_handler_task_mode = dc_default_handler_task_mode v,
      cfg_log_headers = dc_log_headers v, cfg_compression = dc_compression v \<rparr>"

definition deserialized_of_config :: "'a config_dropshot \<Rightarrow> 'a deserialized_config" where
  "deserialized_of_config v =
    \<lparr> dc_bind_address = bind_address v,
      dc_default_request_body_max_bytes = cfg_request_body_max_bytes v,
      dc_request_body_max_bytes = None,
      dc_default_handler_task_mode = cfg_handler_task_mode v,
      dc_log_headers = cfg_log_headers v, dc_compression = cfg_compression v \<rparr>"

definition deserialized_default :: "'a \<Rightarrow> 'a deserialized_config" where
  "deserialized_default localhost = deserialized_of_config (config_default localhost)"

text \<open>A field as a format presents it to a visitor: the visitor of the old field answers
  \<^verbatim>\<open>visit_some\<close> with its message, and every other visit with what it expected.\<close>

datatype field_value = VisitSome | VisitOther string

definition deserialize_invalid :: "string \<Rightarrow> field_value \<Rightarrow> (string, unit option) result" where
  "deserialize_invalid msg v =
    (case v of
       VisitSome \<Rightarrow> Inl msg
     | VisitOther unexpected \<Rightarrow>
         Inl (''invalid type: '' @ unexpected @ '', expected the field to be absent ('' @ msg @ '')''))"

definition deserialize_invalid_request_body_max_bytes :: "field_value \<Rightarrow> (string, unit option) result" where
  "deserialize_invalid_request_body_max_bytes v =
    deserialize_invalid
      ''request_body_max_bytes has been renamed to default_request_body_max_bytes'' v"

text \<open>\<^verbatim>\<open>#[serde(default)]\<close>: each field as it was given, or its default.\<close>

record 'a given_fields =
  given_bind_address :: "'a option"
  given_default_request_body_max_bytes :: "nat option"
  given_request_body_max_bytes :: "field_value option"
  given_default_handler_task_mode :: "handler_task_mode option"
  given_log_headers :: "string list option"
  given_compression :: "compression_config option"

definition or_default :: "'a option \<Rightarrow> 'a \<Rightarrow> 'a" where
  "or_default x d = (case x of None \<Rightarrow> d | Some a \<Rightarrow> a)"

definition deserialize_config :: "'a \<Rightarrow> 'a given_fields \<Rightarrow> (string, 'a config_dropshot) result" where
  "deserialize_config localhost g =
    (let d = deserialized_default localhost in
     rbind (case given_request_body_max_bytes g of
              None \<Rightarrow> Inr (dc_request_body_max_bytes d)
            | Some v \<Rightarrow> deserialize_invalid_request_body_max_bytes v) (\<lambda>old.
     Inr (config_of_deserialized
       \<lparr> dc_bind_address = or_default (given_bind_address g) (dc_bind_address d),
         dc_default_request_body_max_bytes =
           or_default (given_default_request_body_max_bytes g) (dc_default_request_body_max_bytes d),
         dc_request_body_max_bytes = old,
         dc_default_handler_task_mode =
           or_default (given_default_handler_task_mode g) (dc_default_handler_task_mode d),
         dc_log_headers = or_default (given_log_headers g) (dc_log_headers d),
         dc_compression = or_default (given_compression g) (dc_compression d) \<rparr>)))"

text \<open>What is written for a configuration; the old field is skipped.\<close>

definition serialize_config :: "'a config_dropshot \<Rightarrow> 'a given_fields" where
  "serialize_config c =
    (let d = deserialized_of_config c in
     \<lparr> given_bind_address = Some (dc_bind_address d),
       given_default_request_body_max_bytes = Some (dc_default_request_body_max_bytes d),
       given_request_body_max_bytes = None,
       given_default_handler_task_mode = Some (dc_default_handler_task_mode d),
       given_log_headers = Some (dc_log_headers d),
       given_compression = Some (dc_compression d) \<rparr>)"

section \<open>What the server derives\<close>

record server_config =
  default_request_body_max_bytes :: nat
  page_max_nitems :: nat
  page_default_nitems :: nat
  default_handler_task_mode :: handler_task_mode
  log_headers :: "string list"
  compression :: compression_config

definition server_config_of :: "'a config_dropshot \<Rightarrow> server_config" where
  "server_config_of c =
    \<lparr> default_request_body_max_bytes = cfg_request_body_max_bytes c,
      page_max_nitems = 10000, page_default_nitems = 100,
      default_handler_task_mode = cfg_handler_task_mode c,
      log_headers = cfg_log_headers c, compression = cfg_compression c \<rparr>"

text \<open>The name under which a request header is logged.\<close>

definition log_header_key :: "string \<Rightarrow> string" where
  "log_header_key name = ''hdr_'' @ map (\<lambda>c. if c = CHR ''-'' then CHR ''_'' else c) (to_lower name)"

text \<open>The extra properties of the per-request logger; \<open>to_str\<close> reads a header value as text.\<close>

definition logged_headers ::
  "(string \<Rightarrow> string option) \<Rightarrow> header_map \<Rightarrow> string list \<Rightarrow> (string \<times> string) list" where
  "logged_headers to_str hs names =
    List.map_filter (\<lambda>name.
      map_option (\<lambda>v. (log_header_key name, v)) (Option.bind (hm_get hs name) to_str)) names"

section \<open>Lemmas\<close>

lemma config_conversions [simp]:
  "config_of_deserialized (deserialized_of_config c) = c"
  by (simp add: config_of_deserialized_def deserialized_of_config_def)

lemma config_read_back: "deserialize_config localhost (serialize_config c) = Inr c"
  by (simp add: deserialize_config_def serialize_config_def or_default_def deserialized_default_def
      deserialized_of_config_def config_of_deserialized_def config_default_def)

text \<open>A configuration is read exactly when the old name of the body limit is absent; every
  absent field has its default, and what the server writes it reads back unchanged.\<close>

lemma config_roundtrip:
  "deserialize_config localhost (serialize_config c) = Inr c
    \<and> (is_ok (deserialize_config localhost g) \<longleftrightarrow> given_request_body_max_bytes g = None)"
proof -
  have "\<not> is_ok (deserialize_invalid_request_body_max_bytes v)" for v
    by (cases v) (auto simp: deserialize_invalid_request_body_max_bytes_def deserialize_invalid_def)
  then have "is_ok (deserialize_config localhost g) \<longleftrightarrow> given_request_body_max_bytes g = None"
    by (auto simp: deserialize_config_def Let_def is_ok_iff rbind_Inr_iff split: option.splits)
  then show ?thesis by (simp add: config_read_back)
qed

end
