(* ===== verification/Handler.thy ===== *)
theory Handler
  imports Extractors Config
begin

text \<open>
  Handlers and their responses (\<^verbatim>\<open>handler.rs\<close>): what the request context derives from the
  server's configuration, how a handler's typed response becomes an HTTP response, and how
  errors of extractors, handlers and serializers become a \<^verbatim>\<open>HandlerError\<close>.

  The traits that a consumer's types implement are records of functions: \<open>content\<close> is
  \<^verbatim>\<open>HttpResponseContent::to_response\<close> of a body type, \<open>response_error\<close> is
  \<^verbatim>\<open>HttpResponseError\<close>.  An \<^verbatim>\<open>http::response::Builder\<close> is its status and headers; the
  conversions of an error to text are part of the parameter records.
\<close>

section \<open>The request context\<close>

definition context_body_max_bytes :: "server_config \<Rightarrow> request_endpoint_metadata \<Rightarrow> nat" where
  "context_body_max_bytes c md =
    (case rem_request_body_max_bytes md of
       Some n \<Rightarrow> n
     | None \<Rightarrow> default_request_body_max_bytes c)"

definition page_limit :: "server_config \<Rightarrow> nat option \<Rightarrow> (http_error, nat) result" where
  "page_limit c requested =
    Inr (case map_option (\<lambda>l. min l (page_max_nitems c)) requested of
           Some n \<Rightarrow> n
         | None \<Rightarrow> page_default_nitems c)"

section \<open>Response contents\<close>

record response_builder =
  rb_status :: status_code
  rb_headers :: header_map

type_synonym 'b handler_result = "(http_error, 'b response) result"

text \<open>The printer of the errors of the \<^verbatim>\<open>http\<close> crate.\<close>

type_synonym error_printer = "http_lib_error \<Rightarrow> string"

definition finish_builder ::
  "error_printer \<Rightarrow> status_code \<Rightarrow> 'b \<Rightarrow> (http_lib_error, header_map) result \<Rightarrow> 'b handler_result" where
  "finish_builder shw st b hs =
    map_err (\<lambda>e. error_from_processing (shw e))
      (rbind hs (\<lambda>h. Inr \<lparr> resp_status = st, resp_headers = h, resp_body = b \<rparr>))"

definition freeform_to_response ::
  "http_lib \<Rightarrow> error_printer \<Rightarrow> 'b \<Rightarrow> response_builder \<Rightarrow> 'b handler_result" where
  "freeform_to_response H shw b rb =
    finish_builder shw (rb_status rb) b
      (builder_header H ''content-type'' CONTENT_TYPE_OCTET_STREAM (rb_headers rb))"

definition empty_to_response :: "error_printer \<Rightarrow> 'b \<Rightarrow> response_builder \<Rightarrow> 'b handler_result" where
  "empty_to_response shw empty_body rb =
    finish_builder shw (rb_status rb) empty_body (Inr (rb_headers rb))"

text \<open>\<open>to_json\<close> is \<^verbatim>\<open>serde_json::to_string\<close> with its error printed.\<close>

definition typed_to_response ::
  "http_lib \<Rightarrow> error_printer \<Rightarrow> ('t \<Rightarrow> (string, 'b) result) \<Rightarrow> 't \<Rightarrow> response_builder
    \<Rightarrow> 'b handler_result" where
  "typed_to_response H shw to_json t rb =
    rbind (map_err for_internal_error (to_json t)) (\<lambda>serialized.
    finish_builder shw (rb_status rb) serialized
      (builder_header H ''content-type'' CONTENT_TYPE_JSON (rb_headers rb)))"

text \<open>An \<^verbatim>\<open>HttpError\<close> refuses to be serialized, so that it reaches the server as it is.\<close>

definition http_error_to_response :: "http_error \<Rightarrow> response_builder \<Rightarrow> 'b handler_result" where
  "http_error_to_response e rb = Inl e"

section \<open>Errors of handlers\<close>

datatype 'b handler_error =
    HandlerErr (he_message: string) (he_rsp: "'b response")
  | DropshotErr (he_error: http_error)

fun he_status_code :: "'b handler_error \<Rightarrow> status_code" where
  "he_status_code (HandlerErr _ rsp) = resp_status rsp"
| "he_status_code (DropshotErr e) = as_status (status_code e)"

fun he_internal_message :: "'b handler_error \<Rightarrow> string" where
  "he_internal_message (HandlerErr m _) = m"
| "he_internal_message (DropshotErr e) = internal_message e"

fun he_external_message :: "'b handler_error \<Rightarrow> string option" where
  "he_external_message (HandlerErr _ _) = None"
| "he_external_message (DropshotErr e) = Some (external_message e)"

fun handler_error_into_response ::
  "http_lib \<Rightarrow> (http_error_response_body \<Rightarrow> 'b) \<Rightarrow> string \<Rightarrow> 'b handler_error \<Rightarrow> 'b response outcome" where
  "handler_error_into_response H to_json request_id (HandlerErr _ rsp) =
    (if header_value_ok H request_id
     then Inr (rsp\<lparr> resp_headers := hm_insert HEADER_REQUEST_ID request_id (resp_headers rsp) \<rparr>)
     else Inl (Panic (''internal error: entered unreachable code: request ID '' @ request_id
            @ '' is not a valid HeaderValue'')))"
| "handler_error_into_response H to_json request_id (DropshotErr e) =
    error_into_response H to_json request_id e"

text \<open>The trait \<^verbatim>\<open>HttpResponseError\<close> of an error type.\<close>

record ('e, 'b) response_error =
  re_display :: "'e \<Rightarrow> string"
  re_status :: "'e \<Rightarrow> error_status_code"
  re_to_response :: "'e \<Rightarrow> response_builder \<Rightarrow> 'b handler_result"
  re_from_http_error :: "http_error \<Rightarrow> 'e"

definition handler_error_from :: "('e, 'b) response_error \<Rightarrow> 'e \<Rightarrow> 'b handler_error" where
  "handler_error_from E e =
    (case re_to_response E e \<lparr> rb_status = as_status (re_status E e), rb_headers = hm_empty \<rparr> of
       Inr rsp \<Rightarrow> HandlerErr (re_display E e) rsp
     | Inl err \<Rightarrow> DropshotErr err)"

text \<open>\<^verbatim>\<open>HttpError\<close> itself implements the trait.\<close>

definition http_response_error :: "(error_status_code \<Rightarrow> string) \<Rightarrow> (http_error, 'b) response_error" where
  "http_response_error disp =
    \<lparr> re_display = http_error_display disp, re_status = status_code,
      re_to_response = http_error_to_response, re_from_http_error = id \<rparr>"

section \<open>Typed responses\<close>

datatype coded_response =
    Created | Accepted | Ok | Deleted | UpdatedNoContent | Found | SeeOther | TemporaryRedirect

fun coded_status :: "coded_response \<Rightarrow> status_code" where
  "coded_status Created = 201"
| "coded_status Accepted = 202"
| "coded_status Ok = 200"
| "coded_status Deleted = 204"
| "coded_status UpdatedNoContent = 204"
| "coded_status Found = 302"
| "coded_status SeeOther = 303"
| "coded_status TemporaryRedirect = 307"

fun coded_description :: "coded_response \<Rightarrow> string" where
  "coded_description Created = ''successful creation''"
| "coded_description Accepted = ''successfully enqueued operation''"
| "coded_description Ok = ''successful operation''"
| "coded_description Deleted = ''successful deletion''"
| "coded_description UpdatedNoContent = ''resource updated''"
| "coded_description Found = ''redirect (found)''"
| "coded_description SeeOther = ''redirect (see other)''"
| "coded_description TemporaryRedirect = ''redirect (temporary redirect)''"

definition for_object ::
  "('t \<Rightarrow> response_builder \<Rightarrow> 'b handler_result) \<Rightarrow> coded_response \<Rightarrow> 't \<Rightarrow> 'b handler_result" where
  "for_object content c t = content t \<lparr> rb_status = coded_status c, rb_headers = hm_empty \<rparr>"

text \<open>What a coded response says of itself; \<open>content_metadata\<close> is that of its body type.\<close>

definition coded_response_metadata ::
  "coded_response \<Rightarrow> 'g api_schema_generator option \<Rightarrow> 'g api_endpoint_response" where
  "coded_response_metadata c content_metadata =
    api_endpoint_response_default
      \<lparr> response_schema := content_metadata, response_success := Some (coded_status c),
        response_description := Some (coded_description c) \<rparr>"

text \<open>The content metadata of the body types that the crate provides.\<close>

definition freeform_content_metadata :: "'g api_schema_generator option" where
  "freeform_content_metadata = None"

definition empty_content_metadata :: "'g api_schema_generator option" where
  "empty_content_metadata = Some (Static (SBool False) [])"

definition typed_content_metadata :: "'g \<Rightarrow> 'g api_schema_generator option" where
  "typed_content_metadata generator = Some (Gen generator)"

text \<open>The typed responses; \<open>content\<close> is the content of the body type.\<close>

datatype 't http_response_created = HttpResponseCreated 't
datatype 't http_response_accepted = HttpResponseAccepted 't
datatype 't http_response_ok = HttpResponseOk 't

fun created_into :: "('t \<Rightarrow> response_builder \<Rightarrow> 'b handler_result) \<Rightarrow> 't http_response_created \<Rightarrow> 'b handler_result" where
  "created_into content (HttpResponseCreated t) = for_object content Created t"

fun created_map :: "('t \<Rightarrow> 'u) \<Rightarrow> 't http_response_created \<Rightarrow> 'u http_response_created" where
  "created_map f (HttpResponseCreated t) = HttpResponseCreated (f t)"

fun created_try_map :: "('t \<Rightarrow> ('e, 'u) result) \<Rightarrow> 't http_response_created \<Rightarrow> ('e, 'u http_response_created) result" where
  "created_try_map f (HttpResponseCreated t) = rbind (f t) (\<lambda>u. Inr (HttpResponseCreated u))"

fun accepted_into :: "('t \<Rightarrow> response_builder \<Rightarrow> 'b handler_result) \<Rightarrow> 't http_response_accepted \<Rightarrow> 'b handler_result" where
  "accepted_into content (HttpResponseAccepted t) = for_object content Accepted t"

fun accepted_map :: "('t \<Rightarrow> 'u) \<Rightarrow> 't http_response_accepted \<Rightarrow> 'u http_response_accepted" where
  "accepted_map f (HttpResponseAccepted t) = HttpResponseAccepted (f t)"

fun accepted_try_map :: "('t \<Rightarrow> ('e, 'u) result) \<Rightarrow> 't http_response_accepted \<Rightarrow> ('e, 'u http_response_accepted) result" where
  "accepted_try_map f (HttpResponseAccepted t) = rbind (f t) (\<lambda>u. Inr (HttpResponseAccepted u))"

fun ok_into :: "('t \<Rightarrow> response_builder \<Rightarrow> 'b handler_result) \<Rightarrow> 't http_response_ok \<Rightarrow> 'b handler_result" where
  "ok_into content (HttpResponseOk t) = for_object content Ok t"

fun ok_map :: "('t \<Rightarrow> 'u) \<Rightarrow> 't http_response_ok \<Rightarrow> 'u http_response_ok" where
  "ok_map f (HttpResponseOk t) = HttpResponseOk (f t)"

fun ok_try_map :: "('t \<Rightarrow> ('e, 'u) result) \<Rightarrow> 't http_response_ok \<Rightarrow> ('e, 'u http_response_ok) result" where
  "ok_try_map f (HttpResponseOk t) = rbind (f t) (\<lambda>u. Inr (HttpResponseOk u))"

text \<open>The responses without an object.\<close>

definition deleted_into :: "error_printer \<Rightarrow> 'b \<Rightarrow> 'b handler_result" where
  "deleted_into shw empty_body = for_object (empty_to_response shw) Deleted empty_body"

definition updated_no_content_into :: "error_printer \<Rightarrow> 'b \<Rightarrow> 'b handler_result" where
  "updated_no_content_into shw empty_body = for_object (empty_to_response shw) UpdatedNoContent empty_body"

text \<open>A free-form response is what it is, and says nothing of itself.\<close>

definition response_to_result :: "'b response \<Rightarrow> 'b handler_result" where
  "response_to_result r = Inr r"

definition response_metadata :: "'g api_endpoint_response" where
  "response_metadata = api_endpoint_response_default"

section \<open>Responses with headers\<close>

text \<open>\<^verbatim>\<open>HttpResponseHeaders\<close>: a coded response, the structure of its named headers as it is
  serialized, and further headers.\<close>

record 't headers_response =
  hr_body :: 't
  hr_structured :: ser_value
  hr_other :: header_map

definition headers_new :: "'t \<Rightarrow> ser_value \<Rightarrow> 't headers_response" where
  "headers_new b hs = \<lparr> hr_body = b, hr_structured = hs, hr_other = hm_empty \<rparr>"

definition headers_new_unnamed :: "'t \<Rightarrow> 't headers_response" where
  "headers_new_unnamed b =
    \<lparr> hr_body = b, hr_structured = SerStruct ''NoHeaders'' [], hr_other = hm_empty \<rparr>"

fun insert_named_headers ::
  "http_lib \<Rightarrow> error_printer \<Rightarrow> (string \<times> string) list \<Rightarrow> header_map \<Rightarrow> (http_error, header_map) result" where
  "insert_named_headers H shw [] hs = Inr hs"
| "insert_named_headers H shw ((key, v) # m) hs =
    rbind (ok_or (for_internal_error (shw InvalidHeaderName)) (parse_header_name H key)) (\<lambda>n.
      if header_value_ok H v then insert_named_headers H shw m (hm_insert n v hs)
      else Inl (for_internal_error (shw InvalidHeaderValue)))"

text \<open>\<open>into\<close> is what \<^verbatim>\<open>into()\<close> makes of the coded response.\<close>

definition headers_to_result ::
  "http_lib \<Rightarrow> error_printer \<Rightarrow> ('t \<Rightarrow> 'b handler_result) \<Rightarrow> 't headers_response \<Rightarrow> 'b handler_result" where
  "headers_to_result H shw into r =
    rbind (into (hr_body r)) (\<lambda>rsp.
    rbind (map_err (\<lambda>e. case e of MapError m \<Rightarrow> for_internal_error (''error processing headers: '' @ m))
             (to_map (hr_structured r))) (\<lambda>header_map.
    rbind (insert_named_headers H shw header_map (resp_headers rsp)) (\<lambda>hs.
    Inr (rsp\<lparr> resp_headers := hm_extend hs (hr_other r) \<rparr>))))"

text \<open>The three redirections; the location is checked before anything else is built.
  \<open>debug\<close> is the debug printer of strings.\<close>

definition http_redirect_error :: "error_printer \<Rightarrow> (string \<Rightarrow> string) \<Rightarrow> string \<Rightarrow> http_error" where
  "http_redirect_error shw debug location =
    for_internal_error (''error encoding redirect URL '' @ debug location @ '': '' @ shw InvalidHeaderValue)"

definition redirect_into :: "error_printer \<Rightarrow> 'b \<Rightarrow> coded_response \<Rightarrow> 'b handler_result" where
  "redirect_into shw empty_body c = for_object (empty_to_response shw) c empty_body"

definition http_response_redirect ::
  "http_lib \<Rightarrow> error_printer \<Rightarrow> (string \<Rightarrow> string) \<Rightarrow> coded_response \<Rightarrow> string
    \<Rightarrow> (http_error, coded_response headers_response) result" where
  "http_response_redirect H shw debug c location =
    (if \<not> header_value_ok H location then Inl (http_redirect_error shw debug location)
     else Inr (headers_new c (SerStruct ''RedirectHeaders'' [(''location'', SerStr location)])))"

definition http_response_found ::
  "http_lib \<Rightarrow> error_printer \<Rightarrow> (string \<Rightarrow> string) \<Rightarrow> string \<Rightarrow> (http_error, coded_response headers_response) result" where
  "http_response_found H shw debug = http_response_redirect H shw debug Found"

definition http_response_see_other ::
  "http_lib \<Rightarrow> error_printer \<Rightarrow> (string \<Rightarrow> string) \<Rightarrow> string \<Rightarrow> (http_error, coded_response headers_response) result" where
  "http_response_see_other H shw debug = http_response_redirect H shw debug SeeOther"

definition http_response_temporary_redirect ::
  "http_lib \<Rightarrow> error_printer \<Rightarrow> (string \<Rightarrow> string) \<Rightarrow> string \<Rightarrow> (http_error, coded_response headers_response) result" where
  "http_response_temporary_redirect H shw debug =
    http_response_redirect H shw debug TemporaryRedirect"

text \<open>\<^verbatim>\<open>map\<close> and \<^verbatim>\<open>try_map\<close> change the body and keep the headers.\<close>

definition response_headers_mut :: "(header_map \<Rightarrow> header_map) \<Rightarrow> 't headers_response \<Rightarrow> 't headers_response" where
  "response_headers_mut f r = r\<lparr> hr_other := f (hr_other r) \<rparr>"

definition headers_map :: "('t \<Rightarrow> 'u) \<Rightarrow> 't headers_response \<Rightarrow> 'u headers_response" where
  "headers_map f r = \<lparr> hr_body = f (hr_body r), hr_structured = hr_structured r, hr_other = hr_other r \<rparr>"

definition headers_try_map ::
  "('t \<Rightarrow> ('e, 'u) result) \<Rightarrow> 't headers_response \<Rightarrow> ('e, 'u headers_response) result" where
  "headers_try_map f r =
    rbind (f (hr_body r)) (\<lambda>body. Inr \<lparr> hr_body = body, hr_structured = hr_structured r, hr_other = hr_other r \<rparr>)"

section \<open>Running a handler\<close>

text \<open>\<^verbatim>\<open>HttpHandlerFunc::handle_request\<close>: a consumer's function may panic, fail with its own
  error type, or return a response that still has to be converted.\<close>

definition func_handle_request ::
  "('e, 'b) response_error \<Rightarrow> ('c \<Rightarrow> 'p \<Rightarrow> ('e, 'r) result outcome) \<Rightarrow> ('r \<Rightarrow> 'b handler_result)
    \<Rightarrow> 'c \<Rightarrow> 'p \<Rightarrow> ('b handler_error, 'b response) result outcome" where
  "func_handle_request E func to_result rqctx param_tuple =
    rbind (func rqctx param_tuple) (\<lambda>res.
      Inr (rbind (map_err (handler_error_from E) res) (\<lambda>response.
        map_err (\<lambda>error. handler_error_from E (re_from_http_error E error)) (to_result response))))"

text \<open>\<^verbatim>\<open>HttpRouteHandler::handle_request\<close>.\<close>

definition route_handle_request ::
  "('e, 'b) response_error \<Rightarrow> ('c \<Rightarrow> 'q \<Rightarrow> (http_error, 'p) result)
    \<Rightarrow> ('c \<Rightarrow> 'p \<Rightarrow> ('e, 'r) result outcome) \<Rightarrow> ('r \<Rightarrow> 'b handler_result)
    \<Rightarrow> 'c \<Rightarrow> 'q \<Rightarrow> ('b handler_error, 'b response) result outcome" where
  "route_handle_request E extract func to_result rqctx request =
    (case extract rqctx request of
       Inl err \<Rightarrow> Inr (Inl (handler_error_from E (re_from_http_error E err)))
     | Inr funcparams \<Rightarrow> func_handle_request E func to_result rqctx funcparams)"

text \<open>The route handlers: a function with a label, and stubs that only have one.\<close>

record 'h http_route_handler =
  hrh_handler :: 'h
  hrh_label :: string

definition route_handler_new_with_name :: "'h \<Rightarrow> string \<Rightarrow> 'h http_route_handler" where
  "route_handler_new_with_name h lbl = \<lparr> hrh_handler = h, hrh_label = lbl \<rparr>"

definition route_handler_new :: "'h \<Rightarrow> 'h http_route_handler" where
  "route_handler_new h = route_handler_new_with_name h ''<unlabeled handler>''"

definition route_handler_debug :: "'h http_route_handler \<Rightarrow> string" where
  "route_handler_debug h = ''handler: '' @ hrh_label h"

record stub_route_handler =
  srh_label :: string

definition stub_new_with_name :: "string \<Rightarrow> stub_route_handler" where
  "stub_new_with_name lbl = \<lparr> srh_label = lbl \<rparr>"

definition stub_handle_request ::
  "string \<Rightarrow> 'c \<Rightarrow> 'q \<Rightarrow> ('b handler_error, 'b response) result outcome" where
  "stub_handle_request label rqctx request =
    Inl (Panic (''not implemented: stub handler called, not implemented: '' @ label))"

section \<open>The trait of error types\<close>

text \<open>What the server relies on: the errors that a handler can return have an error status,
  a response made from one keeps the status of the builder, and an error that cannot be
  serialized leaves a well-formed \<^verbatim>\<open>HttpError\<close>.\<close>

locale response_error_trait =
  fixes E :: "('e, 'b) response_error"
    and valid :: "'e \<Rightarrow> bool"
  assumes status_wf: "valid e \<Longrightarrow> error_status_wf (re_status E e)"
    and response_status: "re_to_response E e rb = Inr rsp \<Longrightarrow> resp_status rsp = rb_status rb"
    and fallback_wf: "valid e \<Longrightarrow> re_to_response E e rb = Inl err \<Longrightarrow> http_error_wf err"
    and from_http_error_valid: "http_error_wf err \<Longrightarrow> valid (re_from_http_error E err)"
begin

lemma handler_error_from_status:
  assumes "valid e"
  shows "\<exists>st. error_status_wf st \<and> he_status_code (handler_error_from E e) = as_status st"
proof (cases "re_to_response E e \<lparr> rb_status = as_status (re_status E e), rb_headers = hm_empty \<rparr>")
  case (Inl err)
  then show ?thesis
    using fallback_wf[OF assms Inl] by (auto simp: handler_error_from_def http_error_wf_def)
next
  case (Inr rsp)
  then show ?thesis
    using response_status[OF Inr] status_wf[OF assms] by (auto simp: handler_error_from_def)
qed

lemma route_handle_request_error_status:
  assumes "\<And>err. extract c q = Inl err \<Longrightarrow> http_error_wf err"
    and "\<And>p e. func c p = Inr (Inl e) \<Longrightarrow> valid e"
    and "\<And>r err. to_result r = Inl err \<Longrightarrow> http_error_wf err"
    and "route_handle_request E extract func to_result c q = Inr (Inl he)"
  shows "\<exists>st. error_status_wf st \<and> he_status_code he = as_status st"
proof -
  have "\<exists>e. valid e \<and> he = handler_error_from E e"
  proof (cases "extract c q")
    case (Inl err)
    then show ?thesis
      using assms(1,4) from_http_error_valid by (auto simp: route_handle_request_def)
  next
    case (Inr p)
    then have "func_handle_request E func to_result c p = Inr (Inl he)"
      using assms(4) by (simp add: route_handle_request_def)
    then obtain res where res: "func c p = Inr res"
        "rbind (map_err (handler_error_from E) res) (\<lambda>response. map_err (\<lambda>error.
          handler_error_from E (re_from_http_error E error)) (to_result response)) = Inl he"
      by (auto simp: func_handle_request_def rbind_Inr_iff)
    show ?thesis
    proof (cases res)
      case (Inl e)
      then show ?thesis using res assms(2) by auto
    next
      case (Inr r)
      then obtain err where "to_result r = Inl err" "he = handler_error_from E (re_from_http_error E err)"
        using res(2) by (auto simp: map_err_Inl_iff)
      then show ?thesis using assms(3) from_http_error_valid by blast
    qed
  qed
  then show ?thesis using handler_error_from_status by blast
qed

end

interpretation http_error_trait: response_error_trait "http_response_error disp" http_error_wf
  by unfold_locales (auto simp: http_response_error_def http_error_to_response_def http_error_wf_def)

text \<open>An error type whose body is serialized as JSON, as in the documentation of the trait.\<close>

definition json_response_error ::
  "http_lib \<Rightarrow> error_printer \<Rightarrow> ('e \<Rightarrow> (string, 'b) result) \<Rightarrow> ('e \<Rightarrow> string) \<Rightarrow> ('e \<Rightarrow> error_status_code)
    \<Rightarrow> (http_error \<Rightarrow> 'e) \<Rightarrow> ('e, 'b) response_error" where
  "json_response_error H shw to_json disp st from =
    \<lparr> re_display = disp, re_status = st, re_to_response = typed_to_response H shw to_json,
      re_from_http_error = from \<rparr>"

lemma error_from_processing_wf [simp]: "http_error_wf (error_from_processing m)"
  by (simp add: error_from_processing_def)

lemma finish_builder_status: "finish_builder shw st b hs = Inr rsp \<Longrightarrow> resp_status rsp = st"
  by (auto simp: finish_builder_def rbind_simps)

lemma finish_builder_error: "finish_builder shw st b hs = Inl err \<Longrightarrow> http_error_wf err"
  by (auto simp: finish_builder_def map_err_Inl_iff)

lemma json_response_error_trait:
  assumes "\<And>e. error_status_wf (st e)"
  shows "response_error_trait (json_response_error H shw to_json disp st from) (\<lambda>_. True)"
  using assms by unfold_locales
    (auto simp: json_response_error_def typed_to_response_def rbind_simps map_err_Inl_iff
      dest: finish_builder_status finish_builder_error)

section \<open>Headers of a response\<close>

lemma ok_or_cases [simp]: "ok_or e (Some a) = Inr a" "ok_or e None = Inl e"
  by (simp_all add: ok_or_def)

text \<open>The value that the named headers give to a name.\<close>

definition named_header :: "http_lib \<Rightarrow> (string \<times> string) list \<Rightarrow> string \<Rightarrow> string option" where
  "named_header H m = map_of (rev (map (\<lambda>(k, v). (the (parse_header_name H k), v)) m))"

definition header_ok :: "http_lib \<Rightarrow> string \<times> string \<Rightarrow> bool" where
  "header_ok H kv = (parse_header_name H (fst kv) \<noteq> None \<and> header_value_ok H (snd kv))"

lemma insert_named_headers_Inr_iff:
  "insert_named_headers H shw m hs = Inr hs' \<longleftrightarrow>
    list_all (header_ok H) m
    \<and> hs' = (\<lambda>n. case named_header H m n of Some v \<Rightarrow> [v] | None \<Rightarrow> hs n)"
proof (induction m arbitrary: hs)
  case Nil
  then show ?case by (auto simp: named_header_def)
next
  case (Cons kv m)
  obtain k v where kv: "kv = (k, v)" by (cases kv)
  show ?case
  proof (cases "header_ok H kv")
    case True
    then obtain n where n: "parse_header_name H k = Some n" "header_value_ok H v"
      by (auto simp: header_ok_def kv)
    have "(\<lambda>x. case named_header H m x of Some v \<Rightarrow> [v] | None \<Rightarrow> hm_insert n v hs x)
        = (\<lambda>x. case named_header H (kv # m) x of Some v \<Rightarrow> [v] | None \<Rightarrow> hs x)"
      by (rule ext) (auto simp: named_header_def map_add_def kv n split: option.splits)
    moreover have "insert_named_headers H shw (kv # m) hs = insert_named_headers H shw m (hm_insert n v hs)"
      using n by (simp add: kv del: hm_lookup_simps)
    ultimately show ?thesis
      using Cons.IH[of "hm_insert n v hs"] True by (simp del: hm_lookup_simps)
  qed (auto simp: header_ok_def kv rbind_Inr_iff split: if_splits)
qed

lemma headers_to_result_Inr_iff:
  "headers_to_result H shw into r = Inr rsp \<longleftrightarrow>
    (\<exists>base m. into (hr_body r) = Inr base \<and> to_map (hr_structured r) = Inr m \<and> list_all (header_ok H) m
      \<and> rsp = base\<lparr> resp_headers := (\<lambda>n. if hr_other r n = []
            then (case named_header H m n of Some v \<Rightarrow> [v] | None \<Rightarrow> resp_headers base n)
            else hr_other r n) \<rparr>)"
  unfolding headers_to_result_def rbind_Inr_iff insert_named_headers_Inr_iff hm_extend_def map_err_Inr_iff
  by auto

lemma for_object_empty:
  "for_object (empty_to_response shw) c b =
    Inr \<lparr> resp_status = coded_status c, resp_headers = hm_empty, resp_body = b \<rparr>"
  by (simp add: for_object_def empty_to_response_def finish_builder_def)

section \<open>Properties\<close>

text \<open>A response with headers succeeds exactly when its body does and every named header
  is a valid name and value; then the status and body are those of the body's response,
  further headers override named ones, and named ones those of the body.\<close>

theorem headers_to_result_spec:
  "headers_to_result H shw into r = Inr rsp \<longleftrightarrow>
    (\<exists>base m. into (hr_body r) = Inr base \<and> to_map (hr_structured r) = Inr m \<and> list_all (header_ok H) m
      \<and> resp_status rsp = resp_status base \<and> resp_body rsp = resp_body base
      \<and> resp_headers rsp = (\<lambda>n. if hr_other r n = []
            then (case named_header H m n of Some v \<Rightarrow> [v] | None \<Rightarrow> resp_headers base n)
            else hr_other r n))"
proof -
  have "rsp = base\<lparr> resp_headers := h \<rparr> \<longleftrightarrow>
      resp_status rsp = resp_status base \<and> resp_body rsp = resp_body base \<and> resp_headers rsp = h"
    for base and h
    by (cases rsp; cases base) auto
  then show ?thesis unfolding headers_to_result_Inr_iff by simp
qed

text \<open>A redirection to a location that is a valid header value is an empty response with
  the status of its kind and that location; any other location is refused with an internal
  error before a response is built.\<close>

theorem redirect_response_spec:
  assumes "parse_header_name H ''location'' = Some ''location''"
  shows "rbind (http_response_redirect H shw debug c location)
      (headers_to_result H shw (redirect_into shw empty_body)) =
    (if header_value_ok H location
     then Inr \<lparr> resp_status = coded_status c, resp_headers = hm_insert ''location'' location hm_empty,
                resp_body = empty_body \<rparr>
     else Inl (http_redirect_error shw debug location))"
proof -
  have "to_map (SerStruct ''RedirectHeaders'' [(''location'', SerStr location)]) = Inr [(''location'', location)]"
    by simp
  then show ?thesis
    using assms
    by (auto simp: http_response_redirect_def headers_new_def headers_to_result_def redirect_into_def for_object_empty
        hm_extend_def)
qed

definition lower_case_lib :: http_lib where
  "lower_case_lib = \<lparr> parse_header_name = (\<lambda>n. Some (to_lower n)),
     header_value_ok = (\<lambda>v. CHR 0x0A \<notin> set v), headers_full = (\<lambda>_. False) \<rparr>"

theorem redirect_response_spec_witness:
  "rbind (http_response_redirect lower_case_lib (\<lambda>_. ''bad'') id SeeOther ''/there'')
     (headers_to_result lower_case_lib (\<lambda>_. ''bad'') (redirect_into (\<lambda>_. ''bad'') ''none''))
   = Inr \<lparr> resp_status = 303, resp_headers = hm_insert ''location'' ''/there'' hm_empty, resp_body = ''none'' \<rparr>"
proof -
  have "parse_header_name lower_case_lib ''location'' = Some ''location''" by code_simp
  from redirect_response_spec[OF this, of "\<lambda>_. ''bad''" id SeeOther "''/there''" "''none''"]
  show ?thesis by (simp add: lower_case_lib_def)
qed

text \<open>Whatever goes wrong in a handler of the error type \<^verbatim>\<open>HttpError\<close> -- an extractor, the
  handler itself, or the conversion of its response -- that very error reaches the server,
  with both of its messages, and nothing else counts as a failure.\<close>

theorem http_error_passes_through:
  "route_handle_request (http_response_error disp) extract func to_result c q = Inr (Inl he) \<longleftrightarrow>
    (\<exists>err. he = DropshotErr err \<and>
      (extract c q = Inl err
       \<or> (\<exists>p. extract c q = Inr p \<and>
           (func c p = Inr (Inl err) \<or> (\<exists>r. func c p = Inr (Inr r) \<and> to_result r = Inl err)))))"
proof -
  have from_err: "handler_error_from (http_response_error disp) e = DropshotErr e" for e
    by (simp add: handler_error_from_def http_response_error_def http_error_to_response_def)
  have id: "re_from_http_error (http_response_error disp) e = e" for e :: http_error
    by (simp add: http_response_error_def)
  have func: "func_handle_request (http_response_error disp) func to_result c p = Inr (Inl he) \<longleftrightarrow>
      (\<exists>err. he = DropshotErr err \<and>
        (func c p = Inr (Inl err) \<or> (\<exists>r. func c p = Inr (Inr r) \<and> to_result r = Inl err)))" for p
    by (auto simp: func_handle_request_def rbind_Inr_iff rbind_Inl_iff map_err_Inl_iff from_err id)
  show ?thesis
    by (cases "extract c q") (auto simp: route_handle_request_def func from_err id)
qed

end
