(* ===== verification/Versioning.thy ===== *)
theory Versioning
  imports Router
begin

text \<open>
  Version policies (\<^verbatim>\<open>versioning.rs\<close>): how the version of a request is determined before
  it is routed.  A policy of the trait \<^verbatim>\<open>DynamicVersionPolicy\<close> is a function on the
  request's headers; \<open>request_extract_version\<close> is the one that the crate provides.
  Parsing, printing and the ASCII check of header values belong to \<^verbatim>\<open>semver\<close> and
  \<^verbatim>\<open>http\<close> and are fields of the parameter record \<open>version_lib\<close>.
\<close>

section \<open>The policies\<close>

record 'v version_lib =
  header_to_str :: "string \<Rightarrow> string option"
  parse_version :: "string \<Rightarrow> (string, 'v) result"
  show_version :: "'v \<Rightarrow> string"
  debug_header :: "string \<Rightarrow> string"

datatype 'v version_policy =
    Unversioned
  | Dynamic "header_map \<Rightarrow> (http_error, 'v) result"

fun request_version :: "'v version_policy \<Rightarrow> header_map \<Rightarrow> (http_error, 'v option) result" where
  "request_version Unversioned hs = Inr None"
| "request_version (Dynamic vers_impl) hs = rbind (vers_impl hs) (\<lambda>v. Inr (Some v))"

record 'v client_specifies_version_in_header =
  csv_name :: string
  csv_max_version :: 'v
  csv_min_version :: "'v option"
  csv_on_missing :: "'v option"

definition csv_new :: "string \<Rightarrow> 'v \<Rightarrow> 'v client_specifies_version_in_header" where
  "csv_new name max_version =
    \<lparr> csv_name = name, csv_max_version = max_version, csv_min_version = None, csv_on_missing = None \<rparr>"

definition csv_with_min_version ::
  "'v \<Rightarrow> 'v client_specifies_version_in_header \<Rightarrow> 'v client_specifies_version_in_header" where
  "csv_with_min_version v p = p\<lparr>csv_min_version := Some v\<rparr>"

definition csv_with_on_missing ::
  "'v \<Rightarrow> 'v client_specifies_version_in_header \<Rightarrow> 'v client_specifies_version_in_header" where
  "csv_with_on_missing v p = p\<lparr>csv_on_missing := Some v\<rparr>"

definition parse_header ::
  "'v version_lib \<Rightarrow> header_map \<Rightarrow> string \<Rightarrow> (http_error, 'v option) result" where
  "parse_header L hs hname =
    (case hm_get hs hname of
       None \<Rightarrow> Inr None
     | Some v_value \<Rightarrow>
         rbind (ok_or (for_bad_request None
                  (''bad value for header '' @ debug_header L hname
                   @ '': not ASCII: '' @ debug_header L v_value))
                (header_to_str L v_value)) (\<lambda>v_str.
         rbind (map_err (\<lambda>e. for_bad_request None
                  (''bad value for header '' @ debug_header L hname @ '': '' @ e @ '': '' @ v_str))
                (parse_version L v_str)) (\<lambda>v.
         Inr (Some v))))"

definition request_extract_version ::
  "'v::linorder version_lib \<Rightarrow> 'v client_specifies_version_in_header \<Rightarrow> header_map
    \<Rightarrow> (http_error, 'v) result" where
  "request_extract_version L p hs =
    rbind (parse_header L hs (csv_name p)) (\<lambda>v.
    (case (v, csv_on_missing p) of
       (Some v, _) \<Rightarrow>
         if v > csv_max_version p then
           Inl (for_bad_request None
             (''server does not support this API version: '' @ show_version L v))
         else
           (case csv_min_version p of
              Some m \<Rightarrow>
                if v < m then
                  Inl (for_bad_request None
                    (''server no longer supports this API version: '' @ show_version L v
                     @ '' (oldest supported version: '' @ show_version L m @ '')''))
                else Inr v
            | None \<Rightarrow> Inr v)
     | (None, Some m) \<Rightarrow> Inr m
     | (None, None) \<Rightarrow>
         Inl (for_bad_request None (''missing expected header '' @ debug_header L (csv_name p)))))"

section \<open>Properties\<close>

text \<open>The version that the request itself carries, if it is readable.\<close>

definition header_version ::
  "'v version_lib \<Rightarrow> 'v client_specifies_version_in_header \<Rightarrow> header_map \<Rightarrow> 'v option" where
  "header_version L p hs =
    (case hm_get hs (csv_name p) of
       None \<Rightarrow> None
     | Some raw \<Rightarrow> (case header_to_str L raw of
                      None \<Rightarrow> None
                    | Some s \<Rightarrow> (case parse_version L s of Inl _ \<Rightarrow> None | Inr v \<Rightarrow> Some v)))"

definition supported :: "'v::linorder client_specifies_version_in_header \<Rightarrow> 'v \<Rightarrow> bool" where
  "supported p v \<longleftrightarrow> v \<le> csv_max_version p \<and> (\<forall>m. csv_min_version p = Some m \<longrightarrow> m \<le> v)"

text \<open>C38. The header policy uses a version exactly in two cases: the header carries it and it
  lies between the configured minimum and maximum, or there is no header and it is the
  configured default; every other request is refused with a 400, never with a 500.\<close>

theorem request_extract_version_spec:
  "(request_extract_version L p hs = Inr v \<longleftrightarrow>
      header_version L p hs = Some v \<and> supported p v
      \<or> hm_get hs (csv_name p) = None \<and> csv_on_missing p = Some v)
   \<and> (\<forall>e. request_extract_version L p hs = Inl e \<longrightarrow> as_status (status_code e) = 400)"
proof (cases "hm_get hs (csv_name p)")
  case None
  then show ?thesis
    by (auto simp: request_extract_version_def parse_header_def header_version_def
        split: option.splits)
next
  case (Some raw)
  show ?thesis
  proof (cases "header_to_str L raw")
    case None
    then show ?thesis
      using Some by (simp add: request_extract_version_def parse_header_def header_version_def ok_or_def)
  next
    case s: (Some s)
    show ?thesis
    proof (cases "parse_version L s")
      case (Inl e)
      then show ?thesis
        using Some s by (simp add: request_extract_version_def parse_header_def header_version_def ok_or_def)
    next
      case (Inr w)
      then show ?thesis
        using Some s
        by (auto simp: request_extract_version_def parse_header_def header_version_def ok_or_def
            supported_def split: option.splits if_splits)
    qed
  qed
qed


definition sample_version_lib :: "nat version_lib" where
  "sample_version_lib = \<lparr> header_to_str = Some, parse_version = (\<lambda>s. Inr (length s)),
     show_version = (\<lambda>_. ''v''), debug_header = id \<rparr>"

theorem request_extract_version_spec_witness:
  "request_extract_version sample_version_lib (csv_new ''v'' (3::nat)) (hm_insert ''v'' ''II'' hm_empty) = Inr 2
    \<and> request_extract_version sample_version_lib (csv_new ''v'' (1::nat)) (hm_insert ''v'' ''II'' hm_empty) \<noteq> Inr 2"
  by (simp_all add: request_extract_version_spec[THEN conjunct1] header_version_def supported_def
      csv_new_def sample_version_lib_def hm_get_def hm_insert_def)

end
