(* ===== verification/Compression.thy ===== *)
theory Compression
  imports Map_Serde
begin

text \<open>
  Response compression (\<^verbatim>\<open>compression.rs\<close>): parsing of \<^verbatim>\<open>Accept-Encoding\<close> with its quality
  values, the decision whether to compress, and the change of the response.  The
  string view of a header value (\<^verbatim>\<open>HeaderValue::to_str\<close>), the exact size of a body and
  the gzip stream are function arguments.  Rust's \<^verbatim>\<open>f32\<close> parser is written out: the
  grammar, and rounding to the nearest single-precision value, ties to even.
\<close>

section \<open>Parsing single-precision numbers\<close>

definition pow2 :: "int \<Rightarrow> rat" where
  "pow2 e = (if e \<ge> 0 then 2 ^ nat e else 1 / 2 ^ nat (- e))"

definition round_half_even :: "rat \<Rightarrow> int" where
  "round_half_even q =
    (let n = \<lfloor>q\<rfloor>; d = q - of_int n in
     if d < 1 / 2 then n else if d > 1 / 2 then n + 1 else if even n then n else n + 1)"

text \<open>The exponent of the unit in the last place of a positive value.\<close>

definition f32_ulp_exponent :: "rat \<Rightarrow> int" where
  "f32_ulp_exponent q =
    (case find (\<lambda>e. pow2 e \<le> q) (rev [-126..128]) of Some e \<Rightarrow> e - 23 | None \<Rightarrow> -149)"

definition round_f32 :: "rat \<Rightarrow> f64" where
  "round_f32 q =
    (let a = \<bar>q\<bar>; u = pow2 (f32_ulp_exponent a); r = of_int (round_half_even (a / u)) * u in
     if r \<ge> pow2 128 then (if q < 0 then NegInf else PosInf)
     else Fin (if q < 0 then - r else r))"

definition take_digits :: "string \<Rightarrow> string \<times> string" where
  "take_digits s =
    (takeWhile (\<lambda>c. digit_value c \<noteq> None) s, dropWhile (\<lambda>c. digit_value c \<noteq> None) s)"

definition digits_nat :: "string \<Rightarrow> nat" where
  "digits_nat ds = foldl (\<lambda>acc c. 10 * acc + the (digit_value c)) 0 ds"

definition parse_exponent :: "string \<Rightarrow> int option" where
  "parse_exponent s =
    (case s of
       [] \<Rightarrow> Some 0
     | c # cs \<Rightarrow>
         if c = CHR ''e'' \<or> c = CHR ''E'' then
           (let (neg, rest) = (case cs of
                   x # xs \<Rightarrow> if x = CHR ''-'' then (True, xs)
                             else if x = CHR ''+'' then (False, xs) else (False, cs)
                 | [] \<Rightarrow> (False, cs));
                (ds, left) = take_digits rest
            in if ds = [] \<or> left \<noteq> [] then None
               else Some (if neg then - int (digits_nat ds) else int (digits_nat ds)))
         else None)"

definition parse_decimal :: "string \<Rightarrow> rat option" where
  "parse_decimal s =
    (let (ipart, r1) = take_digits s;
         (fpart, r2) = (case r1 of
            c # cs \<Rightarrow> if c = CHR ''.'' then take_digits cs else ([], r1)
          | [] \<Rightarrow> ([], r1))
     in if ipart = [] \<and> fpart = [] then None
        else (case parse_exponent r2 of
                None \<Rightarrow> None
              | Some e \<Rightarrow>
                  Some (of_nat (digits_nat (ipart @ fpart))
                        * (if e - int (length fpart) \<ge> 0 then 10 ^ nat (e - int (length fpart))
                           else 1 / 10 ^ nat (int (length fpart) - e)))))"

definition parse_f32 :: "string \<Rightarrow> f64 option" where
  "parse_f32 s =
    (let (neg, body) = (case s of
            c # cs \<Rightarrow> if c = CHR ''-'' then (True, cs)
                      else if c = CHR ''+'' then (False, cs) else (False, s)
          | [] \<Rightarrow> (False, s))
     in (case parse_decimal body of
           Some q \<Rightarrow> Some (round_f32 (if neg then - q else q))
         | None \<Rightarrow>
             if to_lower body = ''inf'' \<or> to_lower body = ''infinity''
             then Some (if neg then NegInf else PosInf)
             else if to_lower body = ''nan'' then Some NaN
             else None))"

section \<open>Accept-Encoding\<close>

text \<open>One parameter of a directive updates the quality.\<close>

definition apply_param :: "rat \<Rightarrow> string \<Rightarrow> rat" where
  "apply_param quality param =
    (case split_once (CHR ''='') param of
       None \<Rightarrow> quality
     | Some (name, val) \<Rightarrow>
         if eq_ignore_ascii_case (trim name) ''q'' then
           (case parse_f32 (trim val) of
              Some (Fin q) \<Rightarrow> max 0 (min 1 q)
            | _ \<Rightarrow> quality)
         else quality)"

definition parse_directive :: "string \<Rightarrow> (string \<times> rat) option" where
  "parse_directive directive =
    (case split_on (CHR '';'') (trim directive) of
       [] \<Rightarrow> None
     | p # parts \<Rightarrow>
         (let encoding = trim p in
          if encoding = [] then None
          else Some (to_lower encoding, foldl apply_param 1 parts)))"

definition parse_accept_encoding :: "(string \<Rightarrow> string option) \<Rightarrow> string \<Rightarrow> (string \<times> rat) list" where
  "parse_accept_encoding to_str header =
    (case to_str header of
       None \<Rightarrow> []
     | Some header_value \<Rightarrow>
         List.map_filter parse_directive (split_on (CHR '','') header_value))"

fun best_quality :: "rat option \<Rightarrow> rat \<Rightarrow> rat option" where
  "best_quality None q = Some q"
| "best_quality (Some c) q = Some (max c q)"

text \<open>The body of the loop: the best qualities of gzip and of the wildcard so far.\<close>

definition note_encoding ::
  "string \<times> rat \<Rightarrow> rat option \<times> rat option \<Rightarrow> rat option \<times> rat option" where
  "note_encoding enc best =
    (case (enc, best) of ((encoding, quality), (gz, wild)) \<Rightarrow>
       if encoding = ''gzip'' then (best_quality gz quality, wild)
       else if encoding = ''*'' then (gz, best_quality wild quality)
       else (gz, wild))"

definition accepted_encodings ::
  "(string \<Rightarrow> string option) \<Rightarrow> header_map \<Rightarrow> (string \<times> rat) list" where
  "accepted_encodings to_str hs = concat (map (parse_accept_encoding to_str) (hs ''accept-encoding''))"

definition accepts_gzip_encoding :: "(string \<Rightarrow> string option) \<Rightarrow> header_map \<Rightarrow> bool" where
  "accepts_gzip_encoding to_str hs =
    (case fold note_encoding (accepted_encodings to_str hs) (None, None) of
       (Some q, _) \<Rightarrow> q > 0
     | (None, Some q) \<Rightarrow> q > 0
     | (None, None) \<Rightarrow> False)"

section \<open>The decision\<close>

definition is_compressible_content_type :: "(string \<Rightarrow> string option) \<Rightarrow> header_map \<Rightarrow> bool" where
  "is_compressible_content_type to_str hs =
    (case hm_get hs ''content-type'' of
       None \<Rightarrow> False
     | Some content_type \<Rightarrow>
         (case to_str content_type of
            None \<Rightarrow> False
          | Some ct_str \<Rightarrow>
              (let ct = to_lower ct_str in
               if starts_with ''text/event-stream'' ct then False
               else starts_with ''application/json'' ct
                 \<or> starts_with ''application/ndjson'' ct
                 \<or> starts_with ''application/x-ndjson'' ct
                 \<or> starts_with ''text/'' ct
                 \<or> starts_with ''application/xml'' ct
                 \<or> starts_with ''application/javascript'' ct
                 \<or> starts_with ''application/x-javascript'' ct
                 \<or> contains_str ''+json'' ct \<or> contains_str ''+xml'' ct)))"

definition MIN_COMPRESS_SIZE :: nat where
  "MIN_COMPRESS_SIZE = 512"

text \<open>\<open>no_compression\<close>: whether the marker is among the response's extensions.\<close>

definition should_compress_response ::
  "(string \<Rightarrow> string option) \<Rightarrow> string \<Rightarrow> header_map \<Rightarrow> status_code \<Rightarrow> header_map \<Rightarrow> bool \<Rightarrow> bool" where
  "should_compress_response to_str request_method request_headers status rsp_headers no_compression =
    (if (100 \<le> status \<and> status < 200) \<or> status = 204 \<or> status = 304 then False
     else if request_method = ''HEAD'' then False
     else if status = 206 then False
     else if hm_contains_key rsp_headers ''content-range'' then False
     else if \<not> accepts_gzip_encoding to_str request_headers then False
     else if hm_contains_key rsp_headers ''content-encoding'' then False
     else if no_compression then False
     else if (case hm_get rsp_headers ''content-length'' of
                None \<Rightarrow> False
              | Some cl \<Rightarrow>
                  (case to_str cl of
                     None \<Rightarrow> False
                   | Some length_str \<Rightarrow>
                       (case parse_int False 64 length_str of
                          None \<Rightarrow> False
                        | Some len \<Rightarrow> len < int MIN_COMPRESS_SIZE)))
          then False
     else is_compressible_content_type to_str rsp_headers)"

section \<open>The change of the response\<close>

definition header_value_contains_accept_encoding :: "(string \<Rightarrow> string option) \<Rightarrow> string \<Rightarrow> bool" where
  "header_value_contains_accept_encoding to_str v =
    (case to_str v of
       None \<Rightarrow> False
     | Some vary \<Rightarrow>
         list_ex (\<lambda>x. eq_ignore_ascii_case (trim x) ''accept-encoding'') (split_on (CHR '','') vary))"

definition add_vary_header :: "(string \<Rightarrow> string option) \<Rightarrow> header_map \<Rightarrow> header_map" where
  "add_vary_header to_str hs =
    (if ''*'' \<in> set (hs ''vary'') then hs
     else if \<not> list_ex (header_value_contains_accept_encoding to_str) (hs ''vary'')
     then hm_append ''vary'' ''Accept-Encoding'' hs
     else hs)"

definition apply_gzip_compression ::
  "(string \<Rightarrow> string option) \<Rightarrow> ('b \<Rightarrow> nat option) \<Rightarrow> ('b \<Rightarrow> 'b) \<Rightarrow> 'b response \<Rightarrow> 'b response" where
  "apply_gzip_compression to_str exact_size gzip r =
    (if (case exact_size (resp_body r) of
           Some n \<Rightarrow> n = 0 \<or> n < MIN_COMPRESS_SIZE | None \<Rightarrow> False)
     then r
     else (let h1 = hm_insert ''content-encoding'' ''gzip'' (resp_headers r);
               h2 = add_vary_header to_str h1;
               h3 = hm_remove ''content-length'' (hm_remove ''accept-ranges'' h2)
           in r\<lparr>resp_headers := h3, resp_body := gzip (resp_body r)\<rparr>))"

section \<open>Lemmas\<close>

definition gzip_qualities :: "string \<Rightarrow> (string \<times> rat) list \<Rightarrow> rat set" where
  "gzip_qualities name encs = {q. (name, q) \<in> set encs}"

lemma note_encoding_gz:
  "fst (fold note_encoding encs (gz, wild)) =
    fold (\<lambda>(e, q) b. if e = ''gzip'' then best_quality b q else b) encs gz"
  by (induction encs arbitrary: gz wild) (auto simp: note_encoding_def)

lemma note_encoding_wild:
  "snd (fold note_encoding encs (gz, wild)) =
    fold (\<lambda>(e, q) b. if e = ''*'' then best_quality b q else b) encs wild"
  by (induction encs arbitrary: gz wild) (auto simp: note_encoding_def)

lemma fold_best_quality:
  "fold (\<lambda>(e, q) b. if e = name then best_quality b q else b) encs b0 =
    (if gzip_qualities name encs = {} \<and> b0 = None then None
     else Some (Max (gzip_qualities name encs \<union> set_option b0)))"
proof (induction encs arbitrary: b0)
  case Nil
  then show ?case by (cases b0) (auto simp: gzip_qualities_def)
next
  case (Cons p encs)
  obtain e q where p: "p = (e, q)" by (cases p)
  have fin: "finite (gzip_qualities name xs)" for xs
    unfolding gzip_qualities_def
    by (rule finite_subset[of _ "snd ` set xs"]) (auto simp: rev_image_eqI)
  have split: "gzip_qualities name (p # encs) =
      (if e = name then insert q (gzip_qualities name encs) else gzip_qualities name encs)"
    by (auto simp: gzip_qualities_def p)
  show ?case
  proof (cases "e = name")
    case True
    have "Max (gzip_qualities name encs \<union> set_option (best_quality b0 q)) =
        Max (insert q (gzip_qualities name encs) \<union> set_option b0)"
      using fin[of encs]
      by (cases b0; cases "gzip_qualities name encs = {}") (auto simp: Max_insert2 max.assoc max.commute)
    moreover have "best_quality b0 q \<noteq> None" by (cases b0) auto
    ultimately show ?thesis using Cons.IH[of "best_quality b0 q"] p split True by simp
  next
    case False
    then show ?thesis using Cons.IH[of b0] p split by simp
  qed
qed

lemma finite_gzip_qualities: "finite (gzip_qualities name encs)"
  unfolding gzip_qualities_def
  by (rule finite_subset[of _ "snd ` set encs"]) (auto simp: rev_image_eqI)

lemma Max_positive_iff:
  "gzip_qualities name encs \<noteq> {} \<Longrightarrow>
    Max (gzip_qualities name encs) > 0 \<longleftrightarrow> (\<exists>q > 0. (name, q) \<in> set encs)"
  using finite_gzip_qualities[of name encs] by (auto simp: Max_gr_iff gzip_qualities_def)

section \<open>Properties\<close>

text \<open>Gzip is acceptable exactly when some directive names gzip with a positive quality,
  or none names gzip at all and some wildcard has a positive quality; the order and
  repetition of directives and of the header itself do not matter.\<close>

theorem accepts_gzip_encoding_iff:
  "accepts_gzip_encoding to_str hs \<longleftrightarrow>
    (let encs = accepted_encodings to_str hs in
     if \<exists>q. (''gzip'', q) \<in> set encs then \<exists>q > 0. (''gzip'', q) \<in> set encs
     else \<exists>q > 0. (''*'', q) \<in> set encs)"
proof -
  let ?e = "accepted_encodings to_str hs"
  let ?r = "fold note_encoding ?e (None, None)"
  have gz: "fst ?r = (if gzip_qualities ''gzip'' ?e = {} then None else Some (Max (gzip_qualities ''gzip'' ?e)))"
    using note_encoding_gz[of ?e None None] fold_best_quality[of "''gzip''" ?e None] by simp
  have wild: "snd ?r = (if gzip_qualities ''*'' ?e = {} then None else Some (Max (gzip_qualities ''*'' ?e)))"
    using note_encoding_wild[of ?e None None] fold_best_quality[of "''*''" ?e None] by simp
  have dec: "accepts_gzip_encoding to_str hs \<longleftrightarrow>
      (case fst ?r of Some q \<Rightarrow> q > 0 | None \<Rightarrow> (case snd ?r of Some q \<Rightarrow> q > 0 | None \<Rightarrow> False))"
    by (cases ?r) (auto simp: accepts_gzip_encoding_def split: option.splits)
  have empty: "gzip_qualities n ?e = {} \<longleftrightarrow> (\<nexists>q. (n, q) \<in> set ?e)" for n
    by (auto simp: gzip_qualities_def)
  show ?thesis
    unfolding dec gz wild using Max_positive_iff[of "''gzip''" ?e] Max_positive_iff[of "''*''" ?e]
    by (auto simp: Let_def empty)
qed

text \<open>C16. A compressed response is labelled as such: it says gzip, varies on Accept-Encoding,
  carries neither a length nor ranges, keeps its status and every other header, and is
  never compressed a second time.\<close>

theorem apply_gzip_compression_spec:
  assumes "\<forall>n. exact_size (resp_body r) = Some n \<longrightarrow> n \<ge> 512" "to_str ''Accept-Encoding'' = Some ''Accept-Encoding''"
  shows "let r' = apply_gzip_compression to_str exact_size gzip r in
    resp_status r' = resp_status r \<and> resp_body r' = gzip (resp_body r)
    \<and> resp_headers r' ''content-encoding'' = [''gzip'']
    \<and> resp_headers r' ''content-length'' = [] \<and> resp_headers r' ''accept-ranges'' = []
    \<and> (''*'' \<in> set (resp_headers r' ''vary'')
        \<or> list_ex (header_value_contains_accept_encoding to_str) (resp_headers r' ''vary''))
    \<and> (\<forall>n. n \<notin> {''content-encoding'', ''content-length'', ''accept-ranges'', ''vary''}
          \<longrightarrow> resp_headers r' n = resp_headers r n)
    \<and> \<not> should_compress_response to_str m rh (resp_status r') (resp_headers r') nc"
proof -
  let ?h = "hm_insert ''content-encoding'' ''gzip'' (resp_headers r)"
  have app: "apply_gzip_compression to_str exact_size gzip r =
      r\<lparr>resp_headers := hm_remove ''content-length'' (hm_remove ''accept-ranges'' (add_vary_header to_str ?h)),
        resp_body := gzip (resp_body r)\<rparr>"
    using assms(1)
    by (auto simp: apply_gzip_compression_def MIN_COMPRESS_SIZE_def Let_def split: option.splits)
  have ae: "header_value_contains_accept_encoding to_str ''Accept-Encoding''"
  proof -
    have "list_ex (\<lambda>x. eq_ignore_ascii_case (trim x) ''accept-encoding'') (split_on (CHR '','') ''Accept-Encoding'')"
      by code_simp
    then show ?thesis using assms(2) by (simp add: header_value_contains_accept_encoding_def)
  qed
  have other: "n \<noteq> ''vary'' \<Longrightarrow> add_vary_header to_str ?h n = ?h n" for n
    by (simp add: add_vary_header_def)
  have vary: "''*'' \<in> set (add_vary_header to_str ?h ''vary'')
      \<or> list_ex (header_value_contains_accept_encoding to_str) (add_vary_header to_str ?h ''vary'')"
    using ae by (auto simp: add_vary_header_def)
  have "\<not> should_compress_response to_str m rh (resp_status r)
      (hm_remove ''content-length'' (hm_remove ''accept-ranges'' (add_vary_header to_str ?h))) nc"
    using other[of "''content-encoding''"]
    by (simp add: should_compress_response_def hm_contains_key_def)
  then show ?thesis
    using vary other by (simp add: app Let_def)
qed

theorem apply_gzip_compression_spec_witness:
  "let r' = apply_gzip_compression Some (\<lambda>b. None) (\<lambda>b. ''gz'') \<lparr> resp_status = 200,
        resp_headers = hm_insert ''content-length'' ''900'' hm_empty, resp_body = ''data'' \<rparr> in
    resp_status r' = resp_status \<lparr> resp_status = 200,
        resp_headers = hm_insert ''content-length'' ''900'' hm_empty, resp_body = ''data'' \<rparr>
    \<and> resp_body r' = (\<lambda>b. ''gz'') (resp_body \<lparr> resp_status = 200,
        resp_headers = hm_insert ''content-length'' ''900'' hm_empty, resp_body = ''data'' \<rparr>)
    \<and> resp_headers r' ''content-encoding'' = [''gzip'']
    \<and> resp_headers r' ''content-length'' = [] \<and> resp_headers r' ''accept-ranges'' = []
    \<and> (''*'' \<in> set (resp_headers r' ''vary'')
        \<or> list_ex (header_value_contains_accept_encoding Some) (resp_headers r' ''vary''))
    \<and> (\<forall>n. n \<notin> {''content-encoding'', ''content-length'', ''accept-ranges'', ''vary''}
          \<longrightarrow> resp_headers r' n = resp_headers \<lparr> resp_status = 200,
        resp_headers = hm_insert ''content-length'' ''900'' hm_empty, resp_body = ''data'' \<rparr> n)
    \<and> \<not> should_compress_response Some ''GET'' hm_empty (resp_status r') (resp_headers r') False"
  by (rule apply_gzip_compression_spec) simp_all

end
