(* ===== verification/Router_Laws.thy ===== *)
theory Router_Laws
  imports Router
begin

text \<open>
  The router against its specification.  The abstract view of a trie is the route
  table \<open>handlers_at\<close>: from a path template and a method to the handlers registered
  for them.  Insertion is an update of that table, lookup selects the unique template
  that matches the request path, and the invariant \<open>node_wf\<close> is kept by every
  insertion, so it holds of every router that registration can build.
\<close>

section \<open>Templates and the route table\<close>

definition template_of :: "string \<Rightarrow> path_segment list outcome" where
  "template_of p = rbind (route_path_to_segments p) (mapM_result path_segment_from)"

fun node_at :: "path_segment list \<Rightarrow> 'e http_router_node \<Rightarrow> 'e http_router_node option" where
  "node_at [] n = Some n"
| "node_at (Literal l # t) n =
    (case edges n of
       Some (Literals m) \<Rightarrow> (case map_of m l of Some c \<Rightarrow> node_at t c | None \<Rightarrow> None)
     | _ \<Rightarrow> None)"
| "node_at (VarnameSegment v # t) n =
    (case edges n of
       Some (VariableSingle w c) \<Rightarrow> if v = w then node_at t c else None
     | _ \<Rightarrow> None)"
| "node_at (VarnameWildcard v # t) n =
    (case edges n of
       Some (VariableRest w c) \<Rightarrow> if v = w then node_at t c else None
     | _ \<Rightarrow> None)"

definition node_handlers :: "'e http_router_node \<Rightarrow> string \<Rightarrow> 'e list" where
  "node_handlers n m = (case map_of (methods n) m of None \<Rightarrow> [] | Some hs \<Rightarrow> hs)"

definition handlers_at :: "'e http_router_node \<Rightarrow> path_segment list \<Rightarrow> string \<Rightarrow> 'e list" where
  "handlers_at n t m = (case node_at t n of None \<Rightarrow> [] | Some c \<Rightarrow> node_handlers c m)"

text \<open>The bindings of a template against the segments of a request path.\<close>

fun match_template ::
  "path_segment list \<Rightarrow> string list \<Rightarrow> (string \<times> variable_value) list option" where
  "match_template [] [] = Some []"
| "match_template [VarnameWildcard v] ss = Some [(v, Components ss)]"
| "match_template (Literal l # t) (s # ss) = (if l = s then match_template t ss else None)"
| "match_template (VarnameSegment v # t) (s # ss) =
    map_option (Cons (v, VString s)) (match_template t ss)"
| "match_template _ _ = None"

fun template_vars :: "path_segment list \<Rightarrow> string list" where
  "template_vars [] = []"
| "template_vars (Literal _ # t) = template_vars t"
| "template_vars (VarnameSegment v # t) = v # template_vars t"
| "template_vars (VarnameWildcard v # t) = v # template_vars t"

fun has_rest_edge :: "'e http_router_node \<Rightarrow> bool" where
  "has_rest_edge (HttpRouterNode _ (Some (VariableRest _ _))) = True"
| "has_rest_edge _ = False"

text \<open>The node that a request path leads to, with the bindings of the template on the
  way.  A node with a wildcard edge is never the end: the wildcard below it matches
  the empty rest.\<close>

definition resolves ::
  "'e http_router_node \<Rightarrow> string list \<Rightarrow> 'e http_router_node
    \<Rightarrow> (string \<times> variable_value) list \<Rightarrow> bool" where
  "resolves n ss c bs \<longleftrightarrow>
    (\<exists>t. node_at t n = Some c \<and> match_template t ss = Some bs \<and> \<not> has_rest_edge c)"

section \<open>The invariant\<close>

lemma child_size_literal [termination_simp]:
  "(k, c) \<in> set m \<Longrightarrow> size c < Suc (size_list (size_prod (\<lambda>_. 0) size) m)"
proof (induction m)
  case (Cons p m)
  then show ?case by (cases p) auto
qed simp

definition methods_wf :: "(string, ('h, 'g, 'v::linorder) api_endpoint list) btree_map \<Rightarrow> bool" where
  "methods_wf ms \<longleftrightarrow> bt_wf ms
    \<and> (\<forall>(m, hs) \<in> set ms. hs \<noteq> []
        \<and> (\<forall>h \<in> set hs. to_upper (method h) = m)
        \<and> sorted_wrt (\<lambda>a b. \<not> overlaps_with (versions a) (versions b)) hs)"

fun node_wf :: "string set \<Rightarrow> ('h, 'g, 'v::linorder) api_endpoint http_router_node \<Rightarrow> bool" where
  "node_wf V (HttpRouterNode ms None) = methods_wf ms"
| "node_wf V (HttpRouterNode ms (Some (Literals m))) =
    (methods_wf ms \<and> bt_wf m \<and> (\<forall>(k, c) \<in> set m. node_wf V c))"
| "node_wf V (HttpRouterNode ms (Some (VariableSingle v c))) =
    (methods_wf ms \<and> v \<notin> V \<and> node_wf (insert v V) c)"
| "node_wf V (HttpRouterNode ms (Some (VariableRest v c))) =
    (methods_wf ms \<and> v \<notin> V \<and> edges c = None
      \<and> node_wf (insert v V) c)"

definition router_wf :: "('h, 'g, 'v::linorder) api_endpoint http_router \<Rightarrow> bool" where
  "router_wf r = node_wf {} (root r)"

inductive router_reachable :: "('h, 'g, 'v::linorder) api_endpoint http_router \<Rightarrow> bool" where
  new: "router_reachable router_new"
| ins: "router_reachable r \<Longrightarrow> router_insert e r = Inr r' \<Longrightarrow> router_reachable r'"

lemma node_wf_handlers: "node_wf V n \<Longrightarrow> methods_wf (methods n)"
  by (cases "(V, n)" rule: node_wf.cases) auto

lemma node_wf_new [simp]: "node_wf V node_new"
  by (simp add: node_new_def methods_wf_def)

lemma node_wf_Literals:
  "edges n = Some (Literals m) \<Longrightarrow>
    node_wf V n \<longleftrightarrow> methods_wf (methods n) \<and> bt_wf m \<and> (\<forall>(k, c) \<in> set m. node_wf V c)"
  by (cases n) auto

lemma node_wf_Single:
  "edges n = Some (VariableSingle v c) \<Longrightarrow>
    node_wf V n \<longleftrightarrow> methods_wf (methods n) \<and> v \<notin> V \<and> node_wf (insert v V) c"
  by (cases n) auto

lemma node_wf_Rest:
  "edges n = Some (VariableRest v c) \<Longrightarrow>
    node_wf V n \<longleftrightarrow> methods_wf (methods n) \<and> v \<notin> V \<and> edges c = None \<and> node_wf (insert v V) c"
  by (cases n) auto

lemmas node_wf_edges = node_wf_Literals node_wf_Single node_wf_Rest

lemma node_wf_same_edges:
  "edges n' = edges n \<Longrightarrow> methods_wf (methods n') \<Longrightarrow> node_wf V n \<Longrightarrow> node_wf V n'"
  by (cases n; cases n'; cases "edges n"; cases "the (edges n)") auto

lemma add_handler_Inr:
  assumes "add_handler e n = Inr n'"
  shows "methods n' = bt_insert (to_upper (method e)) (node_handlers n (to_upper (method e)) @ [e]) (methods n)"
    and "edges n' = edges n"
    and "\<forall>h \<in> set (node_handlers n (to_upper (method e))). \<not> overlaps_with (versions h) (versions e)"
  using assms
  by (auto simp: add_handler_def Let_def node_handlers_def find_None_iff
      split: option.splits if_splits)

lemma add_handler_wf:
  assumes "methods_wf (methods n)" "add_handler e n = Inr n'"
  shows "methods_wf (methods n')"
proof -
  let ?m = "to_upper (method e)" and ?hs = "node_handlers n (to_upper (method e))"
  note n' = add_handler_Inr[OF assms(2)]
  have wf: "bt_wf (methods n)" using assms(1) by (simp add: methods_wf_def)
  have old: "sorted_wrt (\<lambda>a b. \<not> overlaps_with (versions a) (versions b)) ?hs
      \<and> (\<forall>h \<in> set ?hs. to_upper (method h) = ?m)"
  proof (cases "map_of (methods n) ?m")
    case (Some hs)
    then have "(?m, hs) \<in> set (methods n)" by (rule map_of_SomeD)
    then show ?thesis
      using assms(1) Some by (auto simp: methods_wf_def node_handlers_def)
  qed (simp add: node_handlers_def)
  have "set (methods n') = insert (?m, ?hs @ [e]) {p \<in> set (methods n). fst p \<noteq> ?m}"
    using n'(1) wf by (simp add: set_bt_insert)
  then show ?thesis
    using assms(1) n' old wf unfolding methods_wf_def
    by (auto simp: sorted_wrt_append)
qed

text \<open>The segments of an insertion, one at a time.\<close>

lemma insert_at_Cons_cases:
  assumes "insert_at e V (raw # rest) n = Inr n'"
  obtains (lit) l m c where "path_segment_from raw = Inr (Literal l)"
      "edges n = Some (Literals m) \<or> edges n = None \<and> m = []"
      "insert_at e V rest (case map_of m l of None \<Rightarrow> node_new | Some x \<Rightarrow> x) = Inr c"
      "n' = HttpRouterNode (methods n) (Some (Literals (bt_insert l c m)))"
  | (single) v d c where "path_segment_from raw = Inr (VarnameSegment v)" "v \<notin> V"
      "edges n = Some (VariableSingle v d) \<or> edges n = None \<and> d = node_new"
      "insert_at e (insert v V) rest d = Inr c"
      "n' = HttpRouterNode (methods n) (Some (VariableSingle v c))"
  | (rest) v d c where "path_segment_from raw = Inr (VarnameWildcard v)" "v \<notin> V" "rest = []"
      "edges n = Some (VariableRest v d) \<or> edges n = None \<and> d = node_new"
      "insert_at e (insert v V) rest d = Inr c"
      "n' = HttpRouterNode (methods n) (Some (VariableRest v c))"
proof -
  obtain seg where seg: "path_segment_from raw = Inr seg"
    using assms by (auto simp: rbind_simps)
  show thesis
  proof (cases seg)
    case (Literal l)
    then show ?thesis
      using assms seg lit[of l "[]"] lit[of l]
      by (cases "edges n"; cases "the (edges n)") (auto simp: rbind_simps)
  next
    case (VarnameSegment v)
    then show ?thesis
      using assms seg single[of v node_new] single[of v]
      by (cases "edges n"; cases "the (edges n)")
         (auto simp: rbind_simps insert_var_def split: if_splits)
  next
    case (VarnameWildcard v)
    then show ?thesis
      using assms seg rest[of v node_new] rest[of v]
      by (cases "edges n"; cases "the (edges n)")
         (auto simp: rbind_simps insert_var_def split: if_splits)
  qed
qed

lemma insert_at_Nil_edges: "insert_at e V [] n = Inr n' \<Longrightarrow> edges n' = edges n"
  by (auto dest: add_handler_Inr)

lemma insert_at_wf:
  "node_wf V n \<Longrightarrow> insert_at e V raws n = Inr n' \<Longrightarrow> node_wf V n'"
proof (induction raws arbitrary: V n n')
  case Nil
  then have h: "add_handler e n = Inr n'" by simp
  have "methods_wf (methods n')"
    using add_handler_wf[OF node_wf_handlers[OF Nil.prems(1)] h] .
  then show ?case
    using node_wf_same_edges Nil.prems(1) add_handler_Inr(2)[OF h] by metis
next
  case (Cons raw rest)
  note wf = Cons.prems(1)
  from Cons.prems(2) show ?case
  proof (cases rule: insert_at_Cons_cases)
    case (lit l m c)
    have m: "bt_wf m" "\<forall>(k, x) \<in> set m. node_wf V x"
      using lit(2) wf by (auto simp: node_wf_edges)
    then have "node_wf V (case map_of m l of None \<Rightarrow> node_new | Some x \<Rightarrow> x)"
      by (auto split: option.split dest: map_of_SomeD)
    then have "node_wf V c" using Cons.IH lit(3) by blast
    then show ?thesis
      using lit(4) m node_wf_handlers[OF wf]
      by (auto simp: set_bt_insert methods_wf_def)
  next
    case (single v d c)
    have "node_wf (insert v V) d"
      using single(3) wf by (auto simp: node_wf_edges)
    then have "node_wf (insert v V) c" using Cons.IH single(4) by blast
    then show ?thesis
      using single(2,5) node_wf_handlers[OF wf] by (auto simp: methods_wf_def)
  next
    case (rest v d c)
    have d: "node_wf (insert v V) d" "edges d = None"
      using rest(4) wf by (auto simp: node_wf_edges node_new_def methods_wf_def)
    then have "node_wf (insert v V) c" using Cons.IH rest(5) by blast
    moreover have "edges c = None"
      using insert_at_Nil_edges rest(3,5) d(2) by metis
    ultimately show ?thesis
      using rest(2,6) node_wf_handlers[OF wf] by (auto simp: methods_wf_def)
  qed
qed


lemma router_insert_wf:
  assumes "router_wf r" "router_insert e r = Inr r'"
  shows "router_wf r'"
  using assms insert_at_wf by (auto simp: router_wf_def router_insert_def rbind_simps)

section \<open>Insertion updates the route table\<close>

lemma handlers_at_Nil: "handlers_at n [] m = node_handlers n m"
  by (simp add: handlers_at_def)

lemma handlers_at_Cons:
  "handlers_at n (seg # t) m =
    (case node_at [seg] n of None \<Rightarrow> [] | Some c \<Rightarrow> handlers_at c t m)"
  by (cases seg) (auto simp: handlers_at_def split: option.split http_router_edges.split)

lemma handlers_at_new [simp]: "handlers_at node_new t m = []"
  by (cases t; cases "hd t")
     (auto simp: handlers_at_def node_handlers_def node_new_def)

lemma table_step:
  assumes child: "\<And>t' m. handlers_at c t' m = handlers_at d t' m @ (if t' = t \<and> m = M then [e] else [])"
    and ms: "methods n' = methods n" and hit: "node_at [seg] n' = Some c"
    and old: "\<And>t m. handlers_at n (seg # t) m = handlers_at d t m"
    and miss: "\<And>seg'. seg' \<noteq> seg \<Longrightarrow> node_at [seg'] n' = node_at [seg'] n"
  shows "handlers_at n' t' m = handlers_at n t' m @ (if t' = seg # t \<and> m = M then [e] else [])"
proof (cases t')
  case Nil
  then show ?thesis using ms by (simp add: handlers_at_Nil node_handlers_def)
next
  case (Cons seg' t'')
  show ?thesis
  proof (cases "seg' = seg")
    case True
    then show ?thesis
      using Cons hit old child by (simp add: handlers_at_Cons[of n'])
  next
    case False
    then show ?thesis
      using Cons miss[of seg'] by (simp add: handlers_at_Cons)
  qed
qed

lemma insert_at_table:
  "node_wf V n \<Longrightarrow> insert_at e V raws n = Inr n' \<Longrightarrow>
    \<exists>t. mapM_result path_segment_from raws = Inr t \<and>
      (\<forall>t' m. handlers_at n' t' m = handlers_at n t' m
                @ (if t' = t \<and> m = to_upper (method e) then [e] else []))"
proof (induction raws arbitrary: V n n')
  case Nil
  then have h: "add_handler e n = Inr n'" and wf: "bt_wf (methods n)"
    using node_wf_handlers[OF Nil.prems(1)] by (auto simp: methods_wf_def)
  have "handlers_at n' t' m = handlers_at n t' m
      @ (if t' = [] \<and> m = to_upper (method e) then [e] else [])" for t' m
  proof (cases t')
    case Nil
    then show ?thesis
      using add_handler_Inr(1)[OF h] wf by (simp add: handlers_at_Nil node_handlers_def)
  next
    case (Cons seg t)
    have "node_at [seg] n' = node_at [seg] n"
      using add_handler_Inr(2)[OF h] by (cases seg) auto
    with Cons show ?thesis by (simp add: handlers_at_Cons)
  qed
  then show ?case by simp
next
  case (Cons raw rest)
  note wf = Cons.prems(1)
  have step: "\<exists>t. mapM_result path_segment_from (raw # rest) = Inr t \<and>
      (\<forall>t' m. handlers_at n' t' m = handlers_at n t' m
                @ (if t' = t \<and> m = to_upper (method e) then [e] else []))"
    if seg: "path_segment_from raw = Inr seg" and d: "node_wf W d" "insert_at e W rest d = Inr c"
      and others: "methods n' = methods n" "node_at [seg] n' = Some c"
        "\<And>t m. handlers_at n (seg # t) m = handlers_at d t m"
        "\<And>seg'. seg' \<noteq> seg \<Longrightarrow> node_at [seg'] n' = node_at [seg'] n"
    for seg W d c
  proof -
    obtain t where t: "mapM_result path_segment_from rest = Inr t"
      "\<And>t' m. handlers_at c t' m = handlers_at d t' m
                @ (if t' = t \<and> m = to_upper (method e) then [e] else [])"
      using Cons.IH[OF d] by auto
    show ?thesis
      using t(1) seg table_step[OF t(2) others] by (intro exI[of _ "seg # t"]) simp
  qed
  from Cons.prems(2) show ?case
  proof (cases rule: insert_at_Cons_cases)
    case (lit l m c)
    have m: "bt_wf m" "\<forall>(k, x) \<in> set m. node_wf V x"
      using lit(2) wf by (auto simp: node_wf_edges)
    let ?d = "case map_of m l of None \<Rightarrow> node_new | Some x \<Rightarrow> x"
    have d: "node_wf V ?d"
      using m by (auto split: option.split dest: map_of_SomeD)
    show ?thesis
    proof (rule step[OF lit(1) d lit(3)])
      show "handlers_at n (Literal l # t) M = handlers_at ?d t M" for t M
        using lit(2) by (auto simp: handlers_at_Cons split: option.split)
      show "node_at [seg'] n' = node_at [seg'] n" if "seg' \<noteq> Literal l" for seg'
        using that lit(2,4) m by (cases seg') (auto split: option.split)
    qed (use lit(4) m in simp_all)
  next
    case (single v d c)
    have d: "node_wf (insert v V) d"
      using single(3) wf by (auto simp: node_wf_edges)
    show ?thesis
    proof (rule step[OF single(1) d single(4)])
      show "handlers_at n (VarnameSegment v # t) M = handlers_at d t M" for t M
        using single(3) by (auto simp: handlers_at_Cons)
      show "node_at [seg'] n' = node_at [seg'] n" if "seg' \<noteq> VarnameSegment v" for seg'
        using that single(3,5) by (cases seg') auto
    qed (use single(5) in simp_all)
  next
    case (rest v d c)
    have d: "node_wf (insert v V) d"
      using rest(4) wf by (auto simp: node_wf_edges)
    show ?thesis
    proof (rule step[OF rest(1) d rest(5)])
      show "handlers_at n (VarnameWildcard v # t) M = handlers_at d t M" for t M
        using rest(4) by (auto simp: handlers_at_Cons)
      show "node_at [seg'] n' = node_at [seg'] n" if "seg' \<noteq> VarnameWildcard v" for seg'
        using that rest(4,6) by (cases seg') auto
    qed (use rest(6) in simp_all)
  qed
qed

lemma router_insert_table:
  assumes "router_wf r" "router_insert e r = Inr r'"
  shows "\<exists>t. template_of (path e) = Inr t \<and>
    (\<forall>t' m. handlers_at (root r') t' m = handlers_at (root r) t' m
              @ (if t' = t \<and> m = to_upper (method e) then [e] else []))"
  using assms insert_at_table
  by (fastforce simp: router_wf_def router_insert_def template_of_def rbind_simps)

section \<open>Lookup selects by template\<close>

lemma node_at_append:
  "node_at (t @ u) n = Option.bind (node_at t n) (node_at u)"
  by (induction t n rule: node_at.induct)
     (auto split: option.split http_router_edges.split)

lemma has_rest_edge_iff: "has_rest_edge n \<longleftrightarrow> (\<exists>v c. edges n = Some (VariableRest v c))"
  by (cases n rule: has_rest_edge.cases) auto

lemma walk_no_panic: "node_wf V n \<Longrightarrow> \<exists>x. walk n vs ss = Inr x"
proof (induction n vs ss arbitrary: V rule: walk.induct)
  case (1 n vs)
  then show ?case
    by (auto simp: node_wf_edges split: option.split http_router_edges.split)
next
  case (2 n vs s ss)
  show ?case
  proof (cases "edges n")
    case (Some ed)
    show ?thesis
    proof (cases ed)
      case (Literals m)
      then show ?thesis
        using 2 Some by (fastforce simp: node_wf_edges split: option.split dest: map_of_SomeD)
    next
      case (VariableSingle v c)
      then show ?thesis using 2 Some by (auto simp: node_wf_edges)
    next
      case (VariableRest v c)
      then show ?thesis using 2 Some by (auto simp: node_wf_edges)
    qed
  qed simp
qed

lemma match_template_Nil_iff:
  "match_template t [] = Some bs \<longleftrightarrow>
    t = [] \<and> bs = [] \<or> (\<exists>v. t = [VarnameWildcard v] \<and> bs = [(v, Components [])])"
  by (cases "(t, [] :: string list)" rule: match_template.cases) auto

lemma match_template_Cons_iff:
  "match_template t (s # ss) = Some bs \<longleftrightarrow>
    (\<exists>v. t = [VarnameWildcard v] \<and> bs = [(v, Components (s # ss))])
    \<or> (\<exists>t'. t = Literal s # t' \<and> match_template t' ss = Some bs)
    \<or> (\<exists>v t' bs'. t = VarnameSegment v # t' \<and> bs = (v, VString s) # bs'
        \<and> match_template t' ss = Some bs')"
  by (cases "(t, s # ss)" rule: match_template.cases) auto

lemma resolves_Nil:
  assumes "node_wf V n"
  shows "resolves n [] n' bs \<longleftrightarrow>
    (case edges n of
       Some (VariableRest v c) \<Rightarrow> n' = c \<and> bs = [(v, Components [])]
     | _ \<Rightarrow> n' = n \<and> bs = [])"
proof (cases "\<exists>v c. edges n = Some (VariableRest v c)")
  case True
  then obtain v c where ed: "edges n = Some (VariableRest v c)" by blast
  then have "edges c = None" using assms by (simp add: node_wf_edges)
  then show ?thesis
    using ed unfolding resolves_def
    by (auto simp: match_template_Nil_iff has_rest_edge_iff split: if_splits
        intro!: exI[of _ "[VarnameWildcard v]"])
next
  case False
  then show ?thesis
    unfolding resolves_def
    by (auto simp: match_template_Nil_iff has_rest_edge_iff
        split: option.splits http_router_edges.splits if_splits intro!: exI[of _ "[]"])
qed

lemma resolves_None: "edges n = None \<Longrightarrow> \<not> resolves n (s # ss) n' bs"
  by (auto simp: resolves_def match_template_Cons_iff)

lemma resolves_Literals:
  assumes "edges n = Some (Literals m)"
  shows "resolves n (s # ss) n' bs \<longleftrightarrow> (\<exists>c. map_of m s = Some c \<and> resolves c ss n' bs)"
proof
  assume "resolves n (s # ss) n' bs"
  then show "\<exists>c. map_of m s = Some c \<and> resolves c ss n' bs"
    using assms by (auto simp: resolves_def match_template_Cons_iff split: option.splits)
next
  assume "\<exists>c. map_of m s = Some c \<and> resolves c ss n' bs"
  then obtain c t where "map_of m s = Some c" "node_at t c = Some n'"
    "match_template t ss = Some bs" "\<not> has_rest_edge n'"
    by (auto simp: resolves_def)
  then show "resolves n (s # ss) n' bs"
    using assms unfolding resolves_def by (intro exI[of _ "Literal s # t"]) simp
qed

lemma resolves_Single:
  assumes "edges n = Some (VariableSingle v c)"
  shows "resolves n (s # ss) n' bs \<longleftrightarrow> (\<exists>bs'. bs = (v, VString s) # bs' \<and> resolves c ss n' bs')"
proof
  assume "resolves n (s # ss) n' bs"
  then show "\<exists>bs'. bs = (v, VString s) # bs' \<and> resolves c ss n' bs'"
    using assms by (auto simp: resolves_def match_template_Cons_iff split: if_splits)
next
  assume "\<exists>bs'. bs = (v, VString s) # bs' \<and> resolves c ss n' bs'"
  then obtain bs' t where "bs = (v, VString s) # bs'" "node_at t c = Some n'"
    "match_template t ss = Some bs'" "\<not> has_rest_edge n'"
    by (auto simp: resolves_def)
  then show "resolves n (s # ss) n' bs"
    using assms unfolding resolves_def by (intro exI[of _ "VarnameSegment v # t"]) simp
qed

lemma resolves_Rest:
  assumes "edges n = Some (VariableRest v c)" "edges c = None"
  shows "resolves n (s # ss) n' bs \<longleftrightarrow> n' = c \<and> bs = [(v, Components (s # ss))]"
proof
  assume "resolves n (s # ss) n' bs"
  then show "n' = c \<and> bs = [(v, Components (s # ss))]"
    using assms by (auto simp: resolves_def match_template_Cons_iff split: if_splits)
next
  assume "n' = c \<and> bs = [(v, Components (s # ss))]"
  then show "resolves n (s # ss) n' bs"
    using assms unfolding resolves_def
    by (intro exI[of _ "[VarnameWildcard v]"]) (simp add: has_rest_edge_iff)
qed

lemma walk_Some_iff:
  "node_wf V n \<Longrightarrow> walk n vs ss = Inr (Some (n', vs')) \<longleftrightarrow>
    (\<exists>bs. resolves n ss n' bs \<and> vs' = fold (\<lambda>(k, v). bt_insert k v) bs vs)"
proof (induction n vs ss arbitrary: V rule: walk.induct)
  case (1 n vs)
  then show ?case
    by (auto simp: resolves_Nil node_wf_edges split: option.split http_router_edges.split)
next
  case (2 n vs s ss)
  show ?case
  proof (cases "edges n")
    case None
    then show ?thesis by (simp add: resolves_None)
  next
    case (Some ed)
    show ?thesis
    proof (cases ed)
      case (Literals m)
      then have ed: "edges n = Some (Literals m)" using Some by simp
      show ?thesis
      proof (cases "map_of m s")
        case c: (Some c)
        then have "node_wf V c"
          using 2(4) ed by (auto simp: node_wf_edges dest: map_of_SomeD)
        note IH = 2(1)[OF Some Literals c this]
        then show ?thesis
          using c ed by (simp add: resolves_Literals[OF ed])
      qed (simp add: ed resolves_Literals[OF ed])
    next
      case (VariableSingle v c)
      then have ed: "edges n = Some (VariableSingle v c)" using Some by simp
      then have "node_wf (insert v V) c"
        using 2(4) by (simp add: node_wf_edges)
      note IH = 2(2)[OF Some VariableSingle this]
      then show ?thesis
        using ed by (auto simp: resolves_Single[OF ed])
    next
      case (VariableRest v c)
      then have ed: "edges n = Some (VariableRest v c)" using Some by simp
      then have "edges c = None"
        using 2(4) by (simp add: node_wf_edges)
      then show ?thesis
        using ed by (auto simp: resolves_Rest[OF ed])
    qed
  qed
qed

lemma walk_None_iff:
  assumes "node_wf V n"
  shows "walk n vs ss = Inr None \<longleftrightarrow> (\<forall>c bs. \<not> resolves n ss c bs)"
proof -
  obtain x where x: "walk n vs ss = Inr x"
    using walk_no_panic[OF assms] by blast
  show ?thesis
  proof (cases x)
    case None
    then have "\<not> resolves n ss c bs" for c bs
      using x walk_Some_iff[OF assms, of vs ss c "fold (\<lambda>(k, v). bt_insert k v) bs vs"] by auto
    then show ?thesis using x None by blast
  next
    case (Some p)
    then have "walk n vs ss = Inr (Some (fst p, snd p))" using x by simp
    then show ?thesis
      using x Some unfolding walk_Some_iff[OF assms] by auto
  qed
qed

lemma resolves_unique:
  assumes "node_wf V n" "resolves n ss c bs" "resolves n ss c' bs'"
  shows "c = c'"
proof -
  have "\<exists>vs. walk n [] ss = Inr (Some (c, vs))" "\<exists>vs. walk n [] ss = Inr (Some (c', vs))"
    using assms(2,3) by (auto simp: walk_Some_iff[OF assms(1)])
  then show ?thesis by auto
qed

text \<open>The bindings of a match are the template's variables, and they are distinct in a
  well-formed trie, so building the variable set loses none of them.\<close>

lemma match_template_vars: "match_template t ss = Some bs \<Longrightarrow> map fst bs = template_vars t"
  by (induction t ss arbitrary: bs rule: match_template.induct) (auto split: if_splits)

lemma node_at_vars_distinct:
  "node_wf V n \<Longrightarrow> node_at t n = Some c \<Longrightarrow>
    distinct (template_vars t) \<and> set (template_vars t) \<inter> V = {}"
proof (induction t n arbitrary: V rule: node_at.induct)
  case (2 l t n)
  then show ?case
    by (fastforce simp: node_wf_edges split: option.splits http_router_edges.splits
        dest: map_of_SomeD)
next
  case (3 v t n)
  then show ?case
    by (fastforce simp: node_wf_edges split: option.splits http_router_edges.splits if_splits)
next
  case (4 v t n)
  then show ?case
    by (fastforce simp: node_wf_edges split: option.splits http_router_edges.splits if_splits)
qed simp

lemma bindings_lookup:
  assumes "distinct (map fst bs)"
  shows "map_of (fold (\<lambda>(k, v). bt_insert k v) bs []) = map_of bs"
proof
  fix k
  have "map_of (fold (\<lambda>(k, v). bt_insert k v) bs []) k = map_of (rev bs) k"
    using btm.get_put_all[of "[]" bs k] by (simp add: btm.put_all_def)
  also have "\<dots> = map_of bs k"
    using assms by (metis distinct_rev map_of_eq_Some_iff option.exhaust rev_map set_rev)
  finally show "map_of (fold (\<lambda>(k, v). bt_insert k v) bs []) k = map_of bs k" .
qed

end
