(* ===== verification/Router_Properties.thy ===== *)
theory Router_Properties
  imports Router_Laws
begin

text \<open>
  What the router promises to the rest of the server, stated over the route table: the
  locale \<open>route_registry\<close> is the contract of registration, interpreted on
  \<open>router_insert\<close>; the properties state which handler a request reaches, when a
  request is refused and with which status, and what an insertion leaves alone.
\<close>

section \<open>Registration as an interface\<close>

locale route_registry =
  fixes ins :: "'e \<Rightarrow> 'r \<Rightarrow> 'r outcome"
    and tab :: "'r \<Rightarrow> 'k \<Rightarrow> 'e list"
    and key :: "'e \<Rightarrow> 'k option"
    and good :: "'r \<Rightarrow> bool"
    and none :: 'r
  assumes good_none: "good none"
    and tab_none: "tab none k = []"
    and good_ins: "good r \<Longrightarrow> ins e r = Inr r' \<Longrightarrow> good r'"
    and tab_ins: "good r \<Longrightarrow> ins e r = Inr r' \<Longrightarrow>
      key e \<noteq> None \<and> tab r' k = tab r k @ (if key e = Some k then [e] else [])"
begin

fun ins_all :: "'e list \<Rightarrow> 'r \<Rightarrow> 'r outcome" where
  "ins_all [] r = Inr r"
| "ins_all (e # es) r = rbind (ins e r) (ins_all es)"

lemma good_ins_all: "good r \<Longrightarrow> ins_all es r = Inr r' \<Longrightarrow> good r'"
  by (induction es arbitrary: r) (auto simp: rbind_simps dest: good_ins)

lemma tab_ins_all:
  "good r \<Longrightarrow> ins_all es r = Inr r' \<Longrightarrow>
    tab r' k = tab r k @ filter (\<lambda>e. key e = Some k) es"
proof (induction es arbitrary: r)
  case (Cons e es)
  then obtain r1 where r1: "ins e r = Inr r1" "ins_all es r1 = Inr r'"
    by (auto simp: rbind_simps)
  then show ?case
    using Cons.IH[of r1] good_ins[OF Cons.prems(1) r1(1)] tab_ins[OF Cons.prems(1) r1(1), of k]
    by auto
qed simp

lemma registered_exactly:
  "ins_all es none = Inr r \<Longrightarrow> tab r k = filter (\<lambda>e. key e = Some k) es"
  using tab_ins_all[OF good_none] tab_none by simp

end

definition endpoint_key :: "('h, 'g, 'v) api_endpoint \<Rightarrow> (path_segment list \<times> string) option" where
  "endpoint_key e =
    (case template_of (path e) of Inl _ \<Rightarrow> None | Inr t \<Rightarrow> Some (t, to_upper (method e)))"

definition route_table ::
  "('h, 'g, 'v) api_endpoint http_router \<Rightarrow> path_segment list \<times> string
    \<Rightarrow> ('h, 'g, 'v) api_endpoint list" where
  "route_table r k = handlers_at (root r) (fst k) (snd k)"

interpretation registry: route_registry router_insert route_table endpoint_key router_wf router_new
proof unfold_locales
  show "router_wf router_new" by (simp add: router_wf_def router_new_def)
  show "route_table router_new k = []" for k
    by (simp add: route_table_def router_new_def)
  show "router_wf r \<Longrightarrow> router_insert e r = Inr r' \<Longrightarrow> router_wf r'"
    for r :: "('a, 'b, 'c) api_endpoint http_router" and e r'
    by (rule router_insert_wf)
  show "router_wf r \<Longrightarrow> router_insert e r = Inr r' \<Longrightarrow> endpoint_key e \<noteq> None
      \<and> route_table r' k = route_table r k @ (if endpoint_key e = Some k then [e] else [])"
    for r :: "('a, 'b, 'c) api_endpoint http_router" and e r' k
    using router_insert_table[of r e r']
    by (cases k) (auto simp: route_table_def endpoint_key_def)
qed

lemma reachable_wf: "router_reachable r \<Longrightarrow> router_wf r"
  by (induction rule: router_reachable.induct) (auto intro: router_insert_wf simp: registry.good_none)

section \<open>Facts on lookup\<close>

lemma lookup_route_segments:
  "input_path_to_segments decode p = Inr ss \<Longrightarrow>
    lookup_route H decode shw r m p ver =
      rbind (walk (root r) [] ss) (\<lambda>found.
        case found of
          None \<Rightarrow> Inr (Inl (for_not_found None ''no route found (no path in router)''))
        | Some (node, vs) \<Rightarrow> select_handler H shw node vs m ver)"
  by (simp add: lookup_route_def)

lemma find_handler_Some:
  "find_handler_matching_version hs ver = Some h \<Longrightarrow> h \<in> set hs \<and> matches (versions h) ver"
  by (auto simp: find_handler_matching_version_def find_Some_iff)

lemma find_handler_None_iff:
  "find_handler_matching_version hs ver = None \<longleftrightarrow> (\<forall>h \<in> set hs. \<not> matches (versions h) ver)"
  by (auto simp: find_handler_matching_version_def find_None_iff)

lemma add_allow_headers_ok:
  assumes "parse_header_name H ''allow'' = Some ''allow''" "\<forall>h. \<not> headers_full H h"
  shows "list_all (header_value_ok H) ks \<Longrightarrow>
    \<exists>e'. add_allow_headers H ks e = Inr e' \<and> status_code e' = status_code e
      \<and> error_headers e' = (error_headers e)(''allow'' := error_headers e ''allow'' @ ks)"
proof (induction ks arbitrary: e)
  case (Cons k ks)
  obtain e1 where e1: "add_header H ''allow'' k e = (e1, Inr ())"
    using assms Cons.prems by (auto simp: add_header_def headers_mut_def Let_def)
  have "status_code e1 = status_code e" "error_headers e1 = hm_append ''allow'' k (error_headers e)"
    using add_header_frame[OF e1] assms(1) by auto
  moreover have "list_all (header_value_ok H) ks" using Cons.prems by simp
  then obtain e' where "add_allow_headers H ks e1 = Inr e'" "status_code e' = status_code e1"
      "error_headers e' = (error_headers e1)(''allow'' := error_headers e1 ''allow'' @ ks)"
    using Cons.IH[of e1] by blast
  ultimately show ?case
    using e1 by (auto simp: hm_append_def fun_upd_def fun_eq_iff)
qed (simp add: fun_upd_def)

definition http_lib_documented :: "http_lib \<Rightarrow> bool" where
  "http_lib_documented H \<longleftrightarrow> parse_header_name H ''allow'' = Some ''allow'' \<and> (\<forall>h. \<not> headers_full H h)"

lemma select_handler_cases:
  assumes "http_lib_documented H" "list_all (header_value_ok H) (bt_keys (methods n))"
    and "bt_wf (methods n)"
  shows "case find_handler_matching_version (node_handlers n (to_upper m)) ver of
      Some h \<Rightarrow> \<exists>res. select_handler H shw n vs m ver = Inr (Inr res)
        \<and> lr_handler res = handler h \<and> rem_variables (lr_endpoint res) = vs
        \<and> rem_operation_id (lr_endpoint res) = operation_id h
        \<and> rem_body_content_type (lr_endpoint res) = body_content_type h
        \<and> rem_request_body_max_bytes (lr_endpoint res) = request_body_max_bytes h
    | None \<Rightarrow> \<exists>err. select_handler H shw n vs m ver = Inr (Inl err)
        \<and> (if \<exists>m'. \<exists>h \<in> set (node_handlers n m'). matches (versions h) ver
           then as_status (status_code err) = 405 \<and> error_headers err ''allow'' = bt_keys (methods n)
           else as_status (status_code err) = 404)"
proof (cases "find_handler_matching_version (node_handlers n (to_upper m)) ver")
  case (Some h)
  then show ?thesis by (simp add: select_handler_def node_handlers_def)
next
  case None
  have any: "list_ex (\<lambda>hs. find_handler_matching_version hs ver \<noteq> None) (map snd (methods n))
      \<longleftrightarrow> (\<exists>m'. \<exists>h \<in> set (node_handlers n m'). matches (versions h) ver)"
  proof -
    have "(\<exists>h \<in> set (node_handlers n m'). matches (versions h) ver)
        \<longleftrightarrow> (\<exists>hs. (m', hs) \<in> set (methods n) \<and> (\<exists>h \<in> set hs. matches (versions h) ver))" for m'
      unfolding bt_map_of_iff[OF assms(3), symmetric]
      by (cases "map_of (methods n) m'") (simp_all add: node_handlers_def)
    then show ?thesis
      by (simp add: list_ex_iff find_handler_None_iff Bex_def)
  qed
  obtain e' where "add_allow_headers H (bt_keys (methods n))
        (for_client_error None (ClientErrorStatusCode 405) ''Method Not Allowed'') = Inr e'"
      "status_code e' = ErrorStatusCode 405" "error_headers e' ''allow'' = bt_keys (methods n)"
    using add_allow_headers_ok[of H "bt_keys (methods n)"
        "for_client_error None (ClientErrorStatusCode 405) ''Method Not Allowed''"] assms(1,2)
    by (auto simp: http_lib_documented_def error_of_client_def error_headers_def)
  then show ?thesis
    using None any
    by (auto simp: select_handler_def node_handlers_def for_client_error_with_status_def ok_or_def)
qed


text \<open>The methods of a node are those of the endpoints in its handler lists.\<close>

lemma node_at_wf: "node_wf V n \<Longrightarrow> node_at t n = Some c \<Longrightarrow> \<exists>W. node_wf W c"
proof (induction t n arbitrary: V rule: node_at.induct)
  case (2 l t n)
  then show ?case
    by (fastforce simp: node_wf_edges split: option.splits http_router_edges.splits
        dest: map_of_SomeD)
next
  case (3 v t n)
  then show ?case
    by (fastforce simp: node_wf_edges split: option.splits http_router_edges.splits if_splits)
next
  case (4 v t n)
  then show ?case
    by (fastforce simp: node_wf_edges split: option.splits http_router_edges.splits if_splits)
qed auto

lemma methods_of_handlers:
  assumes "methods_wf (methods n)" "k \<in> set (bt_keys (methods n))"
  shows "\<exists>h \<in> set (node_handlers n k). to_upper (method h) = k"
proof -
  obtain hs where hs: "(k, hs) \<in> set (methods n)" using assms(2) by auto
  have "bt_wf (methods n)" using assms(1) by (simp add: methods_wf_def)
  then have "node_handlers n k = hs"
    using hs by (simp add: node_handlers_def bt_map_of_iff[symmetric])
  moreover have "hs \<noteq> [] \<and> (\<forall>h \<in> set hs. to_upper (method h) = k)"
    using assms(1) hs by (auto simp: methods_wf_def)
  ultimately show ?thesis by (metis list.set_intros(1) neq_Nil_conv)
qed

definition registered :: "('h, 'g, 'v) api_endpoint http_router \<Rightarrow> ('h, 'g, 'v) api_endpoint set" where
  "registered r = {e. \<exists>t m. e \<in> set (handlers_at (root r) t m)}"

text \<open>What a request path leads to in a router, as an entry of the route table.\<close>

definition routes_to ::
  "'e http_router \<Rightarrow> string list \<Rightarrow> path_segment list \<Rightarrow> (string \<times> variable_value) list \<Rightarrow> bool" where
  "routes_to r ss t bs \<longleftrightarrow>
    (\<exists>c. node_at t (root r) = Some c \<and> \<not> has_rest_edge c) \<and> match_template t ss = Some bs"

lemma registered_insert:
  assumes "router_wf r" "router_insert e r = Inr r'"
  shows "registered r' = insert e (registered r)"
proof -
  obtain t where tab: "\<And>t' m. handlers_at (root r') t' m = handlers_at (root r) t' m
      @ (if t' = t \<and> m = to_upper (method e) then [e] else [])"
    using router_insert_table[OF assms] by blast
  show ?thesis unfolding registered_def tab by (auto split: if_splits)
qed

lemma route_table_registered:
  assumes "router_reachable r"
  shows "e \<in> set (route_table r k) \<longleftrightarrow> e \<in> registered r \<and> endpoint_key e = Some k"
  using assms
proof (induction arbitrary: e rule: router_reachable.induct)
  case new
  show ?case unfolding registry.tab_none by (simp add: registered_def router_new_def)
next
  case (ins r e' r')
  then show ?case
    using registry.tab_ins[OF reachable_wf[OF ins(1)] ins(2), of k] registered_insert[OF reachable_wf[OF ins(1)] ins(2)]
    by auto
qed

lemma routes_to_resolves:
  "(\<exists>t. routes_to r ss t bs \<and> node_at t (root r) = Some c) \<longleftrightarrow> resolves (root r) ss c bs"
  by (auto simp: routes_to_def resolves_def)

lemma walk_routes:
  assumes "router_wf r" "routes_to r ss t bs"
  obtains c where "node_at t (root r) = Some c" "\<And>m. handlers_at (root r) t m = node_handlers c m"
    "walk (root r) [] ss = Inr (Some (c, fold (\<lambda>(k, v). bt_insert k v) bs []))"
    "map_of (fold (\<lambda>(k, v). bt_insert k v) bs []) = map_of bs"
proof -
  obtain c where c: "node_at t (root r) = Some c" "\<not> has_rest_edge c" "match_template t ss = Some bs"
    using assms(2) by (auto simp: routes_to_def)
  have wf: "node_wf {} (root r)" using assms(1) by (simp add: router_wf_def)
  have "resolves (root r) ss c bs" using c by (auto simp: resolves_def)
  then have "walk (root r) [] ss = Inr (Some (c, fold (\<lambda>(k, v). bt_insert k v) bs []))"
    using walk_Some_iff[OF wf] by blast
  moreover have "distinct (map fst bs)"
    using node_at_vars_distinct[OF wf c(1)] match_template_vars[OF c(3)] by simp
  ultimately show thesis
    using that c(1) by (auto simp: handlers_at_def bindings_lookup)
qed

lemma walk_no_route:
  assumes "router_wf r" "\<nexists>t bs. routes_to r ss t bs"
  shows "walk (root r) [] ss = Inr None"
proof -
  have "node_wf {} (root r)" using assms(1) by (simp add: router_wf_def)
  moreover have "\<not> resolves (root r) ss c bs" for c bs
    using assms(2) by (auto simp: routes_to_def resolves_def)
  ultimately show ?thesis using walk_None_iff by blast
qed

definition methods_printable :: "http_lib \<Rightarrow> ('h, 'g, 'v) api_endpoint http_router \<Rightarrow> bool" where
  "methods_printable H r \<longleftrightarrow> (\<forall>e \<in> registered r. header_value_ok H (to_upper (method e)))"

lemma methods_printable_node:
  assumes "router_wf r" "methods_printable H r" "node_at t (root r) = Some c"
  shows "list_all (header_value_ok H) (bt_keys (methods c)) \<and> bt_wf (methods c)"
proof -
  have wf: "methods_wf (methods c)"
    using assms(1,3) node_at_wf node_wf_handlers unfolding router_wf_def by metis
  have "header_value_ok H k" if k: "k \<in> set (bt_keys (methods c))" for k
  proof -
    obtain h where "h \<in> set (node_handlers c k)" "to_upper (method h) = k"
      using methods_of_handlers[OF wf k] by blast
    moreover from this have "h \<in> registered r"
      using assms(3) by (auto simp: registered_def handlers_at_def intro!: exI[of _ t] exI[of _ k])
    ultimately show ?thesis using assms(2) by (auto simp: methods_printable_def)
  qed
  then show ?thesis using wf by (simp add: list_all_iff methods_wf_def)
qed


lemma node_methods_iff:
  assumes "methods_wf (methods n)"
  shows "k \<in> set (bt_keys (methods n)) \<longleftrightarrow> node_handlers n k \<noteq> []"
proof
  assume "k \<in> set (bt_keys (methods n))"
  then show "node_handlers n k \<noteq> []"
    using methods_of_handlers[OF assms] by fastforce
next
  assume "node_handlers n k \<noteq> []"
  then show "k \<in> set (bt_keys (methods n))"
    by (auto simp: node_handlers_def split: option.splits dest!: map_of_SomeD intro: rev_image_eqI)
qed

text \<open>Concrete endpoints and a concrete library, for the instances below.\<close>

definition sample_endpoint ::
  "string \<Rightarrow> string \<Rightarrow> string \<Rightarrow> nat api_endpoint_versions \<Rightarrow> (string, unit, nat) api_endpoint" where
  "sample_endpoint h m p vs =
    \<lparr> operation_id = h, handler = h, method = m, path = p, parameters = [],
      body_content_type = Json, request_body_max_bytes = None,
      ep_response = api_endpoint_response_default, ep_error = None, summary = None,
      description = None, tags = [], extension_mode = ModeNone, visible = True,
      deprecated = False, versions = vs \<rparr>"

definition sample_lib :: http_lib where
  "sample_lib = \<lparr> parse_header_name = Some, header_value_ok = (\<lambda>_. True), headers_full = (\<lambda>_. False) \<rparr>"

definition sample_router :: "(string, unit, nat) api_endpoint http_router" where
  "sample_router =
    (case rbind (router_insert (sample_endpoint ''h1'' ''GET'' ''/a/{x}'' (From 2)) router_new)
           (router_insert (sample_endpoint ''h2'' ''PUT'' ''/a/{x}'' (Until 2))) of
       Inr r \<Rightarrow> r | Inl _ \<Rightarrow> router_new)"

lemma sample_router_value:
  "sample_router = \<lparr> root = HttpRouterNode [] (Some (Literals [(''a'',
      HttpRouterNode [] (Some (VariableSingle ''x'' (HttpRouterNode
        [(''GET'', [sample_endpoint ''h1'' ''GET'' ''/a/{x}'' (From 2)]),
         (''PUT'', [sample_endpoint ''h2'' ''PUT'' ''/a/{x}'' (Until 2)])] None))))])),
      has_versioned_routes = True \<rparr>"
  by code_simp


lemma sample_router_inserts:
  "\<exists>r1. router_insert (sample_endpoint ''h1'' ''GET'' ''/a/{x}'' (From 2)) router_new = Inr r1
    \<and> router_insert (sample_endpoint ''h2'' ''PUT'' ''/a/{x}'' (Until 2)) r1 = Inr sample_router"
proof -
  have "is_ok (rbind (router_insert (sample_endpoint ''h1'' ''GET'' ''/a/{x}'' (From 2)) router_new)
           (router_insert (sample_endpoint ''h2'' ''PUT'' ''/a/{x}'' (Until 2))))"
    by code_simp
  then obtain r1 r2 where "router_insert (sample_endpoint ''h1'' ''GET'' ''/a/{x}'' (From 2)) router_new = Inr r1"
      "router_insert (sample_endpoint ''h2'' ''PUT'' ''/a/{x}'' (Until 2)) r1 = Inr r2"
    by (auto simp: is_ok_iff rbind_simps)
  then show ?thesis by (simp add: sample_router_def)
qed

lemma sample_router_reachable: "router_reachable sample_router"
  using sample_router_inserts router_reachable.new router_reachable.ins by metis

lemma sample_registered:
  assumes "e \<in> registered sample_router"
  shows "versions_wf (versions e) \<and> \<not> single_version (versions e)"
proof -
  let ?es = "[sample_endpoint ''h1'' ''GET'' ''/a/{x}'' (From 2), sample_endpoint ''h2'' ''PUT'' ''/a/{x}'' (Until 2)]"
  have "registry.ins_all ?es router_new = Inr sample_router"
    using sample_router_inserts by auto
  note tab = registry.registered_exactly[OF this]
  obtain k where "e \<in> set (route_table sample_router k)"
    using assms by (auto simp: registered_def route_table_def)
  then have "e \<in> set ?es"
    unfolding tab by (rule filter_is_subset[THEN subsetD])
  then show ?thesis by (auto simp: sample_endpoint_def)
qed

lemma sample_lib_documented: "http_lib_documented sample_lib" "methods_printable sample_lib r"
  by (simp_all add: http_lib_documented_def methods_printable_def sample_lib_def)

lemma sample_routes_to:
  "routes_to sample_router [''a'', ''5''] [Literal ''a'', VarnameSegment ''x''] [(''x'', VString ''5'')]"
  by (simp add: routes_to_def sample_router_value)

section \<open>What an insertion leaves alone\<close>

lemma insert_at_node_at:
  "node_wf V n \<Longrightarrow> insert_at e V raws n = Inr n' \<Longrightarrow> mapM_result path_segment_from raws = Inr T \<Longrightarrow>
    node_at t n = Some c \<Longrightarrow>
    \<exists>c'. node_at t n' = Some c'
      \<and> (has_rest_edge c' \<longrightarrow> has_rest_edge c \<or> (\<exists>v. T = t @ [VarnameWildcard v]))"
proof (induction raws arbitrary: V n n' T t)
  case Nil
  then have ed: "edges n' = edges n"
    by (auto dest: add_handler_Inr)
  show ?case
  proof (cases t)
    case Nil
    then show ?thesis using Nil.prems(4) ed by (auto simp: has_rest_edge_iff)
  next
    case (Cons seg t')
    then have "node_at t n' = node_at t n" using ed by (cases seg) auto
    then show ?thesis using Nil.prems(4) by auto
  qed
next
  case (Cons raw rest)
  note wf = Cons.prems(1)
  obtain seg T' where T: "path_segment_from raw = Inr seg" "mapM_result path_segment_from rest = Inr T'"
      "T = seg # T'"
    using Cons.prems(3) by (auto simp: rbind_simps)
  have go: ?case
    if d: "node_wf W d" "insert_at e W rest d = Inr ch"
      and hit: "node_at [seg] n' = Some ch" "node_at [seg] n = Some d \<or> node_at [seg] n = None"
      and miss: "\<And>seg'. seg' \<noteq> seg \<Longrightarrow> node_at [seg'] n' = node_at [seg'] n"
      and re: "has_rest_edge n' \<Longrightarrow> has_rest_edge n \<or> (\<exists>v. T = [VarnameWildcard v])"
    for W d ch
  proof (cases t)
    case Nil
    then show ?thesis using Cons.prems(4) re by auto
  next
    case t: (Cons seg' t')
    have app: "node_at t x = Option.bind (node_at [seg'] x) (node_at t')" for x :: "('a, 'b, 'c) api_endpoint http_router_node"
      using node_at_append[of "[seg']" t' x] t by simp
    show ?thesis
    proof (cases "seg' = seg")
      case True
      then have "node_at t' d = Some c" "node_at t n' = node_at t' ch"
        using hit Cons.prems(4) app by (auto split: Option.bind_splits)
      then show ?thesis
        using Cons.IH[OF d T(2)] t True T(3) by auto
    next
      case False
      then show ?thesis using miss app Cons.prems(4) by auto
    qed
  qed
  from Cons.prems(2) show ?case
  proof (cases rule: insert_at_Cons_cases)
    case (lit l m ch)
    have m: "bt_wf m" "\<forall>(k, x) \<in> set m. node_wf V x"
      using lit(2) wf by (auto simp: node_wf_edges)
    have seg: "seg = Literal l" using T(1) lit(1) by simp
    show ?thesis
    proof (rule go[OF _ lit(3)])
      show "node_wf V (case map_of m l of None \<Rightarrow> node_new | Some x \<Rightarrow> x)"
        using m by (auto split: option.split dest: map_of_SomeD)
      show "node_at [seg'] n' = node_at [seg'] n" if "seg' \<noteq> seg" for seg'
        using that lit(2,4) m seg by (cases seg') (auto split: option.split)
      show "node_at [seg] n = Some (case map_of m l of None \<Rightarrow> node_new | Some x \<Rightarrow> x)
          \<or> node_at [seg] n = None"
        using lit(2) seg by (auto split: option.split)
    qed (use lit(2,4) m seg in \<open>auto simp: has_rest_edge_iff\<close>)
  next
    case (single v d ch)
    have seg: "seg = VarnameSegment v" using T(1) single(1) by simp
    show ?thesis
    proof (rule go[OF _ single(4)])
      show "node_wf (insert v V) d"
        using single(3) wf by (auto simp: node_wf_edges)
      show "node_at [seg'] n' = node_at [seg'] n" if "seg' \<noteq> seg" for seg'
        using that single(3,5) seg by (cases seg') auto
    qed (use single(3,5) seg in \<open>auto simp: has_rest_edge_iff\<close>)
  next
    case (rest v d ch)
    have seg: "seg = VarnameWildcard v" using T(1) rest(1) by simp
    show ?thesis
    proof (rule go[OF _ rest(5)])
      show "node_wf (insert v V) d"
        using rest(4) wf by (auto simp: node_wf_edges)
      show "node_at [seg'] n' = node_at [seg'] n" if "seg' \<noteq> seg" for seg'
        using that rest(4,6) seg by (cases seg') auto
      show "has_rest_edge n \<or> (\<exists>v. T = [VarnameWildcard v])"
        using T rest(3) seg by simp
    qed (use rest(4,6) seg in auto)
  qed
qed

lemma router_insert_routes_to:
  assumes "router_wf r" "router_insert e r = Inr r'" "template_of (path e) = Inr T"
    and "routes_to r ss t bs" "\<nexists>v. T = t @ [VarnameWildcard v]"
  shows "routes_to r' ss t bs"
proof -
  obtain raws where raws: "route_path_to_segments (path e) = Inr raws"
      "insert_at e {} raws (root r) = Inr (root r')" "mapM_result path_segment_from raws = Inr T"
    using assms(2,3) by (auto simp: router_insert_def template_of_def rbind_simps)
  obtain c where "node_at t (root r) = Some c" "\<not> has_rest_edge c" "match_template t ss = Some bs"
    using assms(4) by (auto simp: routes_to_def)
  moreover from this obtain c' where "node_at t (root r') = Some c'" "\<not> has_rest_edge c'"
    using insert_at_node_at[OF _ raws(2,3), of t c] assms(1,5) by (auto simp: router_wf_def)
  ultimately show ?thesis by (auto simp: routes_to_def)
qed

lemma find_append: "find P (xs @ ys) = (case find P xs of Some x \<Rightarrow> Some x | None \<Rightarrow> find P ys)"
  by (induction xs) auto

lemma find_handler_append:
  "find_handler_matching_version xs ver = Some h \<Longrightarrow> find_handler_matching_version (xs @ ys) ver = Some h"
  by (simp add: find_handler_matching_version_def find_append)

lemma select_handler_Some:
  "find_handler_matching_version (node_handlers n (to_upper m)) ver = Some h \<Longrightarrow>
    select_handler H shw n vs m ver =
      Inr (Inr \<lparr> lr_handler = handler h,
                 lr_endpoint = \<lparr> rem_operation_id = operation_id h, rem_variables = vs,
                   rem_body_content_type = body_content_type h,
                   rem_request_body_max_bytes = request_body_max_bytes h \<rparr> \<rparr>)"
  by (simp add: select_handler_def node_handlers_def)

lemma select_handler_Inr:
  assumes "select_handler H shw n vs m ver = Inr (Inr res)"
  shows "\<exists>h. find_handler_matching_version (node_handlers n (to_upper m)) ver = Some h
    \<and> lr_handler res = handler h"
  using assms
  by (auto simp: select_handler_def node_handlers_def[symmetric] rbind_simps split: option.splits if_splits)

lemma lookup_route_Inr_cases:
  assumes "router_wf r" "input_path_to_segments decode p = Inr ss"
    and "lookup_route H decode shw r m p ver = Inr (Inr res)"
  obtains t bs h where "routes_to r ss t bs"
    "find_handler_matching_version (route_table r (t, to_upper m)) ver = Some h"
    "lr_handler res = handler h"
proof -
  have "\<exists>t bs. routes_to r ss t bs"
    using walk_no_route[OF assms(1), of ss] assms(3)
    by (cases "\<exists>t bs. routes_to r ss t bs") (auto simp: lookup_route_segments[OF assms(2)])
  then obtain t bs where t: "routes_to r ss t bs" by blast
  from walk_routes[OF assms(1) t] obtain c where c: "\<And>m. handlers_at (root r) t m = node_handlers c m"
      "walk (root r) [] ss = Inr (Some (c, fold (\<lambda>(k, v). bt_insert k v) bs []))"
    by metis
  then have "select_handler H shw c (fold (\<lambda>(k, v). bt_insert k v) bs []) m ver = Inr (Inr res)"
    using assms(3) by (simp add: lookup_route_segments[OF assms(2)])
  from select_handler_Inr[OF this] show thesis
    using that[OF t] c(1) by (auto simp: route_table_def)
qed

lemma match_template_append_wildcard:
  assumes "node_at t n = Some c" "edges c \<noteq> None" "match_template t ss = Some bs"
    and "node_wf V n"
  shows "match_template (t @ [VarnameWildcard v]) ss = Some (bs @ [(v, Components [])])"
  using assms
proof (induction t arbitrary: n V ss bs)
  case Nil
  then show ?case by (cases ss) (auto simp: match_template_Cons_iff)
next
  case (Cons seg t)
  show ?case
  proof (cases ss)
    case Nil
    then obtain v' where "seg = VarnameWildcard v'" "t = []"
      using Cons.prems(3) by (auto simp: match_template_Nil_iff)
    then show ?thesis
      using Cons.prems(1,2,4)
      by (auto simp: node_wf_edges split: option.splits http_router_edges.splits if_splits)
  next
    case ss: (Cons s ss')
    show ?thesis
    proof (cases seg)
      case (Literal l)
      then obtain m d where "edges n = Some (Literals m)" "map_of m l = Some d" "node_at t d = Some c"
        using Cons.prems(1) by (auto split: option.splits http_router_edges.splits)
      moreover from this have "node_wf V d"
        using Cons.prems(4) by (auto simp: node_wf_edges dest: map_of_SomeD)
      ultimately show ?thesis
        using Cons.IH[of d ss' bs V] Cons.prems(2,3) ss Literal
        by (auto split: if_splits)
    next
      case (VarnameSegment w)
      then obtain d where "edges n = Some (VariableSingle w d)" "node_at t d = Some c"
        using Cons.prems(1) by (auto split: option.splits http_router_edges.splits if_splits)
      moreover from this have "node_wf (insert w V) d"
        using Cons.prems(4) by (auto simp: node_wf_edges)
      moreover obtain bs' where "match_template t ss' = Some bs'" "bs = (w, VString s) # bs'"
        using Cons.prems(3) ss VarnameSegment by auto
      ultimately show ?thesis
        using Cons.IH[of d ss' bs' "insert w V"] Cons.prems(2) ss VarnameSegment by auto
    next
      case (VarnameWildcard w)
      then have "t = []" using Cons.prems(3) ss by (auto simp: match_template_Cons_iff)
      then show ?thesis
        using Cons.prems(1,2,4) VarnameWildcard
        by (auto simp: node_wf_edges split: option.splits http_router_edges.splits if_splits)
    qed
  qed
qed

section \<open>Lookup over the route table\<close>

lemma lookup_route_cases:
  assumes "router_reachable r" "http_lib_documented H" "methods_printable H r"
    and "input_path_to_segments decode p = Inr ss" "routes_to r ss t bs"
  shows "case find_handler_matching_version (route_table r (t, to_upper m)) ver of
      Some h \<Rightarrow> \<exists>res. lookup_route H decode shw r m p ver = Inr (Inr res)
        \<and> lr_handler res = handler h
        \<and> rem_operation_id (lr_endpoint res) = operation_id h
        \<and> map_of (rem_variables (lr_endpoint res)) = map_of bs
        \<and> rem_body_content_type (lr_endpoint res) = body_content_type h
        \<and> rem_request_body_max_bytes (lr_endpoint res) = request_body_max_bytes h
    | None \<Rightarrow> \<exists>err. lookup_route H decode shw r m p ver = Inr (Inl err)
        \<and> (if \<exists>m'. \<exists>h \<in> set (route_table r (t, m')). matches (versions h) ver
           then as_status (status_code err) = 405
             \<and> set (error_headers err ''allow'') = {m'. route_table r (t, m') \<noteq> []}
           else as_status (status_code err) = 404)"
proof -
  note wf = reachable_wf[OF assms(1)]
  obtain c where c: "node_at t (root r) = Some c"
      "\<And>m. handlers_at (root r) t m = node_handlers c m"
      "walk (root r) [] ss = Inr (Some (c, fold (\<lambda>(k, v). bt_insert k v) bs []))"
      "map_of (fold (\<lambda>(k, v). bt_insert k v) bs []) = map_of bs"
    using walk_routes[OF wf assms(5)] by blast
  have tab: "route_table r (t, m') = node_handlers c m'" for m'
    using c(2) by (simp add: route_table_def)
  have "methods_wf (methods c)"
    using c(1) wf node_at_wf node_wf_handlers unfolding router_wf_def by metis
  then have keys: "set (bt_keys (methods c)) = {m'. node_handlers c m' \<noteq> []}"
    using node_methods_iff by blast
  have look: "lookup_route H decode shw r m p ver
      = select_handler H shw c (fold (\<lambda>(k, v). bt_insert k v) bs []) m ver"
    using c(3) by (simp add: lookup_route_segments[OF assms(4)])
  have pr: "list_all (header_value_ok H) (bt_keys (methods c))" "bt_wf (methods c)"
    using methods_printable_node[OF wf assms(3) c(1)] by auto
  show ?thesis
    using select_handler_cases[OF assms(2) pr, where m = m and ver = ver and shw = shw
        and vs = "fold (\<lambda>(k, v). bt_insert k v) bs []"]
      c(4) keys
    unfolding tab look by (auto split: option.splits if_splits)
qed

lemma route_table_sorted:
  assumes "router_wf r"
  shows "sorted_wrt (\<lambda>a b. \<not> overlaps_with (versions a) (versions b)) (route_table r k)"
proof (cases "node_at (fst k) (root r)")
  case (Some c)
  then have "methods_wf (methods c)"
    using assms node_at_wf node_wf_handlers unfolding router_wf_def by metis
  then show ?thesis
    using Some
    by (auto simp: route_table_def handlers_at_def node_handlers_def methods_wf_def
        split: option.split dest!: map_of_SomeD)
qed (simp add: route_table_def handlers_at_def)

section \<open>Properties of registration\<close>

text \<open>C11. The router's invariant holds of every router that registration builds: sorted
  maps, no empty handler list, pairwise non-overlapping version ranges per method, handlers
  filed under their upper-case method, no variable name twice on a path, and nothing below
  a wildcard.\<close>

theorem reachable_router_wf:
  assumes "router_reachable r"
  shows "router_wf r"
  using assms by (rule reachable_wf)

theorem reachable_router_wf_witness: "router_wf sample_router"
  by (rule reachable_router_wf) (rule sample_router_reachable)

text \<open>C2. Insertion refines an update of the route table: the endpoint is appended to the
  entry of its own template and upper-case method, and every other entry stays as it is.\<close>

theorem router_insert_refines:
  assumes "router_reachable r" "router_insert e r = Inr r'"
  shows "\<exists>t. template_of (path e) = Inr t
    \<and> route_table r' = (route_table r)((t, to_upper (method e)) :=
        route_table r (t, to_upper (method e)) @ [e])"
proof -
  obtain t where t: "template_of (path e) = Inr t" and
    tab: "\<And>t' m. handlers_at (root r') t' m = handlers_at (root r) t' m
              @ (if t' = t \<and> m = to_upper (method e) then [e] else [])"
    using router_insert_table[OF reachable_wf[OF assms(1)] assms(2)] by blast
  have "route_table r' k = ((route_table r)((t, to_upper (method e)) :=
        route_table r (t, to_upper (method e)) @ [e])) k" for k
    using tab[of "fst k" "snd k"] by (cases k) (auto simp: route_table_def)
  with t show ?thesis by blast
qed

theorem router_insert_refines_witness:
  "\<exists>r' t. router_insert (sample_endpoint ''h3'' ''get'' ''/a/{x}/b'' All) sample_router = Inr r'
    \<and> template_of ''/a/{x}/b'' = Inr t
    \<and> route_table r' = (route_table sample_router)((t, ''GET'') :=
        route_table sample_router (t, ''GET'') @ [sample_endpoint ''h3'' ''get'' ''/a/{x}/b'' All])"
proof -
  have "is_ok (router_insert (sample_endpoint ''h3'' ''get'' ''/a/{x}/b'' All) sample_router)"
    unfolding sample_router_value by code_simp
  then obtain r' where r': "router_insert (sample_endpoint ''h3'' ''get'' ''/a/{x}/b'' All) sample_router = Inr r'"
    by (auto simp: is_ok_iff)
  have *: "path (sample_endpoint ''h3'' ''get'' ''/a/{x}/b'' All) = ''/a/{x}/b''"
    "to_upper (method (sample_endpoint ''h3'' ''get'' ''/a/{x}/b'' All)) = ''GET''"
    by code_simp+
  show ?thesis
    using r' router_insert_refines[OF sample_router_reachable r'] unfolding * by blast
qed

text \<open>After registering a list of endpoints, the handlers of a template and method are
  exactly the endpoints of the list with that template and method, in order.\<close>

theorem registered_in_order:
  assumes "registry.ins_all es router_new = Inr r"
  shows "route_table r k = filter (\<lambda>e. endpoint_key e = Some k) es"
  using assms by (rule registry.registered_exactly)

theorem registered_in_order_witness:
  "\<exists>r. registry.ins_all [sample_endpoint ''h1'' ''GET'' ''/a'' All] router_new = Inr r
    \<and> route_table r ([Literal ''a''], ''GET'')
      = filter (\<lambda>e. endpoint_key e = Some ([Literal ''a''], ''GET''))
          [sample_endpoint ''h1'' ''GET'' ''/a'' All]"
proof -
  have "is_ok (router_insert (sample_endpoint ''h1'' ''GET'' ''/a'' All) router_new)"
    by code_simp
  then obtain r where "router_insert (sample_endpoint ''h1'' ''GET'' ''/a'' All) router_new = Inr r"
    by (auto simp: is_ok_iff)
  then have "registry.ins_all [sample_endpoint ''h1'' ''GET'' ''/a'' All] router_new = Inr r"
    by simp
  then show ?thesis
    using registered_in_order[of "[sample_endpoint ''h1'' ''GET'' ''/a'' All]" r] by blast
qed

section \<open>Properties of lookup\<close>

text \<open>C1. What a request reaches.  When the decoded path leads to a template, the first
  handler registered for it under the request's method whose range contains the version
  is returned, with the template's variables bound to the path's segments; when there is
  none the answer is 405 if some other method has a handler for the version and 404 if
  none has.  The Allow headers of a 405 are all methods that have a handler for the
  template, for whatever version.\<close>

theorem lookup_route_spec:
  assumes "router_reachable r" "http_lib_documented H" "methods_printable H r"
    and "input_path_to_segments decode p = Inr ss" "routes_to r ss t bs"
  shows "case find_handler_matching_version (route_table r (t, to_upper m)) ver of
      Some h \<Rightarrow> \<exists>res. lookup_route H decode shw r m p ver = Inr (Inr res)
        \<and> lr_handler res = handler h
        \<and> rem_operation_id (lr_endpoint res) = operation_id h
        \<and> map_of (rem_variables (lr_endpoint res)) = map_of bs
        \<and> rem_body_content_type (lr_endpoint res) = body_content_type h
        \<and> rem_request_body_max_bytes (lr_endpoint res) = request_body_max_bytes h
    | None \<Rightarrow> \<exists>err. lookup_route H decode shw r m p ver = Inr (Inl err)
        \<and> (if \<exists>m'. \<exists>h \<in> set (route_table r (t, m')). matches (versions h) ver
           then as_status (status_code err) = 405
             \<and> set (error_headers err ''allow'') = {m'. route_table r (t, m') \<noteq> []}
           else as_status (status_code err) = 404)"
  using assms by (rule lookup_route_cases)

theorem lookup_route_spec_witness:
  "case find_handler_matching_version
          (route_table sample_router ([Literal ''a'', VarnameSegment ''x''], to_upper ''get'')) (Some 2) of
      Some h \<Rightarrow> \<exists>res. lookup_route sample_lib Inr (\<lambda>_. ''v'') sample_router ''get'' ''//a/5'' (Some 2) = Inr (Inr res)
        \<and> lr_handler res = handler h
        \<and> rem_operation_id (lr_endpoint res) = operation_id h
        \<and> map_of (rem_variables (lr_endpoint res)) = map_of [(''x'', VString ''5'')]
        \<and> rem_body_content_type (lr_endpoint res) = body_content_type h
        \<and> rem_request_body_max_bytes (lr_endpoint res) = request_body_max_bytes h
    | None \<Rightarrow> \<exists>err. lookup_route sample_lib Inr (\<lambda>_. ''v'') sample_router ''get'' ''//a/5'' (Some 2) = Inr (Inl err)
        \<and> (if \<exists>m'. \<exists>h \<in> set (route_table sample_router ([Literal ''a'', VarnameSegment ''x''], m')).
                 matches (versions h) (Some 2)
           then as_status (status_code err) = 405
             \<and> set (error_headers err ''allow'')
                = {m'. route_table sample_router ([Literal ''a'', VarnameSegment ''x''], m') \<noteq> []}
           else as_status (status_code err) = 404)"
  by (rule lookup_route_spec[OF sample_router_reachable sample_lib_documented _ sample_routes_to])
     code_simp


text \<open>C12. Lookup always answers: on a router built by registration it never panics, a path
  that does not decode is a 400, and a path that no template matches is a 404.\<close>

theorem lookup_route_total:
  assumes "router_reachable r" "http_lib_documented H" "methods_printable H r"
  shows "\<exists>x. lookup_route H decode shw r m p ver = Inr x
    \<and> (\<forall>d. input_path_to_segments decode p = Inl d \<longrightarrow>
          x = Inl (for_bad_request None ''invalid path encoding''))
    \<and> (\<forall>ss. input_path_to_segments decode p = Inr ss \<longrightarrow> (\<nexists>t bs. routes_to r ss t bs) \<longrightarrow>
          x = Inl (for_not_found None ''no route found (no path in router)''))"
proof (cases "input_path_to_segments decode p")
  case (Inl d)
  then show ?thesis by (simp add: lookup_route_def)
next
  case (Inr ss)
  show ?thesis
  proof (cases "\<exists>t bs. routes_to r ss t bs")
    case True
    then obtain t bs where t: "routes_to r ss t bs" by blast
    show ?thesis
      using lookup_route_cases[OF assms Inr t, where m = m and ver = ver and shw = shw] t Inr
      by (auto split: option.splits)
  next
    case False
    then show ?thesis
      using walk_no_route[OF reachable_wf[OF assms(1)]] Inr
      by (simp add: lookup_route_segments[OF Inr])
  qed
qed

theorem lookup_route_total_witness:
  "\<exists>x. lookup_route sample_lib Inr (\<lambda>_. ''v'') sample_router ''GET'' ''/b'' (Some (2::nat)) = Inr x
    \<and> (\<forall>d. input_path_to_segments Inr ''/b'' = Inl d \<longrightarrow>
          x = Inl (for_bad_request None ''invalid path encoding''))
    \<and> (\<forall>ss. input_path_to_segments Inr ''/b'' = Inr ss \<longrightarrow> (\<nexists>t bs. routes_to sample_router ss t bs) \<longrightarrow>
          x = Inl (for_not_found None ''no route found (no path in router)''))"
  by (rule lookup_route_total[OF sample_router_reachable sample_lib_documented])

text \<open>Routing by version is unambiguous: when no registered range is a single
  version, at most one handler of a template and method accepts any given version.\<close>

theorem handler_unique:
  assumes "router_reachable r"
    and "\<forall>e \<in> registered r. versions_wf (versions e) \<and> \<not> single_version (versions e)"
    and "h1 \<in> set (route_table r k)" "h2 \<in> set (route_table r k)"
    and "matches (versions h1) (Some v)" "matches (versions h2) (Some v)"
  shows "h1 = h2"
proof -
  have "sorted_wrt (\<lambda>a b. \<not> overlaps_with (versions a) (versions b)) (route_table r k)"
    using route_table_sorted[OF reachable_wf[OF assms(1)]] .
  moreover have "\<forall>e \<in> set (route_table r k). versions_wf (versions e) \<and> \<not> single_version (versions e)"
    using assms(2) by (auto simp: registered_def route_table_def)
  ultimately show ?thesis
    using ranges.unique_match[of versions "route_table r k" h1 h2 v] assms(3-) by blast
qed

theorem handler_unique_witness:
  "hd (route_table sample_router ([Literal ''a'', VarnameSegment ''x''], ''GET''))
    = last (route_table sample_router ([Literal ''a'', VarnameSegment ''x''], ''GET''))"
proof (rule handler_unique[OF sample_router_reachable, where v = 3
    and k = "([Literal ''a'', VarnameSegment ''x''], ''GET'')"])
  show "\<forall>e \<in> registered sample_router. versions_wf (versions e) \<and> \<not> single_version (versions e)"
    using sample_registered by blast
qed (simp_all add: route_table_def handlers_at_def node_handlers_def sample_router_value,
     simp_all add: sample_endpoint_def)




text \<open>C10. Registering one more endpoint does not change what an existing route answers: a
  request that was served keeps its handler and its variables, unless the new endpoint
  is a wildcard directly below the template that the request leads to.\<close>

theorem insert_preserves_lookup:
  assumes "router_reachable r" "router_insert e r = Inr r'" "template_of (path e) = Inr T"
    and "input_path_to_segments decode p = Inr ss" "lookup_route H decode shw r m p ver = Inr (Inr res)"
    and "\<forall>t bs v. routes_to r ss t bs \<longrightarrow> T \<noteq> t @ [VarnameWildcard v]"
  shows "lookup_route H decode shw r' m p ver = Inr (Inr res)"
proof -
  note wf = reachable_wf[OF assms(1)] and wf' = reachable_wf[OF router_reachable.ins[OF assms(1,2)]]
  obtain t bs h where t: "routes_to r ss t bs"
      and h: "find_handler_matching_version (route_table r (t, to_upper m)) ver = Some h"
    using lookup_route_Inr_cases[OF wf assms(4,5)] by blast
  have t': "routes_to r' ss t bs"
    using router_insert_routes_to[OF wf assms(2,3) t] assms(6) t by blast
  have h': "find_handler_matching_version (route_table r' (t, to_upper m)) ver = Some h"
    using registry.tab_ins[OF wf assms(2), of "(t, to_upper m)"] find_handler_append[OF h] by simp
  have look: "lookup_route H decode shw x m p ver =
      Inr (Inr \<lparr> lr_handler = handler h,
                 lr_endpoint = \<lparr> rem_operation_id = operation_id h,
                   rem_variables = fold (\<lambda>(k, v). bt_insert k v) bs [],
                   rem_body_content_type = body_content_type h,
                   rem_request_body_max_bytes = request_body_max_bytes h \<rparr> \<rparr>)"
    if x: "router_wf x" "routes_to x ss t bs"
      "find_handler_matching_version (route_table x (t, to_upper m)) ver = Some h" for x
  proof -
    from walk_routes[OF x(1,2)] obtain c where "\<And>m. handlers_at (root x) t m = node_handlers c m"
        "walk (root x) [] ss = Inr (Some (c, fold (\<lambda>(k, v). bt_insert k v) bs []))"
      by metis
    then show ?thesis
      using x(3) select_handler_Some[of c m ver h]
      by (simp add: lookup_route_segments[OF assms(4)] route_table_def)
  qed
  show ?thesis
    using look[OF wf t h] look[OF wf' t' h'] assms(5) by simp
qed

theorem insert_preserves_lookup_witness:
  "\<exists>r' res. router_insert (sample_endpoint ''h3'' ''GET'' ''/b'' All) sample_router = Inr r'
    \<and> lookup_route sample_lib Inr (\<lambda>_. ''v'') sample_router ''GET'' ''/a/5'' (Some 2) = Inr (Inr res)
    \<and> lookup_route sample_lib Inr (\<lambda>_. ''v'') r' ''GET'' ''/a/5'' (Some 2) = Inr (Inr res)"
proof -
  let ?e = "sample_endpoint ''h3'' ''GET'' ''/b'' All"
  have "is_ok (router_insert ?e sample_router)"
    unfolding sample_router_value by code_simp
  then obtain r' where r': "router_insert ?e sample_router = Inr r'"
    by (auto simp: is_ok_iff)
  have t: "template_of (path ?e) = Inr [Literal ''b'']" by code_simp
  have seg: "input_path_to_segments Inr ''/a/5'' = Inr [''a'', ''5'']" by code_simp
  have "\<exists>res. lookup_route sample_lib Inr (\<lambda>_. ''v'') sample_router ''GET'' ''/a/5'' (Some 2) = Inr (Inr res)"
    using lookup_route_cases[OF sample_router_reachable sample_lib_documented seg sample_routes_to,
        where m = "''GET''" and ver = "Some 2" and shw = "\<lambda>_. ''v''"]
    by (auto simp: route_table_def handlers_at_def node_handlers_def sample_router_value
        find_handler_matching_version_def ascii_upper_def sample_endpoint_def)
  then obtain res where res:
    "lookup_route sample_lib Inr (\<lambda>_. ''v'') sample_router ''GET'' ''/a/5'' (Some 2) = Inr (Inr res)"
    by blast
  have "t = []" if "[Literal ''b''] = t @ [VarnameWildcard v]" for t v
    using that by (cases t) auto
  then have "\<forall>t bs v. routes_to sample_router [''a'', ''5''] t bs \<longrightarrow> [Literal ''b''] \<noteq> t @ [VarnameWildcard v]"
    by (metis append_Nil list.inject path_segment.distinct(3))
  then show ?thesis
    using insert_preserves_lookup[OF sample_router_reachable r' t seg res] r' res by blast
qed

text \<open>The exception of the previous property is real: once a wildcard is registered
  directly below a template, no request ever reaches the handlers of the template itself;
  a path that matches the template exactly is given to the wildcard.\<close>

theorem wildcard_shadows_parent:
  assumes "router_reachable r" "route_table r (t @ [VarnameWildcard v], m0) \<noteq> []"
    and "input_path_to_segments decode p = Inr ss" "match_template t ss = Some bs"
    and "lookup_route H decode shw r m p ver = Inr (Inr res)"
  shows "\<exists>h \<in> set (route_table r (t @ [VarnameWildcard v], to_upper m)). lr_handler res = handler h"
proof -
  note wf = reachable_wf[OF assms(1)]
  obtain c where c: "node_at (t @ [VarnameWildcard v]) (root r) = Some c"
    using assms(2) by (auto simp: route_table_def handlers_at_def split: option.splits)
  then obtain n where n: "node_at t (root r) = Some n" "edges n = Some (VariableRest v c)"
    by (auto simp: node_at_append split: Option.bind_splits option.splits
        http_router_edges.splits if_splits)
  obtain W where W: "node_wf W n" using node_at_wf n(1) wf unfolding router_wf_def by metis
  then have leaf: "edges c = None" using n(2) by (simp add: node_wf_edges)
  have "routes_to r ss (t @ [VarnameWildcard v]) (bs @ [(v, Components [])])"
    using c leaf match_template_append_wildcard[OF n(1) _ assms(4) wf[unfolded router_wf_def]] n(2)
    by (simp add: routes_to_def has_rest_edge_iff)
  from walk_routes[OF wf this] obtain d where
      d: "\<And>m. handlers_at (root r) (t @ [VarnameWildcard v]) m = node_handlers d m"
        "walk (root r) [] ss = Inr (Some (d, fold (\<lambda>(k, v). bt_insert k v) (bs @ [(v, Components [])]) []))"
    by metis
  then have "select_handler H shw d
      (fold (\<lambda>(k, v). bt_insert k v) (bs @ [(v, Components [])]) []) m ver = Inr (Inr res)"
    using assms(5) by (simp add: lookup_route_segments[OF assms(3)])
  from select_handler_Inr[OF this] show ?thesis
    using find_handler_Some d(1) by (fastforce simp: route_table_def)
qed

theorem wildcard_shadows_parent_witness:
  "\<exists>r res. registry.ins_all [sample_endpoint ''exact'' ''GET'' ''/a'' All,
                              sample_endpoint ''rest'' ''GET'' ''/a/{x:.*}'' All] router_new = Inr r
    \<and> lookup_route sample_lib Inr (\<lambda>_. ''v'') r ''GET'' ''/a'' None = Inr (Inr res)
    \<and> (\<exists>h \<in> set (route_table r ([Literal ''a''] @ [VarnameWildcard ''x''], to_upper ''GET'')).
        lr_handler res = handler h)"
proof -
  let ?e1 = "sample_endpoint ''exact'' ''GET'' ''/a'' All"
    and ?e2 = "sample_endpoint ''rest'' ''GET'' ''/a/{x:.*}'' All"
  have "is_ok (rbind (router_insert ?e1 router_new) (router_insert ?e2))"
    by code_simp
  then obtain r1 r where r: "router_insert ?e1 router_new = Inr r1" "router_insert ?e2 r1 = Inr r"
    by (auto simp: is_ok_iff rbind_simps)
  then have ins: "registry.ins_all [?e1, ?e2] router_new = Inr r" by simp
  have reach: "router_reachable r"
    using r router_reachable.new router_reachable.ins by metis
  have "is_ok (rbind (rbind (router_insert ?e1 router_new) (router_insert ?e2))
      (\<lambda>r. rbind (lookup_route sample_lib Inr (\<lambda>_. ''v'') r ''GET'' ''/a'' None)
          (map_err (\<lambda>_. Panic []))))"
    by code_simp
  then obtain res where res: "lookup_route sample_lib Inr (\<lambda>_. ''v'') r ''GET'' ''/a'' None = Inr (Inr res)"
    using r by (auto simp: is_ok_iff rbind_simps)
  have "endpoint_key ?e2 = Some ([Literal ''a''] @ [VarnameWildcard ''x''], ''GET'')"
    by code_simp
  then have "?e2 \<in> set (route_table r ([Literal ''a''] @ [VarnameWildcard ''x''], ''GET''))"
    using registry.registered_exactly[OF ins] by simp
  then have ne: "route_table r ([Literal ''a''] @ [VarnameWildcard ''x''], ''GET'') \<noteq> []" by force
  have "input_path_to_segments Inr ''/a'' = Inr [''a'']" by code_simp
  then show ?thesis
    using wildcard_shadows_parent[OF reach ne _ _ res, of "[''a'']" "[]"] ins res by auto
qed

end
