(* ===== verification/Type_Util.thy ===== *)
theory Type_Util
  imports Http_Error Json_Schema "HOL-Library.Monad_Syntax"
begin

text \<open>
  \<^verbatim>\<open>type_util.rs\<close>: the checks that a parameter of an endpoint has a scalar type, or is an
  array of strings.  References are followed through the dependencies of the schema.

  \<open>type_resolve\<close> keeps the set of references it has followed, so it always returns.  The
  recursion of \<open>type_is_scalar_common\<close> through subschemas keeps none and may not end:
  it is a partial function, and not returning is the value \<^const>\<open>None\<close>.
\<close>

type_synonym dependencies = "(string \<times> schema) list"

section \<open>Following references\<close>

definition SCHEMA_PREFIX :: string where
  "SCHEMA_PREFIX = ''#/components/schemas/''"

definition dependency_refs :: "dependencies \<Rightarrow> string set" where
  "dependency_refs deps = (\<lambda>k. SCHEMA_PREFIX @ k) ` fst ` set deps"

function resolve_loop :: "dependencies \<Rightarrow> string set \<Rightarrow> schema \<Rightarrow> schema outcome" where
  "resolve_loop deps seen s =
    (case pure_reference s of
       None \<Rightarrow> Inr s
     | Some ref_schema \<Rightarrow>
         if ref_schema \<in> seen then Inl (Panic ''type reference cycle detected'')
         else if \<not> starts_with SCHEMA_PREFIX ref_schema then
           Inl (Panic ''assertion failed: ref_schema.starts_with(PREFIX)'')
         else (case map_of deps (drop (length SCHEMA_PREFIX) ref_schema) of
                 None \<Rightarrow> Inl (Panic (''invalid reference '' @ ref_schema))
               | Some s' \<Rightarrow> resolve_loop deps (insert ref_schema seen) s'))"
  by auto

lemma dependency_refs_lookup:
  "starts_with SCHEMA_PREFIX r \<Longrightarrow> map_of deps (drop (length SCHEMA_PREFIX) r) = Some s \<Longrightarrow>
    r \<in> dependency_refs deps"
  by (auto simp: dependency_refs_def starts_with_def image_iff dest!: map_of_SomeD
      intro!: bexI[of _ "(drop (length SCHEMA_PREFIX) r, s)"]) (metis append_take_drop_id)

termination resolve_loop
proof (relation "measure (\<lambda>(deps, seen, s). card (dependency_refs deps - seen))")
  fix deps :: dependencies and seen s r s'
  assume r: "r \<notin> seen" "\<not> \<not> starts_with SCHEMA_PREFIX r"
    "map_of deps (drop (length SCHEMA_PREFIX) r) = Some s'"
  have "r \<in> dependency_refs deps" using dependency_refs_lookup r by blast
  then have "dependency_refs deps - insert r seen \<subset> dependency_refs deps - seen"
    using r(1) by blast
  then have "card (dependency_refs deps - insert r seen) < card (dependency_refs deps - seen)"
    by (rule psubset_card_mono[rotated]) (simp add: dependency_refs_def)
  then show "((deps, insert r seen, s'), deps, seen, s)
      \<in> measure (\<lambda>(deps, seen, s). card (dependency_refs deps - seen))"
    by simp
qed simp

declare resolve_loop.simps [simp del]

definition type_resolve :: "schema \<Rightarrow> dependencies \<Rightarrow> schema outcome" where
  "type_resolve s deps = resolve_loop deps {} s"

section \<open>Scalar types\<close>

text \<open>A single instance type and no subschemas, array, object or reference.\<close>

fun scalar_instance :: "schema \<Rightarrow> instance_type option" where
  "scalar_instance (SObject (SchemaObject md (Some (Single t)) fmt ev cv None nv sv None None None ext))
    = Some t"
| "scalar_instance _ = None"

text \<open>The two forms of subschemas that are examined: a lone \<^verbatim>\<open>allOf\<close> or \<^verbatim>\<open>anyOf\<close> member, or
  the members of \<^verbatim>\<open>oneOf\<close>.\<close>

fun lone_member :: "subschema_validation \<Rightarrow> schema option" where
  "lone_member (SubschemaValidation (Some [s]) None None None None None None) = Some s"
| "lone_member (SubschemaValidation None (Some [s]) None None None None None) = Some s"
| "lone_member _ = None"

fun one_of_members :: "subschema_validation \<Rightarrow> schema list option" where
  "one_of_members (SubschemaValidation None None (Some ss) None None None None) = Some ss"
| "one_of_members _ = None"

text \<open>\<^verbatim>\<open>Iterator::all\<close> over checks that may panic or not return.\<close>

fun all_ok ::
  "(schema \<Rightarrow> (string, unit) result outcome option) \<Rightarrow> schema list \<Rightarrow> bool outcome option" where
  "all_ok f [] = Some (Inr True)"
| "all_ok f (s # ss) =
    Option.bind (f s) (\<lambda>r.
      (case r of
         Inl p \<Rightarrow> Some (Inl p)
       | Inr v \<Rightarrow> if is_ok v then all_ok f ss else Some (Inr False)))"

definition type_is_scalar_subschemas ::
  "(schema \<Rightarrow> (string, unit) result outcome option) \<Rightarrow> subschema_validation
    \<Rightarrow> bool outcome option" where
  "type_is_scalar_subschemas check subschemas =
    (case lone_member subschemas of
       Some s \<Rightarrow> Option.bind (check s) (\<lambda>r. Some (rbind r (\<lambda>v. Inr (is_ok v))))
     | None \<Rightarrow>
         (case one_of_members subschemas of
            Some ss \<Rightarrow> all_ok check ss
          | None \<Rightarrow> Some (Inr False)))"

text \<open>Monotonicity, for the recursion through these.\<close>

lemma all_ok_mono [partial_function_mono]:
  assumes "\<And>s. mono_option (\<lambda>f. B f s)"
  shows "mono_option (\<lambda>f. all_ok (\<lambda>s. B f s) ss)"
proof (induction ss)
  case (Cons s ss)
  have "mono_option (\<lambda>f. case r of Inl p \<Rightarrow> Some (Inl p)
      | Inr v \<Rightarrow> if is_ok v then all_ok (\<lambda>s. B f s) ss else Some (Inr False))" for r
    using Cons by (cases r) (auto simp: monotone_on_def fun_ord_def flat_ord_def)
  then show ?case
    using assms by (auto intro!: bind_mono)
qed (simp add: monotone_on_def fun_ord_def flat_ord_def)

lemma type_is_scalar_subschemas_mono [partial_function_mono]:
  assumes "\<And>s. mono_option (\<lambda>f. B f s)"
  shows "mono_option (\<lambda>f. type_is_scalar_subschemas (\<lambda>s. B f s) subschemas)"
proof (cases "lone_member subschemas")
  case None
  have "mono_option (\<lambda>f. Some (Inr False) :: bool outcome option)"
    by (simp add: monotone_on_def fun_ord_def flat_ord_def)
  then show ?thesis
    using None all_ok_mono[OF assms]
    by (cases "one_of_members subschemas") (simp_all add: type_is_scalar_subschemas_def)
next
  case (Some s)
  then show ?thesis
    by (simp add: type_is_scalar_subschemas_def)
       (rule bind_mono[OF assms], simp add: monotone_on_def fun_ord_def flat_ord_def)
qed

definition scalar_type_error :: "string \<Rightarrow> string \<Rightarrow> string" where
  "scalar_type_error operation_id name =
    ''for endpoint '' @ operation_id @ '' the parameter '' @ [CHR 0x27] @ name @ [CHR 0x27]
      @ '' must have a scalar type''"

partial_function (option) type_is_scalar_common ::
  "string \<Rightarrow> string \<Rightarrow> dependencies \<Rightarrow> (instance_type \<Rightarrow> bool) \<Rightarrow> schema
    \<Rightarrow> (string, unit) result outcome option" where
  "type_is_scalar_common operation_id name deps type_check s =
    (case type_resolve s deps of
       Inl p \<Rightarrow> Some (Inl p)
     | Inr s' \<Rightarrow>
         if (case scalar_instance s' of Some t \<Rightarrow> type_check t | None \<Rightarrow> False)
         then Some (Inr (Inr ()))
         else
           (case pure_subschemas s' of
              None \<Rightarrow> Some (Inr (Inl (scalar_type_error operation_id name)))
            | Some subschemas \<Rightarrow>
                Option.bind
                  (type_is_scalar_subschemas
                     (\<lambda>x. type_is_scalar_common operation_id name deps type_check x) subschemas)
                  (\<lambda>r. Some (rbind r (\<lambda>b. Inr
                     (if b then Inr () else Inl (scalar_type_error operation_id name)))))))"

declare type_is_scalar_common.simps [code]

definition type_is_scalar ::
  "string \<Rightarrow> string \<Rightarrow> schema \<Rightarrow> dependencies \<Rightarrow> (string, unit) result outcome option" where
  "type_is_scalar operation_id name s deps =
    type_is_scalar_common operation_id name deps
      (\<lambda>t. t \<in> {TBoolean, TNumber, TString, TInteger}) s"

definition type_is_string ::
  "string \<Rightarrow> string \<Rightarrow> schema \<Rightarrow> dependencies \<Rightarrow> (string, unit) result outcome option" where
  "type_is_string operation_id name s deps =
    type_is_scalar_common operation_id name deps (\<lambda>t. t = TString) s"

section \<open>Arrays of strings\<close>

fun pure_array :: "schema \<Rightarrow> array_validation option" where
  "pure_array (SObject (SchemaObject md (Some (Single TArray)) None None None None None None
      (Some av) None None ext)) = Some av"
| "pure_array _ = None"

definition string_array_error :: "string \<Rightarrow> string" where
  "string_array_error name =
    ''the parameter '' @ [CHR 0x27] @ name @ [CHR 0x27] @ '' must be an array of strings''"

definition type_is_string_enum ::
  "string \<Rightarrow> string \<Rightarrow> schema \<Rightarrow> dependencies \<Rightarrow> (string, unit) result outcome option" where
  "type_is_string_enum operation_id name s deps =
    (case type_resolve s deps of
       Inl p \<Rightarrow> Some (Inl p)
     | Inr s' \<Rightarrow>
         (case pure_array s' of
            None \<Rightarrow> Some (Inr (Inl (string_array_error name)))
          | Some av \<Rightarrow>
              (case (av_items av, av_additional_items av) of
                 (Some (Single item_schema), None) \<Rightarrow>
                   Option.bind (type_is_string operation_id name item_schema deps)
                     (\<lambda>r. Some (rbind r (\<lambda>v. Inr (map_err (\<lambda>_. string_array_error name) v))))
               | _ \<Rightarrow> Some (Inl (Panic (''the parameter '' @ [CHR 0x27] @ name @ [CHR 0x27]
                        @ '' has an invalid array type''))))))"

section \<open>What resolution computes\<close>

text \<open>One reference followed; a schema is resolved when it is no pure reference.\<close>

definition ref_step :: "dependencies \<Rightarrow> schema \<Rightarrow> schema \<Rightarrow> bool" where
  "ref_step deps s s' \<longleftrightarrow>
    (\<exists>k. pure_reference s = Some (SCHEMA_PREFIX @ k) \<and> map_of deps k = Some s')"

definition resolves_to :: "dependencies \<Rightarrow> schema \<Rightarrow> schema \<Rightarrow> bool" where
  "resolves_to deps s s' \<longleftrightarrow> (ref_step deps)\<^sup>*\<^sup>* s s' \<and> pure_reference s' = None"

lemma ref_step_deterministic: "ref_step deps s t \<Longrightarrow> ref_step deps s u \<Longrightarrow> t = u"
  by (auto simp: ref_step_def)

lemma ref_step_same_reference:
  "ref_step deps s t \<Longrightarrow> pure_reference s' = pure_reference s \<Longrightarrow> ref_step deps s' t"
  by (auto simp: ref_step_def)

lemma starts_with_PREFIX_iff: "starts_with p s \<longleftrightarrow> (\<exists>k. s = p @ k)"
  by (auto simp: starts_with_def) (metis append_take_drop_id)

lemma resolve_loop_normal [simp]: "pure_reference s = None \<Longrightarrow> resolve_loop deps seen s = Inr s"
  by (simp add: resolve_loop.simps)

lemma resolve_loop_step:
  assumes "ref_step deps s t" "pure_reference s = Some r" "r \<notin> seen"
  shows "resolve_loop deps seen s = resolve_loop deps (insert r seen) t"
  using assms by (subst resolve_loop.simps) (auto simp: ref_step_def starts_with_PREFIX_iff)

lemma resolve_loop_sound: "resolve_loop deps seen s = Inr s' \<Longrightarrow> resolves_to deps s s'"
proof (induction deps seen s rule: resolve_loop.induct)
  case (1 deps seen s)
  show ?case
  proof (cases "pure_reference s")
    case None
    then show ?thesis using 1(2) by (simp add: resolves_to_def)
  next
    case (Some r)
    then obtain t where t: "r \<notin> seen" "starts_with SCHEMA_PREFIX r"
        "map_of deps (drop (length SCHEMA_PREFIX) r) = Some t"
        "resolve_loop deps (insert r seen) t = Inr s'"
      using 1(2) by (subst (asm) resolve_loop.simps) (auto split: if_splits option.splits)
    then have "resolves_to deps t s'" using 1(1)[OF Some t(1)] by simp
    moreover have "ref_step deps s t"
      using Some t(2,3) by (auto simp: ref_step_def starts_with_PREFIX_iff)
    ultimately show ?thesis
      by (auto simp: resolves_to_def intro: converse_rtranclp_into_rtranclp)
  qed
qed

text \<open>A chain that ends has no reference twice: every schema of it is at a fixed distance
  from the end.\<close>

lemma ref_chain_length_unique:
  assumes "(ref_step deps ^^ m) s e" "(ref_step deps ^^ n) s e'" "pure_reference e = None"
    "pure_reference e' = None"
  shows "m = n"
  using assms
proof (induction m arbitrary: s n)
  case 0
  show ?case
  proof (cases n)
    case (Suc k)
    then have "(ref_step deps ^^ Suc k) s e'" using 0(2) by simp
    then obtain u where "ref_step deps s u" by (rule relpowp_Suc_E2)
    then show ?thesis using 0(1,3) by (auto simp: ref_step_def)
  qed simp
next
  case (Suc m)
  obtain t where t: "ref_step deps s t" "(ref_step deps ^^ m) t e"
    using Suc(2) by (rule relpowp_Suc_E2)
  then obtain k where k: "n = Suc k"
    using Suc(3,5) by (cases n) (auto simp: ref_step_def)
  then have "(ref_step deps ^^ Suc k) s e'" using Suc(3) by simp
  then obtain u where "ref_step deps s u" "(ref_step deps ^^ k) u e'" by (rule relpowp_Suc_E2)
  then show ?case
    using Suc t k ref_step_deterministic[OF t(1)] by auto
qed

definition chain_refs :: "dependencies \<Rightarrow> schema \<Rightarrow> string set" where
  "chain_refs deps s = {r. \<exists>t. (ref_step deps)\<^sup>*\<^sup>* s t \<and> pure_reference t = Some r}"

lemma chain_refs_step: "ref_step deps s t \<Longrightarrow> chain_refs deps t \<subseteq> chain_refs deps s"
  by (auto simp: chain_refs_def intro: converse_rtranclp_into_rtranclp)

lemma chain_refs_acyclic:
  assumes "ref_step deps s t" "pure_reference s = Some r" "(ref_step deps ^^ n) t e"
    "pure_reference e = None"
  shows "r \<notin> chain_refs deps t"
proof
  assume "r \<in> chain_refs deps t"
  then obtain u where u: "(ref_step deps)\<^sup>*\<^sup>* t u" "pure_reference u = Some r"
    by (auto simp: chain_refs_def)
  then obtain k where k: "(ref_step deps ^^ k) t u" by (auto simp: rtranclp_power)
  have "ref_step deps u t"
    using ref_step_same_reference[OF assms(1)] u(2) assms(2) by simp
  then have "(ref_step deps ^^ Suc n) u e" using assms(3) by (rule relpowp_Suc_I2)
  then have "(ref_step deps ^^ (k + Suc n)) t e"
    unfolding relpowp_add using k by blast
  then show False using ref_chain_length_unique[OF assms(3) _ assms(4,4)] by fastforce
qed

lemma resolve_loop_complete:
  assumes "(ref_step deps ^^ n) s e" "pure_reference e = None" "chain_refs deps s \<inter> seen = {}"
  shows "resolve_loop deps seen s = Inr e"
  using assms
proof (induction n arbitrary: s seen)
  case (Suc n)
  obtain t where t: "ref_step deps s t" "(ref_step deps ^^ n) t e"
    using Suc(2) by (rule relpowp_Suc_E2)
  then obtain r where r: "pure_reference s = Some r" by (auto simp: ref_step_def)
  then have "r \<notin> seen" using Suc(4) by (auto simp: chain_refs_def)
  moreover have "chain_refs deps t \<inter> insert r seen = {}"
    using chain_refs_acyclic[OF t(1) r t(2) Suc(3)] chain_refs_step[OF t(1)] Suc(4) by blast
  ultimately show ?case
    using Suc.IH[OF t(2) Suc(3), of "insert r seen"] resolve_loop_step[OF t(1) r, of seen] by simp
qed simp

lemma type_resolve_Inr_iff: "type_resolve s deps = Inr s' \<longleftrightarrow> resolves_to deps s s'"
  using resolve_loop_sound[of deps "{}" s s'] resolve_loop_complete[of _ deps s s' "{}"]
  by (auto simp: type_resolve_def resolves_to_def rtranclp_power)

section \<open>What the scalar check computes\<close>

text \<open>The schemas that the check accepts, without the order of the evaluation.\<close>

fun examined :: "subschema_validation \<Rightarrow> schema list option" where
  "examined sub =
    (case lone_member sub of Some s \<Rightarrow> Some [s] | None \<Rightarrow> one_of_members sub)"

inductive scalar_schema :: "dependencies \<Rightarrow> (instance_type \<Rightarrow> bool) \<Rightarrow> schema \<Rightarrow> bool"
  for deps check where
  instance_ok: "resolves_to deps s s' \<Longrightarrow> scalar_instance s' = Some t \<Longrightarrow> check t \<Longrightarrow>
    scalar_schema deps check s"
| subschemas_ok: "resolves_to deps s s' \<Longrightarrow> pure_subschemas s' = Some sub \<Longrightarrow>
    examined sub = Some ss \<Longrightarrow> \<forall>x \<in> set ss. scalar_schema deps check x \<Longrightarrow>
    scalar_schema deps check s"

lemma lone_member_not_oneOf: "lone_member sub = Some s \<Longrightarrow> one_of_members sub = None"
  by (cases sub rule: lone_member.cases) auto

lemma scalar_instance_not_subschemas: "scalar_instance s = Some t \<Longrightarrow> pure_subschemas s = None"
  by (cases s rule: scalar_instance.cases) auto

text \<open>Both forms of subschemas are one traversal.\<close>

lemma type_is_scalar_subschemas_examined:
  "type_is_scalar_subschemas f sub =
    (case examined sub of Some ss \<Rightarrow> all_ok f ss | None \<Rightarrow> Some (Inr False))"
proof (cases "lone_member sub")
  case (Some s)
  have "Option.bind (f s) (\<lambda>r. Some (rbind r (\<lambda>v. Inr (is_ok v)))) = all_ok f [s]"
    by (cases "f s") (auto split: sum.splits)
  then show ?thesis using Some by (simp add: type_is_scalar_subschemas_def)
qed (simp add: type_is_scalar_subschemas_def split: option.splits)

lemma all_ok_Cons:
  "all_ok f (s # ss) =
    (case f s of
       None \<Rightarrow> None
     | Some (Inl p) \<Rightarrow> Some (Inl p)
     | Some (Inr (Inl e)) \<Rightarrow> Some (Inr False)
     | Some (Inr (Inr u)) \<Rightarrow> all_ok f ss)"
  by (auto split: option.splits sum.splits)

declare all_ok.simps(2) [simp del]

lemma all_ok_True: "all_ok f ss = Some (Inr True) \<longleftrightarrow> list_all (\<lambda>s. f s = Some (Inr (Inr ()))) ss"
  by (induction ss) (auto simp: all_ok_Cons split: option.splits sum.splits)

lemma all_ok_False:
  "all_ok f ss = Some (Inr False) \<Longrightarrow> \<exists>s \<in> set ss. \<exists>e. f s = Some (Inr (Inl e))"
  by (induction ss) (auto simp: all_ok_Cons split: option.splits sum.splits)

lemma all_ok_returns: "\<forall>s \<in> set ss. \<exists>r. f s = Some r \<Longrightarrow> \<exists>r. all_ok f ss = Some r"
  by (induction ss) (auto simp: all_ok_Cons split: option.splits sum.splits)

lemma all_ok_Inr_returns:
  "all_ok f ss = Some (Inr b) \<Longrightarrow> b \<longleftrightarrow> (\<forall>s \<in> set ss. f s = Some (Inr (Inr ())))"
  by (induction ss) (auto simp: all_ok_Cons split: option.splits sum.splits)

lemma scalar_common_cases:
  assumes "type_resolve s deps = Inr s'"
  shows "type_is_scalar_common op name deps check s =
    (if (\<exists>t. scalar_instance s' = Some t \<and> check t) then Some (Inr (Inr ()))
     else (case Option.bind (pure_subschemas s') examined of
             None \<Rightarrow> Some (Inr (Inl (scalar_type_error op name)))
           | Some ss \<Rightarrow> Option.bind (all_ok (type_is_scalar_common op name deps check) ss)
               (\<lambda>r. Some (rbind r (\<lambda>b. Inr
                 (if b then Inr () else Inl (scalar_type_error op name)))))))"
  using assms
  by (subst type_is_scalar_common.simps)
     (auto simp: type_is_scalar_subschemas_examined simp del: examined.simps split: option.splits)

lemma scalar_common_accepts:
  assumes "scalar_schema deps check s"
  shows "type_is_scalar_common op name deps check s = Some (Inr (Inr ()))"
  using assms
proof (induction rule: scalar_schema.induct)
  case (instance_ok s s' t)
  then show ?case
    by (subst scalar_common_cases[of s deps s']) (auto simp: type_resolve_Inr_iff)
next
  case (subschemas_ok s s' sub ss)
  have "all_ok (type_is_scalar_common op name deps check) ss = Some (Inr True)"
    using subschemas_ok(4) by (simp add: all_ok_True list_all_iff)
  then show ?case
    using subschemas_ok(1-3) by (subst scalar_common_cases[of s deps s'])
      (auto simp: type_resolve_Inr_iff simp del: examined.simps)
qed

lemma scalar_common_sound:
  assumes "type_is_scalar_common op name deps check s = Some y"
  shows "(y = Inr (Inr ()) \<longrightarrow> scalar_schema deps check s)
    \<and> (\<forall>e. y = Inr (Inl e) \<longrightarrow> e = scalar_type_error op name)"
proof (rule type_is_scalar_common.raw_induct[OF _ assms], goal_cases)
  case (1 rec op name deps check s y)
  show ?case
  proof (cases "type_resolve s deps")
    case (Inl p)
    then show ?thesis using 1(2) by auto
  next
    case (Inr s')
    then have res: "resolves_to deps s s'" by (simp add: type_resolve_Inr_iff)
    show ?thesis
    proof (cases "\<exists>t. scalar_instance s' = Some t \<and> check t")
      case True
      then show ?thesis
        using 1(2) Inr res by (auto intro: scalar_schema.instance_ok)
    next
      case False
      show ?thesis
      proof (cases "Option.bind (pure_subschemas s') examined")
        case None
        then show ?thesis
          using 1(2) Inr False
          by (auto simp: type_is_scalar_subschemas_examined bind_eq_None_conv simp del: examined.simps
              split: option.splits if_splits)
      next
        case (Some ss)
        then obtain sub where sub: "pure_subschemas s' = Some sub" "examined sub = Some ss"
          by (auto simp: bind_eq_Some_conv simp del: examined.simps)
        then obtain o' where o': "all_ok (rec op name deps check) ss = Some o'"
            "y = rbind o' (\<lambda>b. Inr (if b then Inr () else Inl (scalar_type_error op name)))"
          using 1(2) Inr False
          by (auto simp: type_is_scalar_subschemas_examined bind_eq_Some_conv simp del: examined.simps
              split: option.splits if_splits)
        then show ?thesis
          using 1(1) sub res o'(1)
          by (cases o') (auto simp: all_ok_True list_all_iff split: if_splits
              intro!: scalar_schema.subschemas_ok[OF res sub])
      qed
    qed
  qed
qed

definition examines :: "dependencies \<Rightarrow> schema \<Rightarrow> schema \<Rightarrow> bool" where
  "examines deps s x \<longleftrightarrow>
    (\<exists>s' sub ss. resolves_to deps s s' \<and> pure_subschemas s' = Some sub
      \<and> examined sub = Some ss \<and> x \<in> set ss)"

lemma scalar_common_returns:
  assumes "Wellfounded.accp (\<lambda>x s. examines deps s x) s"
  shows "\<exists>r. type_is_scalar_common op name deps check s = Some r"
  using assms
proof (induction rule: accp_induct_rule)
  case (1 s)
  show ?case
  proof (cases "type_resolve s deps")
    case (Inl p)
    then show ?thesis by (subst type_is_scalar_common.simps) simp
  next
    case (Inr s')
    then have "\<forall>x \<in> set ss. \<exists>r. type_is_scalar_common op name deps check x = Some r"
      if "Option.bind (pure_subschemas s') examined = Some ss" for ss
      using 1 that unfolding examines_def bind_eq_Some_conv type_resolve_Inr_iff by blast
    then show ?thesis
      using all_ok_returns[of _ "type_is_scalar_common op name deps check"]
      by (subst scalar_common_cases[OF Inr]) (force split: option.splits)
  qed
qed

section \<open>Properties\<close>

definition is_scalar_type :: "instance_type \<Rightarrow> bool" where
  "is_scalar_type t \<longleftrightarrow> t \<in> {TBoolean, TNumber, TString, TInteger}"

text \<open>A schema passes the scalar check exactly when following its references and its lone
  or alternative subschemas leads to single boolean, number, string or integer types only,
  in whatever order they are examined; every other answer is the error for this parameter.\<close>

theorem type_is_scalar_spec:
  "(type_is_scalar operation_id name s deps = Some (Inr (Inr ())) \<longleftrightarrow> scalar_schema deps is_scalar_type s)
    \<and> (\<forall>e. type_is_scalar operation_id name s deps = Some (Inr (Inl e)) \<longrightarrow>
        e = scalar_type_error operation_id name \<and> \<not> scalar_schema deps is_scalar_type s)"
proof -
  have eq: "type_is_scalar operation_id name s deps =
      type_is_scalar_common operation_id name deps is_scalar_type s"
    by (simp add: type_is_scalar_def is_scalar_type_def [abs_def])
  then have "type_is_scalar operation_id name s deps = Some y \<Longrightarrow>
      type_is_scalar_common operation_id name deps is_scalar_type s = Some y" for y by simp
  moreover have "scalar_schema deps is_scalar_type s \<Longrightarrow>
      type_is_scalar operation_id name s deps = Some (Inr (Inr ()))"
    using scalar_common_accepts eq by simp
  ultimately show ?thesis
    using scalar_common_sound by fastforce
qed

text \<open>A dictionary with an alias, and a schema that goes through it.\<close>

definition ref_schema_to :: "string \<Rightarrow> schema" where
  "ref_schema_to k = SObject (SchemaObject None None None None None None None None None None
     (Some (SCHEMA_PREFIX @ k)) [])"

definition any_of_schema :: "schema list \<Rightarrow> schema" where
  "any_of_schema ss = SObject (SchemaObject None None None None None
     (Some (SubschemaValidation None (Some ss) None None None None None)) None None None None None [])"

definition one_of_schema :: "schema list \<Rightarrow> schema" where
  "one_of_schema ss = SObject (SchemaObject None None None None None
     (Some (SubschemaValidation None None (Some ss) None None None None)) None None None None None [])"

definition string_schema :: schema where
  "string_schema = SObject (SchemaObject None (Some (Single TString)) None None None None None None
     None None None [])"

definition sample_dependencies :: dependencies where
  "sample_dependencies = [(''Alias'', ref_schema_to ''Name''), (''Name'', string_schema)]"

lemmas sample_schema_defs =
  ref_schema_to_def any_of_schema_def one_of_schema_def string_schema_def sample_dependencies_def

theorem type_is_scalar_spec_witness:
  "type_is_scalar ''op'' ''x'' (one_of_schema [ref_schema_to ''Alias'', string_schema])
     sample_dependencies = Some (Inr (Inr ()))
   \<and> \<not> scalar_schema sample_dependencies is_scalar_type (one_of_schema [ref_schema_to ''Alias'', SBool True])"
proof
  have name: "resolves_to sample_dependencies string_schema string_schema"
    by (simp add: resolves_to_def sample_schema_defs)
  have "type_resolve (ref_schema_to ''Alias'') sample_dependencies = Inr string_schema"
    by code_simp
  then have al: "resolves_to sample_dependencies (ref_schema_to ''Alias'') string_schema"
    by (simp add: type_resolve_Inr_iff)
  have "scalar_schema sample_dependencies is_scalar_type (one_of_schema [ref_schema_to ''Alias'', string_schema])"
    by (rule scalar_schema.subschemas_ok[where ss = "[ref_schema_to ''Alias'', string_schema]"])
       (auto simp: resolves_to_def one_of_schema_def string_schema_def is_scalar_type_def
         intro!: scalar_schema.instance_ok[OF al] scalar_schema.instance_ok[OF name, unfolded string_schema_def])
  then show "type_is_scalar ''op'' ''x'' (one_of_schema [ref_schema_to ''Alias'', string_schema])
     sample_dependencies = Some (Inr (Inr ()))"
    using type_is_scalar_spec by blast
  have "type_is_scalar ''op'' ''x'' (one_of_schema [ref_schema_to ''Alias'', SBool True]) sample_dependencies
      = Some (Inr (Inl (scalar_type_error ''op'' ''x'')))"
    by code_simp
  then show "\<not> scalar_schema sample_dependencies is_scalar_type
      (one_of_schema [ref_schema_to ''Alias'', SBool True])"
    using type_is_scalar_spec by blast
qed



text \<open>A recursive type whose recursion goes through a lone subschema, which the detection
  of reference cycles does not see, makes the check run forever.\<close>

theorem type_is_scalar_diverges:
  "type_is_scalar operation_id name (ref_schema_to ''E'')
     [(''E'', any_of_schema [ref_schema_to ''E''])] = None"
proof -
  let ?deps = "[(''E'', any_of_schema [ref_schema_to ''E''])]"
  have res: "type_resolve (ref_schema_to ''E'') ?deps = Inr (any_of_schema [ref_schema_to ''E''])"
    by code_simp
  have "type_is_scalar_common op nm d check x = Some y \<Longrightarrow>
      d = ?deps \<longrightarrow> x \<noteq> ref_schema_to ''E''" for op nm d check x y
  proof (erule type_is_scalar_common.raw_induct[rotated], goal_cases)
    case (1 rec op nm d check x y)
    show ?case
    proof (intro impI notI)
      assume eq: "d = ?deps" "x = ref_schema_to ''E''"
      obtain y' where "rec op nm d check (ref_schema_to ''E'') = Some y'"
        using 1(2) unfolding eq res
        by (auto simp: any_of_schema_def type_is_scalar_subschemas_def bind_eq_Some_conv)
      then show False using 1(1) eq(1) by blast
    qed
  qed
  then have "type_is_scalar operation_id name (ref_schema_to ''E'') ?deps \<noteq> Some y" for y
    unfolding type_is_scalar_def by blast
  then show ?thesis by (simp only: not_Some_eq[symmetric]) simp
qed

end
