(* ===== verification/Api_Register.thy ===== *)
theory Api_Register
  imports Router_Properties Type_Util
begin

text \<open>
  \<^verbatim>\<open>ApiDescription\<close>: registration of endpoints (\<^verbatim>\<open>api_description.rs\<close>).  An endpoint is
  checked against the tag policy, its path parameters against the variables of its path,
  and the types of its path and query parameters, before the router takes it.

  A check may not return (\<^const>\<open>None\<close>, see \<open>Type_Util\<close>), panic, fail with a message, or
  succeed: \<open>'a check\<close>.
\<close>

section \<open>Checks\<close>

type_synonym 'a check = "(string, 'a) result outcome option"

definition and_then :: "'a check \<Rightarrow> ('a \<Rightarrow> 'b check) \<Rightarrow> 'b check" where
  "and_then c f =
    (case c of
       None \<Rightarrow> None
     | Some (Inl p) \<Rightarrow> Some (Inl p)
     | Some (Inr (Inl e)) \<Rightarrow> Some (Inr (Inl e))
     | Some (Inr (Inr a)) \<Rightarrow> f a)"

abbreviation passes :: "unit check \<Rightarrow> bool" where
  "passes c \<equiv> c = Some (Inr (Inr ()))"

lemma and_then_passes [simp]:
  "and_then c f = Some (Inr (Inr b)) \<longleftrightarrow> (\<exists>a. c = Some (Inr (Inr a)) \<and> f a = Some (Inr (Inr b)))"
  by (auto simp: and_then_def split: option.splits sum.splits)

lemma and_then_unit [simp]: "and_then (Some (Inr (Inr u))) f = f u"
  by (simp add: and_then_def)

section \<open>The description and its tags\<close>

datatype endpoint_tag_policy = AnyTags | AtLeastOne | ExactlyOne

record tag_external_docs =
  docs_description :: "string option"
  docs_url :: string

record tag_details =
  td_description :: "string option"
  td_external_docs :: "tag_external_docs option"

record tag_config =
  allow_other_tags :: bool
  policy :: endpoint_tag_policy
  tag_table :: "string \<rightharpoonup> tag_details"

definition tag_config_default :: tag_config where
  "tag_config_default =
    \<lparr> allow_other_tags = True, policy = AnyTags, tag_table = Map.empty \<rparr>"

record ('h, 'g, 'v) api_description =
  router :: "('h, 'g, 'v) api_endpoint http_router"
  tag_conf :: tag_config

definition api_description_new :: "('h, 'g, 'v) api_description" where
  "api_description_new = \<lparr> router = router_new, tag_conf = tag_config_default \<rparr>"

definition set_tag_config ::
  "tag_config \<Rightarrow> ('h, 'g, 'v) api_description \<Rightarrow> ('h, 'g, 'v) api_description" where
  "set_tag_config c api = api\<lparr> tag_conf := c \<rparr>"

fun check_tags :: "tag_config \<Rightarrow> string list \<Rightarrow> (string, unit) result" where
  "check_tags c [] = Inr ()"
| "check_tags c (tag # ts) =
    (if tag_table c tag = None then Inl (''Invalid tag: '' @ tag) else check_tags c ts)"

definition validate_tags ::
  "tag_config \<Rightarrow> ('h, 'g, 'v) api_endpoint \<Rightarrow> (string, unit) result" where
  "validate_tags c e =
    (if \<not> visible e then Inr ()
     else if policy c = AtLeastOne \<and> length (tags e) = 0 then Inl ''At least one tag is required''
     else if policy c = ExactlyOne \<and> length (tags e) \<noteq> 1 then Inl ''Exactly one tag is required''
     else if \<not> allow_other_tags c then check_tags c (tags e)
     else Inr ())"

section \<open>Path parameters\<close>

fun segment_variable :: "path_segment \<Rightarrow> string option" where
  "segment_variable (VarnameSegment v) = Some v"
| "segment_variable (VarnameWildcard v) = Some v"
| "segment_variable (Literal _) = None"

fun path_param_name :: "api_endpoint_parameter_metadata \<Rightarrow> string option" where
  "path_param_name (Path name) = Some name"
| "path_param_name _ = None"

definition declared_path_params :: "('h, 'g, 'v) api_endpoint \<Rightarrow> string set" where
  "declared_path_params e =
    set (List.map_filter (\<lambda>p. path_param_name (param_metadata p)) (parameters e))"

definition comma_joined :: "string set \<Rightarrow> string" where
  "comma_joined s = join_with (CHR '','') (sorted_list_of_set s)"

definition validate_path_parameters ::
  "('h, 'g, 'v) api_endpoint \<Rightarrow> (string, unit) result outcome" where
  "validate_path_parameters e =
    rbind (route_path_to_segments (path e)) (\<lambda>segments.
    rbind (mapM_result path_segment_from segments) (\<lambda>segs.
    (let in_path = set (List.map_filter segment_variable segs);
         vars = declared_path_params e;
         p = in_path - vars; v = vars - in_path;
         not_consumed = ''path parameters are not consumed ('' @ comma_joined p @ '')'';
         not_in_path = ''specified parameters do not appear in the path ('' @ comma_joined v @ '')''
     in Inr (if in_path \<noteq> vars then
               Inl (if p \<noteq> {} \<and> v = {} then not_consumed
                    else if p = {} \<and> v \<noteq> {} then not_in_path
                    else not_consumed @ '' and '' @ not_in_path)
             else Inr ()))))"

section \<open>Types of named parameters\<close>

datatype segment_or_wildcard = Segment | Wildcard

fun segment_kind :: "path_segment \<Rightarrow> (string \<times> segment_or_wildcard) option" where
  "segment_kind (VarnameSegment v) = Some (v, Segment)"
| "segment_kind (VarnameWildcard v) = Some (v, Wildcard)"
| "segment_kind (Literal _) = None"

definition path_segment_kinds :: "path_segment list \<Rightarrow> (string, segment_or_wildcard) btree_map" where
  "path_segment_kinds segs = fold (\<lambda>(n, k). bt_insert n k) (List.map_filter segment_kind segs) []"

definition validate_parameter ::
  "string \<Rightarrow> (string, segment_or_wildcard) btree_map \<Rightarrow> 'g api_endpoint_parameter \<Rightarrow> unit check" where
  "validate_parameter op_id kinds p =
    (case param_metadata p of
       Path name \<Rightarrow>
         (case param_schema p of
            Gen _ \<Rightarrow> Some (Inl (Panic ''internal error: entered unreachable code''))
          | Static sch deps \<Rightarrow>
              (case map_of kinds name of
                 Some Segment \<Rightarrow> type_is_scalar op_id name sch deps
               | Some Wildcard \<Rightarrow> type_is_string_enum op_id name sch deps
               | None \<Rightarrow> Some (Inl (Panic ''all path variables should be accounted for''))))
     | Query name \<Rightarrow>
         (case param_schema p of
            Gen _ \<Rightarrow> Some (Inl (Panic ''internal error: entered unreachable code''))
          | Static sch deps \<Rightarrow>
              if map_of kinds name \<noteq> None then
                Some (Inr (Inl (''the parameter '' @ [CHR 0x27] @ name @ [CHR 0x27]
                  @ '' is specified for both query and path parameters'')))
              else type_is_scalar op_id name sch deps)
     | _ \<Rightarrow> Some (Inr (Inr ())))"

fun validate_parameter_list ::
  "string \<Rightarrow> (string, segment_or_wildcard) btree_map \<Rightarrow> 'g api_endpoint_parameter list \<Rightarrow> unit check" where
  "validate_parameter_list op_id kinds [] = Some (Inr (Inr ()))"
| "validate_parameter_list op_id kinds (p # ps) =
    and_then (validate_parameter op_id kinds p) (\<lambda>_. validate_parameter_list op_id kinds ps)"

definition validate_named_parameters :: "('h, 'g, 'v) api_endpoint \<Rightarrow> unit check" where
  "validate_named_parameters e =
    (case rbind (route_path_to_segments (path e)) (mapM_result path_segment_from) of
       Inl p \<Rightarrow> Some (Inl p)
     | Inr segs \<Rightarrow> validate_parameter_list (operation_id e) (path_segment_kinds segs) (parameters e))"

section \<open>Registration\<close>

record register_error =
  re_operation_id :: string
  re_message :: string

definition register_validations ::
  "tag_config \<Rightarrow> ('h, 'g, 'v) api_endpoint \<Rightarrow> unit check" where
  "register_validations c e =
    and_then (Some (Inr (validate_tags c e))) (\<lambda>_.
    and_then (Some (validate_path_parameters e)) (\<lambda>_.
    validate_named_parameters e))"

text \<open>The result and the description afterwards; a panic leaves no description.\<close>

definition register ::
  "('h, 'g, 'v::linorder) api_endpoint \<Rightarrow> ('h, 'g, 'v) api_description
    \<Rightarrow> ((register_error, unit) result \<times> ('h, 'g, 'v) api_description) outcome option" where
  "register e api =
    (case register_validations (tag_conf api) e of
       None \<Rightarrow> None
     | Some (Inl p) \<Rightarrow> Some (Inl p)
     | Some (Inr (Inl message)) \<Rightarrow>
         Some (Inr (Inl \<lparr> re_operation_id = operation_id e, re_message = message \<rparr>, api))
     | Some (Inr (Inr u)) \<Rightarrow>
         Some (rbind (router_insert e (router api)) (\<lambda>r. Inr (Inr (), api\<lparr> router := r \<rparr>))))"

text \<open>The messages of the error types.\<close>

definition register_error_display :: "register_error \<Rightarrow> string" where
  "register_error_display err =
    ''failed to register endpoint '' @ [CHR 0x27] @ re_operation_id err @ [CHR 0x27] @ '': ''
      @ re_message err"

definition build_errors_display :: "register_error list \<Rightarrow> string" where
  "build_errors_display errs =
    ''failed to register endpoints: '' @ [CHR 0x0A]
      @ concat (map (\<lambda>err. ''  - registering '' @ [CHR 0x27] @ re_operation_id err @ [CHR 0x27]
          @ '' failed: '' @ re_message err @ [CHR 0x0A]) errs)"

section \<open>What each validation accepts\<close>

definition tags_allowed :: "tag_config \<Rightarrow> ('h, 'g, 'v) api_endpoint \<Rightarrow> bool" where
  "tags_allowed c e \<longleftrightarrow> visible e \<longrightarrow>
    (case policy c of AnyTags \<Rightarrow> True | AtLeastOne \<Rightarrow> tags e \<noteq> [] | ExactlyOne \<Rightarrow> (\<exists>t. tags e = [t]))
    \<and> (allow_other_tags c \<or> set (tags e) \<subseteq> dom (tag_table c))"

definition string_array_schema :: "dependencies \<Rightarrow> schema \<Rightarrow> bool" where
  "string_array_schema deps s \<longleftrightarrow>
    (\<exists>s' av item. resolves_to deps s s' \<and> pure_array s' = Some av \<and> av_items av = Some (Single item)
      \<and> av_additional_items av = None \<and> scalar_schema deps (\<lambda>t. t = TString) item)"

definition parameter_typed :: "path_segment list \<Rightarrow> 'g api_endpoint_parameter \<Rightarrow> bool" where
  "parameter_typed t p \<longleftrightarrow>
    (case param_metadata p of
       Path name \<Rightarrow> (\<exists>sch deps. param_schema p = Static sch deps
         \<and> (VarnameSegment name \<in> set t \<and> scalar_schema deps is_scalar_type sch
            \<or> VarnameWildcard name \<in> set t \<and> string_array_schema deps sch))
     | Query name \<Rightarrow> (\<exists>sch deps. param_schema p = Static sch deps
         \<and> name \<notin> set (template_vars t) \<and> scalar_schema deps is_scalar_type sch)
     | _ \<Rightarrow> True)"

lemma check_tags_iff: "check_tags c ts = Inr () \<longleftrightarrow> set ts \<subseteq> dom (tag_table c)"
  by (induction ts) (auto simp: domIff)

lemma validate_tags_iff: "validate_tags c e = Inr () \<longleftrightarrow> tags_allowed c e"
  by (auto simp: validate_tags_def tags_allowed_def check_tags_iff length_Suc_conv
      split: endpoint_tag_policy.splits)

lemma segment_variables: "List.map_filter segment_variable t = template_vars t"
  by (induction t rule: template_vars.induct) (auto simp: map_filter_simps)

lemma segment_kind_names: "map fst (List.map_filter segment_kind t) = template_vars t"
  by (induction t rule: template_vars.induct) (auto simp: map_filter_simps)

lemma segment_kind_mem:
  "(n, Segment) \<in> set (List.map_filter segment_kind t) \<longleftrightarrow> VarnameSegment n \<in> set t"
  "(n, Wildcard) \<in> set (List.map_filter segment_kind t) \<longleftrightarrow> VarnameWildcard n \<in> set t"
  by (induction t rule: template_vars.induct) (auto simp: map_filter_simps)

lemma path_segment_kinds_map:
  "map_of (path_segment_kinds t) = map_of (rev (List.map_filter segment_kind t))"
proof
  fix n
  have "path_segment_kinds t = btm.put_all (List.map_filter segment_kind t) []"
    by (simp add: path_segment_kinds_def btm.put_all_def)
  then show "map_of (path_segment_kinds t) n = map_of (rev (List.map_filter segment_kind t)) n"
    using btm.get_put_all[of "[]" "List.map_filter segment_kind t" n] by simp
qed

lemma path_segment_kinds_Some:
  assumes "distinct (template_vars t)"
  shows "map_of (path_segment_kinds t) n = Some k \<longleftrightarrow> (n, k) \<in> set (List.map_filter segment_kind t)"
proof -
  have "distinct (map fst (rev (List.map_filter segment_kind t)))"
    using assms by (simp add: rev_map[symmetric] segment_kind_names)
  then show ?thesis by (simp add: path_segment_kinds_map)
qed

lemma path_segment_kinds_None:
  "map_of (path_segment_kinds t) n = None \<longleftrightarrow> n \<notin> set (template_vars t)"
  by (simp add: path_segment_kinds_map map_of_eq_None_iff flip: segment_kind_names)

lemma type_is_scalar_passes:
  "passes (type_is_scalar op_id n sch deps) \<longleftrightarrow> scalar_schema deps is_scalar_type sch"
  using scalar_common_accepts scalar_common_sound
  unfolding type_is_scalar_def is_scalar_type_def [abs_def] by blast

lemma type_is_string_enum_passes:
  "passes (type_is_string_enum op_id n sch deps) \<longleftrightarrow> string_array_schema deps sch"
proof -
  have item: "passes (type_is_string op_id n x deps) \<longleftrightarrow> scalar_schema deps (\<lambda>t. t = TString) x" for x
    using scalar_common_accepts scalar_common_sound unfolding type_is_string_def by blast
  show ?thesis
    unfolding string_array_schema_def type_is_string_enum_def
    by (auto simp: type_resolve_Inr_iff[symmetric] item[symmetric] bind_eq_Some_conv rbind_simps
        split: sum.splits option.splits single_or_vec.splits)
qed

lemma validate_parameter_passes:
  assumes "distinct (template_vars t)"
  shows "passes (validate_parameter op_id (path_segment_kinds t) p) \<longleftrightarrow> parameter_typed t p"
proof (cases "param_metadata p")
  case (Path n)
  show ?thesis
  proof (cases "map_of (path_segment_kinds t) n")
    case None
    then have "VarnameSegment n \<notin> set t" "VarnameWildcard n \<notin> set t"
      using path_segment_kinds_Some[OF assms, of n] by (auto simp: segment_kind_mem[symmetric])
    then show ?thesis using Path None
      by (auto simp: validate_parameter_def parameter_typed_def split: api_schema_generator.splits)
  next
    case (Some k)
    then have "VarnameSegment n \<in> set t \<longleftrightarrow> k = Segment" "VarnameWildcard n \<in> set t \<longleftrightarrow> k = Wildcard"
      using path_segment_kinds_Some[OF assms, of n]
      by (auto simp: segment_kind_mem[symmetric]) (metis option.inject)+
    then show ?thesis using Path Some
      by (cases k) (auto simp: validate_parameter_def parameter_typed_def type_is_scalar_passes
          type_is_string_enum_passes split: api_schema_generator.splits)
  qed
next
  case (Query n)
  then show ?thesis
    by (auto simp: validate_parameter_def parameter_typed_def type_is_scalar_passes
        path_segment_kinds_None[symmetric] split: api_schema_generator.splits)
qed (auto simp: validate_parameter_def parameter_typed_def)

lemma validate_parameter_list_passes:
  "distinct (template_vars t) \<Longrightarrow> passes (validate_parameter_list op_id (path_segment_kinds t) ps)
    \<longleftrightarrow> (\<forall>p \<in> set ps. parameter_typed t p)"
  by (induction ps) (auto simp: validate_parameter_passes)

lemma in_path_eq:
  "in_path = vars \<longleftrightarrow> in_path - vars = {} \<and> vars - in_path = ({} :: string set)"
  by blast

lemma validate_path_parameters_passes:
  "validate_path_parameters e = Inr (Inr ()) \<longleftrightarrow>
    (\<exists>t. template_of (path e) = Inr t \<and> set (template_vars t) = declared_path_params e)"
  by (auto simp: validate_path_parameters_def template_of_def rbind_simps segment_variables Let_def
      split: if_splits)

lemma router_insert_distinct_vars:
  assumes "router_wf r" "router_insert e r = Inr r'" "template_of (path e) = Inr t"
  shows "distinct (template_vars t)"
proof -
  have "e \<in> set (handlers_at (root r') t (to_upper (method e)))"
    using router_insert_table[OF assms(1,2)] assms(3) by auto
  then obtain n where "node_at t (root r') = Some n"
    by (cases "node_at t (root r')") (auto simp: handlers_at_def)
  moreover have "node_wf {} (root r')"
    using router_insert_wf[OF assms(1,2)] by (simp add: router_wf_def)
  ultimately show ?thesis using node_at_vars_distinct by blast
qed

text \<open>An endpoint that registration has accepted.\<close>

definition endpoint_consistent :: "('h, 'g, 'v) api_endpoint \<Rightarrow> bool" where
  "endpoint_consistent e \<longleftrightarrow>
    (\<exists>t. template_of (path e) = Inr t \<and> distinct (template_vars t)
      \<and> set (template_vars t) = declared_path_params e \<and> (\<forall>p \<in> set (parameters e). parameter_typed t p))"

lemma register_validations_passes:
  assumes "template_of (path e) = Inr t" "distinct (template_vars t)"
  shows "passes (register_validations c e) \<longleftrightarrow> tags_allowed c e \<and> endpoint_consistent e"
proof -
  have t: "rbind (route_path_to_segments (path e)) (mapM_result path_segment_from) = Inr t"
    using assms(1) by (simp add: template_of_def)
  show ?thesis
    using assms validate_parameter_list_passes[OF assms(2)]
    by (auto simp: register_validations_def validate_tags_iff validate_path_parameters_passes
        validate_named_parameters_def t endpoint_consistent_def)
qed

inductive api_reachable :: "('h, 'g, 'v::linorder) api_description \<Rightarrow> bool" where
  new: "api_reachable api_description_new"
| config: "api_reachable api \<Longrightarrow> api_reachable (set_tag_config c api)"
| registered: "api_reachable api \<Longrightarrow> register e api = Some (Inr (res, api')) \<Longrightarrow> api_reachable api'"

lemma register_Inr_cases:
  assumes "register e api = Some (Inr (res, api'))"
  obtains (ok) r where "passes (register_validations (tag_conf api) e)" "res = Inr ()"
      "router_insert e (router api) = Inr r" "api' = api\<lparr> router := r \<rparr>"
    | (err) msg where "register_validations (tag_conf api) e = Some (Inr (Inl msg))"
      "res = Inl \<lparr> re_operation_id = operation_id e, re_message = msg \<rparr>" "api' = api"
  using assms unfolding register_def
  by (auto simp: rbind_simps split: option.splits sum.splits)

lemma api_reachable_router: "api_reachable api \<Longrightarrow> router_reachable (router api)"
proof (induction rule: api_reachable.induct)
  case (registered api e res api')
  from registered(2) show ?case
    by (cases rule: register_Inr_cases) (use registered in \<open>auto intro: router_reachable.ins\<close>)
qed (auto simp: api_description_new_def set_tag_config_def intro: router_reachable.new)

lemma register_Ok_iff:
  assumes "api_reachable api"
  shows "register e api = Some (Inr (Inr (), api')) \<longleftrightarrow>
      tags_allowed (tag_conf api) e \<and> endpoint_consistent e
      \<and> (\<exists>r. router_insert e (router api) = Inr r \<and> api' = api\<lparr> router := r \<rparr>)"
proof (intro conjI iffI)
  have wf: "router_wf (router api)" using reachable_wf api_reachable_router assms by blast
  assume reg: "register e api = Some (Inr (Inr (), api'))"
  then obtain r where r: "passes (register_validations (tag_conf api) e)"
      "router_insert e (router api) = Inr r" "api' = api\<lparr> router := r \<rparr>"
    by (cases rule: register_Inr_cases) auto
  obtain t where t: "template_of (path e) = Inr t" using router_insert_table[OF wf r(2)] by blast
  note valid = register_validations_passes[OF t router_insert_distinct_vars[OF wf r(2) t]]
  show "tags_allowed (tag_conf api) e" "endpoint_consistent e" using valid r(1) by auto
  show "\<exists>r. router_insert e (router api) = Inr r \<and> api' = api\<lparr> router := r \<rparr>" using r by blast
next
  assume ok: "tags_allowed (tag_conf api) e \<and> endpoint_consistent e
      \<and> (\<exists>r. router_insert e (router api) = Inr r \<and> api' = api\<lparr> router := r \<rparr>)"
  then have "passes (register_validations (tag_conf api) e)"
    using register_validations_passes unfolding endpoint_consistent_def by blast
  then show "register e api = Some (Inr (Inr (), api'))"
    using ok by (auto simp: register_def)
qed

text \<open>A description with one endpoint, \<^verbatim>\<open>/a/{x}\<close>, whose handler takes the path variable.\<close>

definition param_endpoint :: "(string, unit, nat) api_endpoint" where
  "param_endpoint = (sample_endpoint ''h1'' ''GET'' ''/a/{x}'' (From 2))
     \<lparr> parameters := [new_named LocPath ''x'' None True (Static string_schema []) []] \<rparr>"

definition sample_api :: "(string, unit, nat) api_description" where
  "sample_api =
    \<lparr> router = (case router_insert param_endpoint router_new of Inr r \<Rightarrow> r | Inl _ \<Rightarrow> router_new),
      tag_conf = tag_config_default \<rparr>"

lemma param_endpoint_template: "template_of (path param_endpoint) = Inr [Literal ''a'', VarnameSegment ''x'']"
  by code_simp

lemma param_endpoint_inserts: "router_insert param_endpoint router_new = Inr (router sample_api)"
proof -
  have "is_ok (router_insert param_endpoint router_new)" by code_simp
  then show ?thesis by (auto simp: sample_api_def is_ok_iff)
qed

lemma param_endpoint_consistent: "endpoint_consistent param_endpoint"
proof -
  have "scalar_schema [] is_scalar_type string_schema"
    by (rule scalar_schema.instance_ok[where s' = string_schema and t = TString])
       (auto simp: resolves_to_def string_schema_def is_scalar_type_def)
  then show ?thesis
    unfolding endpoint_consistent_def param_endpoint_template
    by (auto simp: param_endpoint_def declared_path_params_def map_filter_simps new_named_def
        parameter_typed_def)
qed

lemma sample_api_facts:
  "tags_allowed (tag_conf api_description_new) param_endpoint \<and> endpoint_consistent param_endpoint
    \<and> (\<exists>r. router_insert param_endpoint (router api_description_new) = Inr r
      \<and> sample_api = api_description_new\<lparr> router := r \<rparr>)"
  using param_endpoint_consistent param_endpoint_inserts
  by (auto simp: tags_allowed_def api_description_new_def tag_config_default_def sample_api_def)

section \<open>Properties\<close>

text \<open>C7. Registration succeeds exactly when the tags are allowed, the path parameters of the
  handler are the variables of the path, every path and query parameter has a type its
  place allows, and the router takes the endpoint; then only the router changes.  An error
  names the operation and changes nothing.\<close>

theorem register_spec:
  assumes "api_reachable api"
  shows "(register e api = Some (Inr (Inr (), api')) \<longleftrightarrow>
      tags_allowed (tag_conf api) e \<and> endpoint_consistent e
      \<and> (\<exists>r. router_insert e (router api) = Inr r \<and> api' = api\<lparr> router := r \<rparr>))
    \<and> (\<forall>err. register e api = Some (Inr (Inl err, api')) \<longrightarrow>
        re_operation_id err = operation_id e \<and> api' = api
        \<and> \<not> (tags_allowed (tag_conf api) e \<and> endpoint_consistent e))"
proof (intro conjI[OF register_Ok_iff[OF assms]] allI impI)
  fix err assume "register e api = Some (Inr (Inl err, api'))"
  then obtain msg where msg: "register_validations (tag_conf api) e = Some (Inr (Inl msg))"
      "err = \<lparr> re_operation_id = operation_id e, re_message = msg \<rparr>" "api' = api"
    by (cases rule: register_Inr_cases) auto
  moreover have "\<not> (tags_allowed (tag_conf api) e \<and> endpoint_consistent e)"
    using register_validations_passes[of e _ "tag_conf api"] msg(1)
    unfolding endpoint_consistent_def by auto
  ultimately show "re_operation_id err = operation_id e \<and> api' = api
      \<and> \<not> (tags_allowed (tag_conf api) e \<and> endpoint_consistent e)" by simp
qed

theorem register_spec_witness:
  "register param_endpoint api_description_new = Some (Inr (Inr (), sample_api))"
  using register_spec[OF api_reachable.new, THEN conjunct1] sample_api_facts by blast



end
