(* ===== verification/Router_Iter.thy ===== *)
theory Router_Iter
  imports Router_Properties
begin

text \<open>
  The endpoint iterator of \<^verbatim>\<open>router.rs\<close>: \<open>iter_next\<close> is \<^verbatim>\<open>HttpRouterIter::next\<close>, a loop
  over a stack of child iterators, and \<open>endpoints_list\<close> collects what repeated calls
  yield.  Both terminate, and what they yield is the preorder traversal of the trie,
  that is, every registered endpoint of the requested version exactly where it was
  registered.  The stack has its top at the head; an iterator is the list of what it
  has still to yield.
\<close>

section \<open>The iterator\<close>

definition iter_handlers_from_node ::
  "('h, 'g, 'v::linorder) api_endpoint http_router_node \<Rightarrow> 'v option
    \<Rightarrow> (string \<times> ('h, 'g, 'v) api_endpoint) list" where
  "iter_handlers_from_node node version =
    concat (map (\<lambda>(m, handlers).
      map (Pair m) (filter (\<lambda>h. matches (versions h) version) handlers)) (methods node))"

definition iter_node :: "'e http_router_node \<Rightarrow> (path_segment \<times> 'e http_router_node) list" where
  "iter_node node =
    (case edges node of
       Some (Literals m) \<Rightarrow> map (\<lambda>(s, n). (Literal s, n)) m
     | Some (VariableSingle varname n) \<Rightarrow> [(VarnameSegment varname, n)]
     | Some (VariableRest varname n) \<Rightarrow> [(VarnameSegment varname, n)]
     | None \<Rightarrow> [])"

fun render_segment :: "path_segment \<Rightarrow> string" where
  "render_segment (Literal s) = s"
| "render_segment (VarnameSegment s) = ''{'' @ s @ ''}''"
| "render_segment (VarnameWildcard s) = ''{'' @ s @ '':.*}''"

definition render_path :: "path_segment list \<Rightarrow> string" where
  "render_path segs = CHR ''/'' # join_with (CHR ''/'') (map render_segment segs)"

type_synonym 'e iter_stack = "(path_segment \<times> (path_segment \<times> 'e http_router_node) list) list"

record ('e, 'v) http_router_iter =
  it_method :: "(string \<times> 'e) list"
  it_path :: "'e iter_stack"
  it_version :: "'v option"

definition iter_new ::
  "('h, 'g, 'v::linorder) api_endpoint http_router \<Rightarrow> 'v option
    \<Rightarrow> (('h, 'g, 'v) api_endpoint, 'v) http_router_iter" where
  "iter_new r version =
    \<lparr> it_method = iter_handlers_from_node (root r) version,
      it_path = [(Literal [], iter_node (root r))],
      it_version = version \<rparr>"

text \<open>\<^verbatim>\<open>path()\<close>: the first element pushed is a placeholder and is skipped.\<close>

definition iter_path :: "'e iter_stack \<Rightarrow> string" where
  "iter_path stack = render_path (tl (rev (map fst stack)))"

lemma iter_node_size [termination_simp]: "(seg, c) \<in> set (iter_node n) \<Longrightarrow> size c < size n"
proof -
  assume *: "(seg, c) \<in> set (iter_node n)"
  show ?thesis
  proof (cases n)
    case (HttpRouterNode ms ed)
    show ?thesis
      using * child_size_literal
      by (cases ed; cases "the ed") (fastforce simp: iter_node_def HttpRouterNode)+
  qed
qed

text \<open>The measure of the loop: every node that is still to be visited counts its handlers
  and two more for being pushed and popped.\<close>

function node_weight :: "('h, 'g, 'v::linorder) api_endpoint http_router_node \<Rightarrow> nat" where
  "node_weight n = 2 + sum_list (map (\<lambda>(m, hs). length hs) (methods n))
    + sum_list (map (\<lambda>(seg, c). node_weight c) (iter_node n))"
  by pat_completeness auto
termination by (relation "measure size") (auto simp: iter_node_size)

declare node_weight.simps [simp del]

definition stack_weight :: "('h, 'g, 'v::linorder) api_endpoint iter_stack \<Rightarrow> nat" where
  "stack_weight stk = sum_list (map (\<lambda>(seg, cs). 1 + sum_list (map (\<lambda>(s, c). node_weight c) cs)) stk)"

lemma stack_weight_simps [simp]:
  "stack_weight [] = 0"
  "stack_weight ((seg, cs) # stk) = 1 + sum_list (map (\<lambda>(s, c). node_weight c) cs) + stack_weight stk"
  by (simp_all add: stack_weight_def)

lemma length_iter_handlers:
  "length (iter_handlers_from_node n ver) \<le> sum_list (map (\<lambda>(m, hs). length hs) (methods n))"
proof -
  have "length (concat (map (\<lambda>(m, handlers).
      map (Pair m) (filter (\<lambda>h. matches (versions h) ver) handlers)) ms))
    \<le> sum_list (map (\<lambda>(m, hs). length hs) ms)" for ms
    by (induction ms) (auto simp: le_trans[OF length_filter_le] add_mono)
  then show ?thesis by (simp add: iter_handlers_from_node_def)
qed

lemma push_decreases:
  "length (iter_handlers_from_node n ver) + stack_weight ((c, iter_node n) # (seg, rest) # stk)
    < stack_weight ((seg, (c, n) # rest) # stk)"
  using length_iter_handlers[of n ver] by (simp add: node_weight.simps[of n])

text \<open>The loop of \<^verbatim>\<open>next\<close>: the methods of the current node first, then the next child of
  the node on top of the stack, popping exhausted ones.\<close>

function iter_loop ::
  "'v option \<Rightarrow> (string \<times> ('h, 'g, 'v::linorder) api_endpoint) list
    \<Rightarrow> ('h, 'g, 'v) api_endpoint iter_stack
    \<Rightarrow> (string \<times> string \<times> ('h, 'g, 'v) api_endpoint) option
       \<times> (string \<times> ('h, 'g, 'v) api_endpoint) list \<times> ('h, 'g, 'v) api_endpoint iter_stack" where
  "iter_loop version ((m, e) # rest_methods) stk = (Some (iter_path stk, m, e), rest_methods, stk)"
| "iter_loop version [] [] = (None, [], [])"
| "iter_loop version [] ((seg, []) # stk) = iter_loop version [] stk"
| "iter_loop version [] ((seg, (path_component, node) # rest) # stk) =
    iter_loop version (iter_handlers_from_node node version)
      ((path_component, iter_node node) # (seg, rest) # stk)"
  by pat_completeness auto
termination
  by (relation "measure (\<lambda>(version, ms, stk). length ms + stack_weight stk)")
     (use push_decreases in auto)

definition iter_next ::
  "(('h, 'g, 'v::linorder) api_endpoint, 'v) http_router_iter
    \<Rightarrow> (string \<times> string \<times> ('h, 'g, 'v) api_endpoint) option
       \<times> (('h, 'g, 'v) api_endpoint, 'v) http_router_iter" where
  "iter_next it =
    (if it_path it = [] then (None, it)
     else (case iter_loop (it_version it) (it_method it) (it_path it) of
             (item, ms, stk) \<Rightarrow> (item, it\<lparr>it_method := ms, it_path := stk\<rparr>)))"

lemma iter_loop_decreases:
  "iter_loop ver ms stk = (Some x, ms', stk') \<Longrightarrow>
    length ms' + stack_weight stk' < length ms + stack_weight stk"
proof (induction ver ms stk rule: iter_loop.induct)
  case (4 ver seg c n rest stk)
  then show ?case using push_decreases[of n ver c seg rest stk] by force
qed auto

lemma iter_next_decreases:
  "iter_next it = (Some x, it') \<Longrightarrow>
    length (it_method it') + stack_weight (it_path it') < length (it_method it) + stack_weight (it_path it)"
  using iter_loop_decreases[of "it_version it" "it_method it" "it_path it"]
  by (auto simp: iter_next_def split: if_splits prod.splits)

text \<open>What a \<^verbatim>\<open>for\<close> loop over the iterator sees.\<close>

function iter_collect ::
  "(('h, 'g, 'v::linorder) api_endpoint, 'v) http_router_iter
    \<Rightarrow> (string \<times> string \<times> ('h, 'g, 'v) api_endpoint) list" where
  "iter_collect it =
    (case iter_next it of (None, _) \<Rightarrow> [] | (Some x, it') \<Rightarrow> x # iter_collect it')"
  by pat_completeness auto
termination
  by (relation "measure (\<lambda>it. length (it_method it) + stack_weight (it_path it))")
     (auto dest: iter_next_decreases[OF sym])

declare iter_collect.simps [simp del]

definition endpoints_list ::
  "('h, 'g, 'v::linorder) api_endpoint http_router \<Rightarrow> 'v option
    \<Rightarrow> (string \<times> string \<times> ('h, 'g, 'v) api_endpoint) list" where
  "endpoints_list r version = iter_collect (iter_new r version)"

section \<open>The traversal it computes\<close>

function preorder ::
  "'v option \<Rightarrow> path_segment list \<Rightarrow> ('h, 'g, 'v::linorder) api_endpoint http_router_node
    \<Rightarrow> (string \<times> string \<times> ('h, 'g, 'v) api_endpoint) list" where
  "preorder ver segs n =
    map (Pair (render_path segs)) (iter_handlers_from_node n ver)
    @ concat (map (\<lambda>(seg, c). preorder ver (segs @ [seg]) c) (iter_node n))"
  by pat_completeness auto
termination by (relation "measure (\<lambda>(ver, segs, n). size n)") (auto simp: iter_node_size)

declare preorder.simps [simp del]

text \<open>What a stack has still to yield: for each frame the remaining children.\<close>

fun pending ::
  "'v option \<Rightarrow> ('h, 'g, 'v::linorder) api_endpoint iter_stack
    \<Rightarrow> (string \<times> string \<times> ('h, 'g, 'v) api_endpoint) list" where
  "pending ver [] = []"
| "pending ver ((seg, cs) # stk) =
    concat (map (\<lambda>(s, c). preorder ver (tl (rev (map fst ((seg, cs) # stk))) @ [s]) c) cs)
    @ pending ver stk"

lemma tl_snoc2: "tl (xs @ [a, b]) = tl (xs @ [a]) @ [b]"
  by (cases xs) auto

lemma iter_loop_spec:
  "iter_loop ver ms stk = (item, ms', stk') \<Longrightarrow>
    map (Pair (iter_path stk)) ms @ pending ver stk =
      (case item of None \<Rightarrow> [] | Some x \<Rightarrow> x # map (Pair (iter_path stk')) ms' @ pending ver stk')"
proof (induction ver ms stk rule: iter_loop.induct)
  case (4 ver seg c n rest stk)
  have "pending ver ((seg, (c, n) # rest) # stk) =
      map (Pair (iter_path ((c, iter_node n) # (seg, rest) # stk))) (iter_handlers_from_node n ver)
      @ pending ver ((c, iter_node n) # (seg, rest) # stk)"
    by (simp add: preorder.simps[of ver _ n] iter_path_def tl_snoc2)
  then show ?case using 4 by simp
qed auto

lemma iter_loop_path:
  "iter_loop ver ms stk = (Some x, ms', stk') \<Longrightarrow> stk \<noteq> [] \<or> ms = [] \<Longrightarrow> stk' \<noteq> []"
  by (induction ver ms stk rule: iter_loop.induct) auto

lemma iter_collect_spec:
  "it_path it \<noteq> [] \<or> it_method it = [] \<Longrightarrow>
    iter_collect it = map (Pair (iter_path (it_path it))) (it_method it)
      @ pending (it_version it) (it_path it)"
proof (induction it rule: iter_collect.induct)
  case (1 it)
  show ?case
  proof (cases "it_path it = []")
    case True
    then show ?thesis using 1 by (simp add: iter_collect.simps[of it] iter_next_def)
  next
    case False
    obtain item ms stk where l: "iter_loop (it_version it) (it_method it) (it_path it) = (item, ms, stk)"
      by (metis prod_cases3)
    have nx: "iter_next it = (item, it\<lparr>it_method := ms, it_path := stk\<rparr>)"
      using False l by (simp add: iter_next_def)
    show ?thesis
    proof (cases item)
      case None
      then show ?thesis
        using iter_loop_spec[OF l] nx by (simp add: iter_collect.simps[of it])
    next
      case (Some x)
      have "stk \<noteq> [] \<or> ms = []" using l Some False iter_loop_path by metis
      then show ?thesis
        using 1(1)[OF nx[symmetric] Some] iter_loop_spec[OF l] nx Some
        by (simp add: iter_collect.simps[of it])
    qed
  qed
qed


lemma endpoints_list_preorder: "endpoints_list r ver = preorder ver [] (root r)"
proof -
  have "iter_collect (iter_new r ver) = map (Pair (render_path [])) (iter_handlers_from_node (root r) ver)
      @ concat (map (\<lambda>(s, c). preorder ver [s] c) (iter_node (root r)))"
    using iter_collect_spec[of "iter_new r ver"] by (simp add: iter_new_def iter_path_def)
  then show ?thesis by (simp add: endpoints_list_def preorder.simps[of ver "[]" "root r"])
qed

text \<open>The iterator shows a wildcard as an ordinary variable.\<close>

fun shown_segment :: "path_segment \<Rightarrow> path_segment" where
  "shown_segment (VarnameWildcard v) = VarnameSegment v"
| "shown_segment seg = seg"

lemma iter_handlers_iff:
  assumes "bt_wf (methods n)"
  shows "(m, e) \<in> set (iter_handlers_from_node n ver) \<longleftrightarrow>
    e \<in> set (node_handlers n m) \<and> matches (versions e) ver"
proof -
  have "(m, e) \<in> set (iter_handlers_from_node n ver) \<longleftrightarrow>
      (\<exists>hs. map_of (methods n) m = Some hs \<and> e \<in> set hs) \<and> matches (versions e) ver"
    unfolding bt_map_of_iff[OF assms] by (auto simp: iter_handlers_from_node_def)
  then show ?thesis by (auto simp: node_handlers_def split: option.split)
qed

lemma iter_node_iff:
  assumes "node_wf V n"
  shows "(s, c) \<in> set (iter_node n) \<longleftrightarrow> (\<exists>seg. node_at [seg] n = Some c \<and> s = shown_segment seg)"
proof (cases "edges n")
  case None
  have "node_at [seg] n \<noteq> Some c" for seg using None by (cases seg) auto
  then show ?thesis using None by (auto simp: iter_node_def)
next
  case (Some ed)
  show ?thesis
  proof (cases ed)
    case (Literals m)
    then have "bt_wf m" using assms Some by (simp add: node_wf_edges)
    have "node_at [seg] n = Some c \<longleftrightarrow> (\<exists>l. seg = Literal l \<and> (l, c) \<in> set m)" for seg
      unfolding bt_map_of_iff[OF \<open>bt_wf m\<close>, symmetric]
      using Some Literals by (cases seg) (auto split: option.splits)
    then show ?thesis using Some Literals by (auto simp: iter_node_def)
  next
    case (VariableSingle v d)
    have "node_at [seg] n = Some c \<longleftrightarrow> seg = VarnameSegment v \<and> c = d" for seg
      using Some VariableSingle by (cases seg) auto
    then show ?thesis using Some VariableSingle by (auto simp: iter_node_def)
  next
    case (VariableRest v d)
    have "node_at [seg] n = Some c \<longleftrightarrow> seg = VarnameWildcard v \<and> c = d" for seg
      using Some VariableRest by (cases seg) auto
    then show ?thesis using Some VariableRest by (auto simp: iter_node_def)
  qed
qed

lemma preorder_iff:
  "node_wf V n \<Longrightarrow> (p, m, e) \<in> set (preorder ver segs n) \<longleftrightarrow>
    (\<exists>t. e \<in> set (handlers_at n t m) \<and> matches (versions e) ver
      \<and> p = render_path (segs @ map shown_segment t))"
proof (induction ver segs n arbitrary: V rule: preorder.induct)
  case (1 ver segs n)
  have wf: "bt_wf (methods n)"
    using node_wf_handlers[OF 1(2)] by (simp add: methods_wf_def)
  have here: "(p, m, e) \<in> Pair (render_path segs) ` set (iter_handlers_from_node n ver) \<longleftrightarrow>
      e \<in> set (handlers_at n [] m) \<and> matches (versions e) ver \<and> p = render_path segs"
    using iter_handlers_iff[OF wf, of m e ver] by (auto simp: handlers_at_Nil)
  have below: "(\<exists>(s, c) \<in> set (iter_node n). (p, m, e) \<in> set (preorder ver (segs @ [s]) c)) \<longleftrightarrow>
      (\<exists>seg t. e \<in> set (handlers_at n (seg # t) m) \<and> matches (versions e) ver
        \<and> p = render_path (segs @ map shown_segment (seg # t)))"
    (is "?L \<longleftrightarrow> ?R")
  proof -
    have IH: "(p, m, e) \<in> set (preorder ver (segs @ [s]) c) \<longleftrightarrow>
        (\<exists>t. e \<in> set (handlers_at c t m) \<and> matches (versions e) ver
          \<and> p = render_path ((segs @ [s]) @ map shown_segment t))"
      if c: "(s, c) \<in> set (iter_node n)" for s c
    proof -
      obtain seg where "node_at [seg] n = Some c" using iter_node_iff[OF 1(2)] c by blast
      then obtain W where "node_wf W c" using node_at_wf[OF 1(2)] by blast
      then show ?thesis using 1(1)[OF c refl] by blast
    qed
    have "?L \<longleftrightarrow> (\<exists>seg c. node_at [seg] n = Some c \<and>
        (\<exists>t. e \<in> set (handlers_at c t m) \<and> matches (versions e) ver
          \<and> p = render_path ((segs @ [shown_segment seg]) @ map shown_segment t)))"
      using IH iter_node_iff[OF 1(2)] by (fastforce simp: Bex_def)
    also have "\<dots> \<longleftrightarrow> ?R"
    proof -
      have "e \<in> set (handlers_at n (seg # t) m) \<longleftrightarrow>
          (\<exists>c. node_at [seg] n = Some c \<and> e \<in> set (handlers_at c t m))" for seg t
        by (cases "node_at [seg] n") (simp_all add: handlers_at_Cons)
      then show ?thesis by auto
    qed
    finally show ?thesis .
  qed
  have "(p, m, e) \<in> set (preorder ver segs n) \<longleftrightarrow>
      (p, m, e) \<in> Pair (render_path segs) ` set (iter_handlers_from_node n ver) \<or>
      (\<exists>(s, c) \<in> set (iter_node n). (p, m, e) \<in> set (preorder ver (segs @ [s]) c))"
    by (auto simp: preorder.simps[of ver segs n])
  also have "\<dots> \<longleftrightarrow> (\<exists>t. e \<in> set (handlers_at n t m) \<and> matches (versions e) ver
      \<and> p = render_path (segs @ map shown_segment t))"
    unfolding here below by (metis append_Nil2 list.exhaust list.simps(8))
  finally show ?case .
qed

section \<open>Properties\<close>

lemma endpoints_list_iff:
  assumes "router_reachable r"
  shows "(p, m, e) \<in> set (endpoints_list r ver) \<longleftrightarrow>
    (\<exists>t. e \<in> set (route_table r (t, m)) \<and> matches (versions e) ver
      \<and> p = render_path (map shown_segment t))"
  using preorder_iff[of "{}" "root r" p m e ver "[]"] reachable_wf[OF assms]
  by (simp add: endpoints_list_preorder router_wf_def route_table_def)

text \<open>C13. Iterating over the endpoints terminates (the functions are total) and yields
  exactly the registered endpoints whose range contains the version: one for every entry
  of the route table, under its upper-case method and the printed template, in which a
  wildcard appears as an ordinary variable.\<close>

theorem endpoints_complete:
  assumes "router_reachable r"
  shows "(p, m, e) \<in> set (endpoints_list r ver) \<longleftrightarrow>
    (\<exists>t. e \<in> set (route_table r (t, m)) \<and> matches (versions e) ver
      \<and> p = render_path (map shown_segment t))"
  by (rule endpoints_list_iff[OF assms])

theorem endpoints_complete_witness:
  "(''/a/{x}'', ''GET'', sample_endpoint ''h1'' ''GET'' ''/a/{x}'' (From 2))
      \<in> set (endpoints_list sample_router (Some 3)) \<longleftrightarrow>
    (\<exists>t. sample_endpoint ''h1'' ''GET'' ''/a/{x}'' (From 2) \<in> set (route_table sample_router (t, ''GET''))
      \<and> matches (versions (sample_endpoint ''h1'' ''GET'' ''/a/{x}'' (From 2))) (Some 3)
      \<and> ''/a/{x}'' = render_path (map shown_segment t))"
  by (rule endpoints_complete[OF sample_router_reachable])


section \<open>Printing and parsing templates\<close>

text \<open>The segments that some route path can produce.\<close>

fun segment_wf :: "path_segment \<Rightarrow> bool" where
  "segment_wf (Literal s) = (s \<noteq> [] \<and> CHR ''/'' \<notin> set s \<and> hd s \<noteq> CHR ''{'' \<and> last s \<noteq> CHR ''}'')"
| "segment_wf (VarnameSegment v) = (v \<noteq> [] \<and> CHR ''/'' \<notin> set v \<and> CHR '':'' \<notin> set v)"
| "segment_wf (VarnameWildcard v) = (v \<noteq> [] \<and> CHR ''/'' \<notin> set v \<and> CHR '':'' \<notin> set v)"

lemma starts_with_single: "starts_with [c] s \<longleftrightarrow> s \<noteq> [] \<and> hd s = c"
  by (cases s) (auto simp: starts_with_def)

lemma ends_with_single: "ends_with [c] s \<longleftrightarrow> s \<noteq> [] \<and> last s = c"
  by (cases s rule: rev_cases) (auto simp: ends_with_def)

lemma path_segment_from_render:
  assumes "segment_wf seg"
  shows "path_segment_from (render_segment seg) = Inr seg"
proof (cases seg)
  case (Literal s)
  then show ?thesis
    using assms by (auto simp: path_segment_from_def starts_with_single ends_with_single)
next
  case (VarnameSegment v)
  have "split_once (CHR '':'') v = None"
    using assms VarnameSegment by (simp add: split_once_def)
  then show ?thesis
    using assms VarnameSegment
    by (simp add: path_segment_from_def starts_with_single ends_with_single butlast_append)
next
  case (VarnameWildcard v)
  have "split_once (CHR '':'') (v @ '':.*'') = Some (v, ''.*'')"
    using assms VarnameWildcard by (simp add: split_once_Some_iff)
  then show ?thesis
    using assms VarnameWildcard
    by (simp add: path_segment_from_def starts_with_single ends_with_single butlast_append)
qed

lemma render_segment_no_slash:
  "segment_wf seg \<Longrightarrow> CHR ''/'' \<notin> set (render_segment seg) \<and> render_segment seg \<noteq> []"
  by (cases seg) auto

lemma route_path_to_segments_render:
  assumes "\<forall>s \<in> set ss. CHR ''/'' \<notin> set s \<and> s \<noteq> []"
  shows "route_path_to_segments (CHR ''/'' # join_with (CHR ''/'') ss) = Inr ss"
proof (cases "ss = []")
  case True
  then show ?thesis by (simp add: route_path_to_segments_def starts_with_single)
next
  case False
  have "split_on (CHR ''/'') (join_with (CHR ''/'') ss) = ss"
    using assms False by (intro split_join) auto
  moreover have "[] \<notin> set (butlast ss)" "last ss \<noteq> []"
    using assms False by (auto dest: in_set_butlastD)
  ultimately show ?thesis
    by (simp add: route_path_to_segments_def starts_with_single)
qed

lemma mapM_result_map:
  "\<forall>x \<in> set xs. f (g x) = Inr x \<Longrightarrow> mapM_result f (map g xs) = Inr xs"
  by (induction xs) auto

lemma path_segment_from_wf:
  assumes "path_segment_from s = Inr seg" "s \<noteq> []" "CHR ''/'' \<notin> set s"
  shows "segment_wf seg"
proof (cases "starts_with ''{'' s \<or> ends_with ''}'' s")
  case False
  then show ?thesis
    using assms by (auto simp: path_segment_from_def starts_with_single ends_with_single)
next
  case True
  let ?v = "butlast (tl s)"
  have sub: "set ?v \<subseteq> set s"
    using in_set_butlastD list.set_sel(2)[OF assms(2)] by fastforce
  show ?thesis
  proof (cases "split_once (CHR '':'') ?v")
    case None
    then have "CHR '':'' \<notin> set ?v" by (auto simp: split_once_def split: if_splits)
    then show ?thesis
      using assms True None sub by (auto simp: path_segment_from_def Let_def split: if_splits)
  next
    case (Some vp)
    then obtain v pat where "?v = v @ CHR '':'' # pat" "CHR '':'' \<notin> set v" "vp = (v, pat)"
      by (cases vp) (auto simp: split_once_Some_iff)
    moreover from this have "CHR ''/'' \<notin> set v" using sub assms(3) by auto
    ultimately show ?thesis
      using assms True Some by (auto simp: path_segment_from_def Let_def split: if_splits)
  qed
qed

lemma route_path_to_segments_wf:
  assumes "route_path_to_segments p = Inr ss" "s \<in> set ss"
  shows "s \<noteq> [] \<and> CHR ''/'' \<notin> set s"
proof -
  let ?r = "tl (split_on (CHR ''/'') p)"
  have ss: "ss = (if last ?r = [] then butlast ?r else ?r)" "[] \<notin> set (butlast ?r)"
    using assms(1) by (auto simp: route_path_to_segments_def Let_def split: if_splits)
  have "s \<in> set ?r" using assms(2) ss by (auto dest: in_set_butlastD split: if_splits)
  then have "s \<in> set (split_on (CHR ''/'') p)" by (metis list.set_sel(2) split_on_not_Nil)
  moreover have "s \<noteq> []"
    using assms(2) ss by (cases ?r rule: rev_cases) (auto split: if_splits)
  ultimately show ?thesis using split_on_no_sep by blast
qed

lemma template_of_wf:
  assumes "template_of p = Inr t"
  shows "\<forall>seg \<in> set t. segment_wf seg"
proof -
  obtain ss where ss: "route_path_to_segments p = Inr ss" "mapM_result path_segment_from ss = Inr t"
    using assms by (auto simp: template_of_def rbind_simps)
  then show ?thesis
    using mapM_result_member[OF ss(2)] path_segment_from_wf route_path_to_segments_wf[OF ss(1)]
    by blast
qed

lemma template_of_render:
  assumes "\<forall>seg \<in> set t. segment_wf seg"
  shows "template_of (render_path t) = Inr t"
proof -
  have "route_path_to_segments (render_path t) = Inr (map render_segment t)"
    unfolding render_path_def using assms render_segment_no_slash
    by (intro route_path_to_segments_render) auto
  then show ?thesis
    using assms by (simp add: template_of_def mapM_result_map path_segment_from_render)
qed

text \<open>C37. Parsing a route path and printing its template loses nothing: the printed
  template parses to the same template, and the templates that some route path has are
  exactly the lists of segments whose literals and variable names print unambiguously.\<close>

theorem template_roundtrip:
  "(\<exists>p. template_of p = Inr t) \<longleftrightarrow> list_all segment_wf t
    \<and> template_of (render_path t) = Inr t"
  using template_of_wf template_of_render by (auto simp: list_all_iff)

text \<open>The request path is split at slashes with empty pieces dropped, dot segments are
  refused, and everything else is the decoder's output; the check is made before decoding,
  so a piece that only decodes to a dot segment is let through.\<close>

theorem input_path_segments_spec:
  "input_path_to_segments decode p = Inr ss \<longleftrightarrow>
    (let raw = filter (\<lambda>s. s \<noteq> []) (split_on (CHR ''/'') p) in
      ''.'' \<notin> set raw \<and> ''..'' \<notin> set raw \<and> list_all2 (\<lambda>s d. decode s = Inr d) raw ss)"
proof -
  have "list_all2 (\<lambda>s d. (if s = ''.'' \<or> s = ''..'' then Inl ''dot-segments are not permitted''
        else decode s) = Inr d) raw ss \<longleftrightarrow>
      ''.'' \<notin> set raw \<and> ''..'' \<notin> set raw \<and> list_all2 (\<lambda>s d. decode s = Inr d) raw ss" for raw
    by (induction raw arbitrary: ss) (auto simp: list_all2_Cons1)
  then show ?thesis
    by (simp add: input_path_to_segments_def mapM_result_Inr_iff)
qed

section \<open>The version flag\<close>

text \<open>The flag that the server builder consults is set exactly when some registered endpoint is
  limited to some versions.\<close>

lemma has_versioned_routes_exact:
  assumes "router_reachable r"
  shows "has_versioned_routes r \<longleftrightarrow> (\<exists>e \<in> registered r. versions e \<noteq> All)"
  using assms
proof (induction rule: router_reachable.induct)
  case new
  then show ?case by (simp add: router_new_def registered_def)
next
  case (ins r e r')
  have "has_versioned_routes r' \<longleftrightarrow> versions e \<noteq> All \<or> has_versioned_routes r"
    using ins(2) by (auto simp: router_insert_def rbind_simps)
  then show ?case using ins.IH registered_insert[OF reachable_wf[OF ins(1)] ins(2)] by auto
qed

end
