(* ===== verification/Server.thy ===== *)
theory Server
  imports Handler Versioning Compression Api_Register Router_Iter
begin

text \<open>
  The server (\<^verbatim>\<open>server.rs\<close>): what it takes to build one, and the life of a request from the
  version policy through the router and the handler to the response.  Sockets, TLS and the
  tasks of tokio are not part of this theory (\<open>Server_Lifecycle\<close> has the tasks); what the
  operating system and rustls answer is a parameter of the build.

  A response of the model has no extensions: whether the marker \<^verbatim>\<open>NoCompression\<close> is among
  those of a response is the parameter \<open>marked\<close>.
\<close>

section \<open>The state\<close>

text \<open>What the server uses of other crates.\<close>

record ('v, 'b) server_lib =
  http :: http_lib
  decode_segment :: "string \<Rightarrow> (string, string) result"
  print_version :: "'v \<Rightarrow> string"
  print_status :: "error_status_code \<Rightarrow> string"
  value_to_str :: "string \<Rightarrow> string option"
  exact_size :: "'b \<Rightarrow> nat option"
  gzip :: "'b \<Rightarrow> 'b"
  marked :: "'b response \<Rightarrow> bool"
  error_body :: "http_error_response_body \<Rightarrow> 'b"

record request_info =
  ri_method :: string
  ri_path :: string
  ri_query :: "string option"
  ri_headers :: header_map

record server_request = http_request +
  rq_path :: string

definition request_info_new :: "server_request \<Rightarrow> request_info" where
  "request_info_new rq =
    \<lparr> ri_method = rq_method rq, ri_path = rq_path rq, ri_query = rq_query rq,
      ri_headers = rq_headers rq \<rparr>"

record request_context =
  rc_config :: server_config
  rc_request :: request_info
  rc_endpoint :: request_endpoint_metadata
  rc_request_id :: string

type_synonym 'b route_handler =
  "request_context \<Rightarrow> server_request \<Rightarrow> ('b handler_error, 'b response) result outcome"

record ('g, 'v, 'b) dropshot_state =
  st_config :: server_config
  st_router :: "('b route_handler, 'g, 'v) api_endpoint http_router"
  st_version_policy :: "'v version_policy"

section \<open>Building a server\<close>

datatype 'a build_error =
    BindError 'a string
  | NotOnePrivateKey
  | PemError string string
  | SystemError string string
  | UnversionedServerHasVersionedRoutes

text \<open>\<^verbatim>\<open>ConfigTls\<close> and its conversion.  Opening a file and reading PEM data can fail; a
  certificate and key that rustls refuses panic.\<close>

datatype 'r config_tls = AsFile string string | AsBytes string string | DynamicTls 'r

record ('c, 'k, 'r) tls_lib =
  open_file :: "string \<Rightarrow> (string, string) result"
  pem_certs :: "string \<Rightarrow> (string, 'c list) result"
  pem_keys :: "string \<Rightarrow> (string, 'k list) result"
  single_cert :: "'c list \<Rightarrow> 'k \<Rightarrow> 'r option"

definition tls_readers ::
  "('c, 'k, 'r) tls_lib \<Rightarrow> 'r config_tls \<Rightarrow> ('a build_error, string \<times> string) result" where
  "tls_readers T config =
    (case config of
       AsBytes certs key \<Rightarrow> Inr (certs, key)
     | AsFile cert_file key_file \<Rightarrow>
         rbind (map_err (\<lambda>e. SystemError (''opening '' @ cert_file) e) (open_file T cert_file)) (\<lambda>certs.
         rbind (map_err (\<lambda>e. SystemError (''opening '' @ key_file) e) (open_file T key_file)) (\<lambda>key.
         Inr (certs, key)))
     | DynamicTls _ \<Rightarrow> Inr ([], []))"

definition rustls_config_of ::
  "('c, 'k, 'r) tls_lib \<Rightarrow> 'r config_tls \<Rightarrow> ('a build_error, 'r) result outcome" where
  "rustls_config_of T config =
    (case config of
       DynamicTls raw \<Rightarrow> Inr (Inr raw)
     | _ \<Rightarrow>
       (case rbind (tls_readers T config) (\<lambda>(cert_data, key_data).
               rbind (map_err (PemError ''loading TLS certificates'') (pem_certs T cert_data)) (\<lambda>certs.
               rbind (map_err (PemError ''loading TLS private key'') (pem_keys T key_data)) (\<lambda>keys.
               (case keys of [private_key] \<Rightarrow> Inr (certs, private_key) | _ \<Rightarrow> Inl NotOnePrivateKey)))) of
          Inl e \<Rightarrow> Inr (Inl e)
        | Inr (certs, private_key) \<Rightarrow>
            (case single_cert T certs private_key of
               Some cfg \<Rightarrow> Inr (Inr cfg)
             | None \<Rightarrow> Inl (Panic ''bad certificate/key''))))"

text \<open>The four system calls on the listening socket, in their order; the first is the bind.\<close>

record 'a listen_env =
  le_bind :: "(string, unit) result"
  le_nonblocking :: "(string, unit) result"
  le_from_std :: "(string, unit) result"
  le_local_addr :: "(string, 'a) result"

definition listen :: "'a listen_env \<Rightarrow> 'a \<Rightarrow> ('a build_error, 'a) result" where
  "listen env addr =
    rbind (map_err (BindError addr) (le_bind env)) (\<lambda>_.
    rbind (map_err (SystemError ''setting non-blocking'') (le_nonblocking env)) (\<lambda>_.
    rbind (map_err (SystemError ''creating TCP listener'') (le_from_std env)) (\<lambda>_.
    map_err (SystemError ''getting local TCP address'') (le_local_addr env))))"

record ('g, 'v, 'b, 'a, 'r) http_server_starter =
  hs_app_state :: "('g, 'v, 'b) dropshot_state"
  hs_local_addr :: 'a
  hs_tls :: "'r option"

definition new_internal ::
  "'a listen_env \<Rightarrow> ('c, 'k, 'r) tls_lib \<Rightarrow> 'a config_dropshot
    \<Rightarrow> ('b route_handler, 'g, 'v::linorder) api_description \<Rightarrow> 'r config_tls option \<Rightarrow> 'v version_policy
    \<Rightarrow> ('a build_error, ('g, 'v, 'b, 'a, 'r) http_server_starter) result outcome" where
  "new_internal env T config api tls vpol =
    (case listen env (bind_address config) of
       Inl e \<Rightarrow> Inr (Inl e)
     | Inr local_addr \<Rightarrow>
         rbind (case tls of None \<Rightarrow> Inr (Inr None)
                | Some t \<Rightarrow> rbind (rustls_config_of T t) (\<lambda>r. Inr (rbind r (\<lambda>c. Inr (Some c)))))
           (\<lambda>tls_acceptor.
             Inr (rbind tls_acceptor (\<lambda>acceptor.
               if (case vpol of Unversioned \<Rightarrow> has_versioned_routes (router api) | Dynamic _ \<Rightarrow> False)
               then Inl UnversionedServerHasVersionedRoutes
               else Inr \<lparr> hs_app_state = \<lparr> st_config = server_config_of config, st_router = router api,
                                          st_version_policy = vpol \<rparr>,
                          hs_local_addr = local_addr, hs_tls = acceptor \<rparr>))))"

text \<open>\<^verbatim>\<open>ServerBuilder\<close>: the defaults and the setters.\<close>

record ('g, 'v, 'b, 'a, 'r) server_builder =
  sb_api :: "('b route_handler, 'g, 'v) api_description"
  sb_config :: "'a config_dropshot"
  sb_version_policy :: "'v version_policy"
  sb_tls :: "'r config_tls option"

definition server_builder_new ::
  "'a \<Rightarrow> ('b route_handler, 'g, 'v) api_description \<Rightarrow> ('g, 'v, 'b, 'a, 'r) server_builder" where
  "server_builder_new localhost api =
    \<lparr> sb_api = api, sb_config = config_default localhost, sb_version_policy = Unversioned,
      sb_tls = None \<rparr>"

definition builder_config ::
  "'a config_dropshot \<Rightarrow> ('g, 'v, 'b, 'a, 'r) server_builder \<Rightarrow> ('g, 'v, 'b, 'a, 'r) server_builder" where
  "builder_config c b = b\<lparr> sb_config := c \<rparr>"

definition builder_tls ::
  "'r config_tls option \<Rightarrow> ('g, 'v, 'b, 'a, 'r) server_builder \<Rightarrow> ('g, 'v, 'b, 'a, 'r) server_builder" where
  "builder_tls t b = b\<lparr> sb_tls := t \<rparr>"

definition builder_version_policy ::
  "'v version_policy \<Rightarrow> ('g, 'v, 'b, 'a, 'r) server_builder \<Rightarrow> ('g, 'v, 'b, 'a, 'r) server_builder" where
  "builder_version_policy p b = b\<lparr> sb_version_policy := p \<rparr>"

definition build_starter ::
  "'a listen_env \<Rightarrow> ('c, 'k, 'r) tls_lib \<Rightarrow> ('g, 'v::linorder, 'b, 'a, 'r) server_builder
    \<Rightarrow> ('a build_error, ('g, 'v, 'b, 'a, 'r) http_server_starter) result outcome" where
  "build_starter env T b =
    new_internal env T (sb_config b) (sb_api b) (sb_tls b) (sb_version_policy b)"

text \<open>The older constructors of a starter; they go through the builder.\<close>

definition starter_new_with_tls ::
  "'a listen_env \<Rightarrow> ('c, 'k, 'r) tls_lib \<Rightarrow> 'a \<Rightarrow> 'a config_dropshot \<Rightarrow> ('b route_handler, 'g, 'v::linorder) api_description
    \<Rightarrow> 'r config_tls option \<Rightarrow> ('a build_error, ('g, 'v, 'b, 'a, 'r) http_server_starter) result outcome" where
  "starter_new_with_tls env T localhost config api tls =
    build_starter env T (builder_tls tls (builder_config config (server_builder_new localhost api)))"

definition starter_new ::
  "'a listen_env \<Rightarrow> ('c, 'k, 'r) tls_lib \<Rightarrow> 'a \<Rightarrow> 'a config_dropshot \<Rightarrow> ('b route_handler, 'g, 'v::linorder) api_description
    \<Rightarrow> ('a build_error, ('g, 'v, 'b, 'a, 'r) http_server_starter) result outcome" where
  "starter_new env T localhost config api = starter_new_with_tls env T localhost config api None"

section \<open>Handling a request\<close>

text \<open>Running the handler while the client stays connected.  When it is detached, its result
  comes back through a channel; a handler that panics drops the sender, and the server
  resumes the panic of the task.\<close>

definition run_handler ::
  "handler_task_mode \<Rightarrow> 'b route_handler \<Rightarrow> request_context \<Rightarrow> server_request
    \<Rightarrow> ('b handler_error, 'b response) result outcome" where
  "run_handler mode h rqctx request =
    (case mode of
       CancelOnDisconnect \<Rightarrow> h rqctx request
     | Detached \<Rightarrow>
         (let handler_task = h rqctx request;
              received = (case handler_task of Inl _ \<Rightarrow> None | Inr result \<Rightarrow> Some result)
          in (case received of
                Some result \<Rightarrow> Inr result
              | None \<Rightarrow>
                  (case handler_task of
                     Inl panicked \<Rightarrow> Inl panicked
                   | Inr _ \<Rightarrow> Inl (Panic (''task failed to send result but didn'' @ [CHR 0x27] @ ''t panic''))))))"

definition compress_response ::
  "('v, 'b) server_lib \<Rightarrow> server_config \<Rightarrow> string \<Rightarrow> header_map \<Rightarrow> 'b response \<Rightarrow> 'b response" where
  "compress_response L c rq_meth request_headers rsp =
    (if compression c = Gzip \<and> is_compressible_content_type (value_to_str L) (resp_headers rsp) then
       (let rsp1 = rsp\<lparr> resp_headers := add_vary_header (value_to_str L) (resp_headers rsp) \<rparr>
        in if should_compress_response (value_to_str L) rq_meth request_headers (resp_status rsp1)
                (resp_headers rsp1) (marked L rsp1)
           then apply_gzip_compression (value_to_str L) (exact_size L) (gzip L) rsp1
           else rsp1)
     else rsp)"

definition http_request_handle ::
  "('v::linorder, 'b) server_lib \<Rightarrow> ('g, 'v, 'b) dropshot_state \<Rightarrow> string \<Rightarrow> server_request
    \<Rightarrow> ('b handler_error, 'b response) result outcome" where
  "http_request_handle L st request_id request =
    (let from_err = handler_error_from (http_response_error (print_status L)) in
     case request_version (st_version_policy st) (rq_headers request) of
       Inl e \<Rightarrow> Inr (Inl (from_err e))
     | Inr found_version \<Rightarrow>
         rbind (lookup_route (http L) (decode_segment L) (print_version L) (st_router st)
                  (rq_method request) (rq_path request) found_version) (\<lambda>lookup_result.
         (case lookup_result of
            Inl e \<Rightarrow> Inr (Inl (from_err e))
          | Inr res \<Rightarrow>
              rbind (run_handler (default_handler_task_mode (st_config st)) (lr_handler res)
                       \<lparr> rc_config = st_config st, rc_request = request_info_new request,
                         rc_endpoint = lr_endpoint res, rc_request_id = request_id \<rparr> request)
                (\<lambda>handled.
                (case handled of
                   Inl he \<Rightarrow> Inr (Inl he)
                 | Inr response \<Rightarrow>
                     (let response = compress_response L (st_config st) (rq_method request)
                                       (rq_headers request) response
                      in if \<not> header_value_ok (http L) request_id
                         then Inl (Panic ''called `Result::unwrap()` on an `Err` value'')
                         else Inr (Inr (response\<lparr> resp_headers :=
                                hm_insert HEADER_REQUEST_ID request_id (resp_headers response) \<rparr>))))))))"

definition http_request_handle_wrap ::
  "('v::linorder, 'b) server_lib \<Rightarrow> ('g, 'v, 'b) dropshot_state \<Rightarrow> string \<Rightarrow> server_request
    \<Rightarrow> 'b response outcome" where
  "http_request_handle_wrap L st request_id request =
    rbind (http_request_handle L st request_id request) (\<lambda>maybe_response.
    (case maybe_response of
       Inl err \<Rightarrow> handler_error_into_response (http L) (error_body L) request_id err
     | Inr response \<Rightarrow> Inr response))"

section \<open>Lemmas\<close>

definition error_status :: "status_code \<Rightarrow> bool" where
  "error_status n \<longleftrightarrow> 400 \<le> n \<and> n < 600"

lemma error_status_of_wf: "error_status_wf e \<Longrightarrow> error_status (as_status e)"
  by (simp add: error_status_wf_def error_status_def)

lemma run_handler_mode [simp]: "run_handler mode h rqctx request = h rqctx request"
  by (cases mode) (auto simp: run_handler_def Let_def split: sum.splits)

lemma from_http_error [simp]:
  "handler_error_from (http_response_error disp) e = DropshotErr e"
  by (simp add: handler_error_from_def http_response_error_def http_error_to_response_def)

lemma find_handler_member:
  "find_handler_matching_version hs ver = Some h \<Longrightarrow> h \<in> set hs"
  by (auto simp: find_handler_matching_version_def find_Some_iff)

text \<open>Routing answers with a registered handler or with a client error.\<close>

lemma lookup_route_answers:
  assumes "router_reachable r" "http_lib_documented H" "methods_printable H r"
  shows "(\<exists>res h. lookup_route H decode shw r m p ver = Inr (Inr res)
      \<and> h \<in> registered r \<and> lr_handler res = handler h)
    \<or> (\<exists>err. lookup_route H decode shw r m p ver = Inr (Inl err)
      \<and> as_status (status_code err) \<in> {400, 404, 405})"
proof (cases "input_path_to_segments decode p")
  case (Inl d)
  then show ?thesis by (simp add: lookup_route_def)
next
  case (Inr ss)
  show ?thesis
  proof (cases "\<exists>t bs. routes_to r ss t bs")
    case True
    then obtain t bs where t: "routes_to r ss t bs" by blast
    note look = lookup_route_cases[OF assms Inr t, where m = m and ver = ver and shw = shw]
    show ?thesis
    proof (cases "find_handler_matching_version (route_table r (t, to_upper m)) ver")
      case None
      then show ?thesis using look by (auto split: if_splits)
    next
      case (Some h)
      then have "h \<in> registered r"
        using find_handler_member[OF Some] by (auto simp: registered_def route_table_def)
      then show ?thesis using look Some by auto
    qed
  next
    case False
    then show ?thesis
      using walk_no_route[OF reachable_wf[OF assms(1)]] by (simp add: lookup_route_segments[OF Inr])
  qed
qed

text \<open>What the theorems assume of the other crates, of the policy and of the handlers.\<close>

definition handler_sound :: "'b route_handler \<Rightarrow> bool" where
  "handler_sound h \<longleftrightarrow>
    (\<forall>c q. case h c q of Inl _ \<Rightarrow> False | Inr (Inl he) \<Rightarrow> error_status (he_status_code he) | Inr (Inr _) \<Rightarrow> True)"

definition policy_sound :: "'v version_policy \<Rightarrow> bool" where
  "policy_sound p \<longleftrightarrow> (\<forall>hs e. request_version p hs = Inl e \<longrightarrow> http_error_wf e)"

definition server_sound :: "('v::linorder, 'b) server_lib \<Rightarrow> ('g, 'v, 'b) dropshot_state \<Rightarrow> bool" where
  "server_sound L st \<longleftrightarrow>
    http_lib_documented (http L) \<and> header_value_ok (http L) CONTENT_TYPE_JSON
    \<and> router_reachable (st_router st) \<and> methods_printable (http L) (st_router st)
    \<and> policy_sound (st_version_policy st)
    \<and> (\<forall>e \<in> registered (st_router st). handler_sound (handler e))"

lemma http_request_handle_answers:
  assumes "server_sound L st" "header_value_ok (http L) rid"
  shows "(\<exists>he. http_request_handle L st rid rq = Inr (Inl he) \<and> error_status (he_status_code he))
    \<or> (\<exists>rsp. http_request_handle L st rid rq = Inr (Inr rsp)
        \<and> resp_headers rsp HEADER_REQUEST_ID = [rid])"
proof (cases "request_version (st_version_policy st) (rq_headers rq)")
  case (Inl e)
  then show ?thesis
    using assms(1) by (auto simp: http_request_handle_def server_sound_def policy_sound_def
        http_error_wf_def intro: error_status_of_wf)
next
  case (Inr ver)
  let ?look = "lookup_route (http L) (decode_segment L) (print_version L) (st_router st)
    (rq_method rq) (rq_path rq) ver"
  from assms(1) consider (found) res e where "?look = Inr (Inr res)" "e \<in> registered (st_router st)"
      "lr_handler res = handler e"
    | (err) err where "?look = Inr (Inl err)" "as_status (status_code err) \<in> {400, 404, 405}"
    using lookup_route_answers unfolding server_sound_def by blast
  then show ?thesis
  proof cases
    case err
    then show ?thesis using Inr by (auto simp: http_request_handle_def error_status_def)
  next
    case found
    let ?run = "handler e \<lparr> rc_config = st_config st, rc_request = request_info_new rq,
      rc_endpoint = lr_endpoint res, rc_request_id = rid \<rparr> rq"
    have "handler_sound (handler e)" using assms(1) found(2) by (simp add: server_sound_def)
    then have "case ?run of Inl _ \<Rightarrow> False | Inr (Inl he) \<Rightarrow> error_status (he_status_code he)
        | Inr (Inr _) \<Rightarrow> True"
      by (simp only: handler_sound_def)
    then consider (he) he where "?run = Inr (Inl he)" "error_status (he_status_code he)"
      | (rsp) rsp where "?run = Inr (Inr rsp)"
      by (auto split: sum.splits)
    then show ?thesis
      using Inr found(1,3) assms(2) by cases (auto simp: http_request_handle_def Let_def)
  qed
qed

definition with_request_id :: "string \<Rightarrow> 'b response \<Rightarrow> 'b response" where
  "with_request_id rid rsp = rsp\<lparr> resp_headers := hm_insert HEADER_REQUEST_ID rid (resp_headers rsp) \<rparr>"

lemma http_request_handle_found:
  assumes "request_version (st_version_policy st) (rq_headers rq) = Inr ver"
    and "lookup_route (http L) (decode_segment L) (print_version L) (st_router st)
      (rq_method rq) (rq_path rq) ver = Inr (Inr res)"
    and "header_value_ok (http L) rid"
  shows "http_request_handle L st rid rq =
    rbind (lr_handler res \<lparr> rc_config = st_config st, rc_request = request_info_new rq,
        rc_endpoint = lr_endpoint res, rc_request_id = rid \<rparr> rq)
      (\<lambda>handled. Inr (rbind handled (\<lambda>rsp. Inr (with_request_id rid
        (compress_response L (st_config st) (rq_method rq) (rq_headers rq) rsp)))))"
  using assms
  by (auto simp: http_request_handle_def Let_def with_request_id_def
      intro!: arg_cong[where f = "rbind _"] ext split: sum.splits)

lemma matches_All [simp]: "matches All v"
  by (cases v) auto

lemma compress_keeps_status: "resp_status (compress_response L c m rh rsp) = resp_status rsp"
  by (simp add: compress_response_def apply_gzip_compression_def Let_def split: option.splits)

section \<open>A server with one endpoint\<close>

definition hello_handler :: "string route_handler" where
  "hello_handler c q = Inr (Inr \<lparr> resp_status = 200, resp_headers = hm_empty, resp_body = ''hello'' \<rparr>)"

definition hello_endpoint :: "(string route_handler, unit, nat) api_endpoint" where
  "hello_endpoint =
    \<lparr> operation_id = ''hello'', handler = hello_handler, method = ''GET'', path = ''/hello'',
      parameters = [], body_content_type = Json, request_body_max_bytes = Some 7,
      ep_response = api_endpoint_response_default, ep_error = None, summary = None,
      description = None, tags = [], extension_mode = ModeNone, visible = True,
      deprecated = False, versions = All \<rparr>"

definition hello_api :: "(string route_handler, unit, nat) api_description" where
  "hello_api =
    \<lparr> router = (case router_insert hello_endpoint router_new of Inr r \<Rightarrow> r | Inl _ \<Rightarrow> router_new),
      tag_conf = tag_config_default \<rparr>"

definition hello_state :: "(unit, nat, string) dropshot_state" where
  "hello_state = \<lparr> st_config = server_config_of (config_default ()), st_router = router hello_api,
     st_version_policy = Unversioned \<rparr>"

definition hello_lib :: "(nat, string) server_lib" where
  "hello_lib = \<lparr> http = sample_lib, decode_segment = Inr, print_version = (\<lambda>_. ''v''),
     print_status = (\<lambda>_. ''error''), value_to_str = Some, exact_size = (\<lambda>b. Some (length b)),
     gzip = id, marked = (\<lambda>_. False), error_body = body_message \<rparr>"

definition hello_request :: server_request where
  "hello_request = \<lparr> rq_method = ''get'', rq_query = None, rq_headers = hm_empty, rq_body = [],
     rq_path = ''/hello'' \<rparr>"

definition no_tls :: "(unit, unit, unit) tls_lib" where
  "no_tls = \<lparr> open_file = Inr, pem_certs = (\<lambda>_. Inr []), pem_keys = (\<lambda>_. Inr []),
     single_cert = (\<lambda>_ _. None) \<rparr>"

lemma hello_inserts: "router_insert hello_endpoint router_new = Inr (router hello_api)"
proof -
  have "is_ok (router_insert hello_endpoint router_new)" by code_simp
  then show ?thesis by (auto simp: hello_api_def is_ok_iff)
qed

lemma hello_reachable: "router_reachable (router hello_api)"
  using router_reachable.ins[OF router_reachable.new hello_inserts] .

lemma hello_registered: "registered (router hello_api) = {hello_endpoint}"
  using registered_insert[OF reachable_wf[OF router_reachable.new] hello_inserts]
  by (simp add: registered_def router_new_def)

lemma hello_table: "route_table (router hello_api) ([Literal ''hello''], ''GET'') = [hello_endpoint]"
proof -
  have "template_of (path hello_endpoint) = Inr [Literal ''hello'']" "to_upper (method hello_endpoint) = ''GET''"
    by code_simp+
  then show ?thesis
    using router_insert_table[OF reachable_wf[OF router_reachable.new] hello_inserts]
    by (auto simp: route_table_def router_new_def)
qed

lemma hello_routes: "routes_to (router hello_api) [''hello''] [Literal ''hello''] []"
proof -
  have "case node_at [Literal ''hello''] (root (router hello_api)) of None \<Rightarrow> False
      | Some c \<Rightarrow> \<not> has_rest_edge c" by code_simp
  moreover have "match_template [Literal ''hello''] [''hello''] = Some []" by code_simp
  ultimately show ?thesis by (auto simp: routes_to_def split: option.splits)
qed

lemma hello_lib_documented:
  "http_lib_documented (http hello_lib)" "methods_printable (http hello_lib) r"
  "header_value_ok (http hello_lib) v"
  by (auto simp: hello_lib_def sample_lib_def http_lib_documented_def methods_printable_def)

lemma hello_sound: "server_sound hello_lib hello_state"
  using hello_lib_documented hello_reachable
  by (auto simp: server_sound_def hello_state_def policy_sound_def hello_registered hello_endpoint_def
      handler_sound_def hello_handler_def)

section \<open>Properties\<close>

text \<open>A server without a version policy only ever serves endpoints that exist in every
  version: building one fails with the dedicated error exactly when the description has a
  version-limited endpoint (and socket and TLS are fine), and a server that was built
  routes with the description's router under the given policy.\<close>

theorem unversioned_server:
  assumes "router_reachable (router (sb_api b))" "sb_version_policy b = Unversioned"
    and "listen env (bind_address (sb_config b)) = Inr local_addr" "sb_tls b = None"
  shows "(build_starter env T b = Inr (Inl UnversionedServerHasVersionedRoutes) \<longleftrightarrow>
      (\<exists>e \<in> registered (router (sb_api b)). versions e \<noteq> All))
    \<and> (\<forall>s. build_starter env T b = Inr (Inr s) \<longrightarrow>
        st_router (hs_app_state s) = router (sb_api b) \<and> hs_local_addr s = local_addr
        \<and> (\<forall>e \<in> registered (st_router (hs_app_state s)). \<forall>v. matches (versions e) v))"
  using assms has_versioned_routes_exact[OF assms(1)]
  by (auto simp: build_starter_def new_internal_def)

theorem unversioned_server_witness:
  "\<exists>s. build_starter \<lparr> le_bind = Inr (), le_nonblocking = Inr (), le_from_std = Inr (), le_local_addr = Inr 9 \<rparr>
      no_tls (server_builder_new (0::nat) hello_api) = Inr (Inr s)
    \<and> st_router (hs_app_state s) = router hello_api \<and> hs_local_addr s = 9"
proof -
  let ?env = "\<lparr> le_bind = Inr (), le_nonblocking = Inr (), le_from_std = Inr (), le_local_addr = Inr 9 \<rparr>"
  let ?b = "server_builder_new (0::nat) hello_api :: (unit, nat, string, nat, unit) server_builder"
  have "router (sb_api ?b) = router hello_api" "sb_version_policy ?b = Unversioned" "sb_tls ?b = None"
    "listen ?env (bind_address (sb_config ?b)) = Inr 9"
    by (simp_all add: server_builder_new_def listen_def)
  note b = this
  note spec = unversioned_server[of ?b ?env 9 no_tls,
      unfolded b(1), OF hello_reachable b(2,4,3)]
  have "\<not> has_versioned_routes (router hello_api)"
    using has_versioned_routes_exact[OF hello_reachable] hello_registered by (simp add: hello_endpoint_def)
  then have "\<exists>s. build_starter ?env no_tls ?b = Inr (Inr s)"
    using b by (simp add: build_starter_def new_internal_def)
  then show ?thesis using spec by blast
qed



text \<open>The way of a request to the handler that the router finds.\<close>

lemma dispatch_to_handler:
  assumes "router_reachable (st_router st)" "http_lib_documented (http L)"
    and "methods_printable (http L) (st_router st)" "header_value_ok (http L) rid"
    and "request_version (st_version_policy st) (rq_headers rq) = Inr ver"
    and "input_path_to_segments (decode_segment L) (rq_path rq) = Inr ss"
    and "routes_to (st_router st) ss t bs"
    and "find_handler_matching_version (route_table (st_router st) (t, to_upper (rq_method rq))) ver = Some e"
  shows "\<exists>ctx. map_of (rem_variables (rc_endpoint ctx)) = map_of bs
    \<and> rem_operation_id (rc_endpoint ctx) = operation_id e \<and> rc_request_id ctx = rid
    \<and> rem_body_content_type (rc_endpoint ctx) = body_content_type e \<and> rc_request ctx = request_info_new rq
    \<and> context_body_max_bytes (rc_config ctx) (rc_endpoint ctx) =
        (case request_body_max_bytes e of Some n \<Rightarrow> n
         | None \<Rightarrow> default_request_body_max_bytes (st_config st))
    \<and> http_request_handle_wrap L st rid rq =
        rbind (handler e ctx rq) (\<lambda>handled. case handled of
            Inl he \<Rightarrow> handler_error_into_response (http L) (error_body L) rid he
          | Inr rsp \<Rightarrow> Inr (with_request_id rid
              (compress_response L (st_config st) (rq_method rq) (rq_headers rq) rsp)))"
proof -
  from lookup_route_cases[OF assms(1-3,6,7), where m = "rq_method rq" and ver = ver
      and shw = "print_version L"] assms(8)
  obtain res where res: "lookup_route (http L) (decode_segment L) (print_version L) (st_router st)
        (rq_method rq) (rq_path rq) ver = Inr (Inr res)"
      "lr_handler res = handler e" "rem_operation_id (lr_endpoint res) = operation_id e"
      "map_of (rem_variables (lr_endpoint res)) = map_of bs"
      "rem_request_body_max_bytes (lr_endpoint res) = request_body_max_bytes e"
      "rem_body_content_type (lr_endpoint res) = body_content_type e"
    by auto
  let ?ctx = "\<lparr> rc_config = st_config st, rc_request = request_info_new rq,
    rc_endpoint = lr_endpoint res, rc_request_id = rid \<rparr>"
  have "http_request_handle_wrap L st rid rq =
      rbind (handler e ?ctx rq) (\<lambda>handled. case handled of
          Inl he \<Rightarrow> handler_error_into_response (http L) (error_body L) rid he
        | Inr rsp \<Rightarrow> Inr (with_request_id rid
            (compress_response L (st_config st) (rq_method rq) (rq_headers rq) rsp)))"
    unfolding http_request_handle_wrap_def http_request_handle_found[OF assms(5) res(1) assms(4)] res(2)
    by (cases "handler e ?ctx rq") (auto split: sum.splits)
  then show ?thesis
    using res(3-6) by (intro exI[of _ ?ctx]) (simp add: context_body_max_bytes_def)
qed

text \<open>C4. A request that a registered endpoint matches is answered by that endpoint: its
  handler runs with the variables of the path and the body limit of the endpoint, and what
  it returns is the response, compressed if negotiated and labelled with the request id.\<close>

theorem request_dispatch:
  assumes "router_reachable (st_router st)" "http_lib_documented (http L)"
    and "methods_printable (http L) (st_router st)" "header_value_ok (http L) rid"
    and "request_version (st_version_policy st) (rq_headers rq) = Inr ver"
    and "input_path_to_segments (decode_segment L) (rq_path rq) = Inr ss"
    and "routes_to (st_router st) ss t bs"
    and "find_handler_matching_version (route_table (st_router st) (t, to_upper (rq_method rq))) ver = Some e"
  shows "\<exists>ctx. map_of (rem_variables (rc_endpoint ctx)) = map_of bs
    \<and> rem_operation_id (rc_endpoint ctx) = operation_id e \<and> rc_request_id ctx = rid
    \<and> context_body_max_bytes (rc_config ctx) (rc_endpoint ctx) =
        (case request_body_max_bytes e of Some n \<Rightarrow> n
         | None \<Rightarrow> default_request_body_max_bytes (st_config st))
    \<and> http_request_handle_wrap L st rid rq =
        rbind (handler e ctx rq) (\<lambda>handled. case handled of
            Inl he \<Rightarrow> handler_error_into_response (http L) (error_body L) rid he
          | Inr rsp \<Rightarrow> Inr (with_request_id rid
              (compress_response L (st_config st) (rq_method rq) (rq_headers rq) rsp)))"
  using dispatch_to_handler[OF assms] by blast

theorem request_dispatch_witness:
  "\<exists>ctx. map_of (rem_variables (rc_endpoint ctx)) = map_of []
    \<and> rem_operation_id (rc_endpoint ctx) = operation_id hello_endpoint \<and> rc_request_id ctx = ''id1''
    \<and> context_body_max_bytes (rc_config ctx) (rc_endpoint ctx) =
        (case request_body_max_bytes hello_endpoint of Some n \<Rightarrow> n
         | None \<Rightarrow> default_request_body_max_bytes (st_config hello_state))
    \<and> http_request_handle_wrap hello_lib hello_state ''id1'' hello_request =
        rbind (handler hello_endpoint ctx hello_request) (\<lambda>handled. case handled of
            Inl he \<Rightarrow> handler_error_into_response (http hello_lib) (error_body hello_lib) ''id1'' he
          | Inr rsp \<Rightarrow> Inr (with_request_id ''id1''
              (compress_response hello_lib (st_config hello_state) (rq_method hello_request)
                (rq_headers hello_request) rsp)))"
proof (rule request_dispatch[OF _ hello_lib_documented(1,2,3)])
  show "router_reachable (st_router hello_state)" using hello_reachable by (simp add: hello_state_def)
  show "request_version (st_version_policy hello_state) (rq_headers hello_request) = Inr None"
    by (simp add: hello_state_def)
  show "input_path_to_segments (decode_segment hello_lib) (rq_path hello_request) = Inr [''hello'']"
    by code_simp
  show "routes_to (st_router hello_state) [''hello''] [Literal ''hello''] []"
    using hello_routes by (simp add: hello_state_def)
  have "to_upper (rq_method hello_request) = ''GET''" by code_simp
  then show "find_handler_matching_version (route_table (st_router hello_state)
      ([Literal ''hello''], to_upper (rq_method hello_request))) None = Some hello_endpoint"
    using hello_table by (simp add: hello_state_def find_handler_matching_version_def)
qed

text \<open>C17. Compression is negotiated: the encoding of a response changes only to gzip, only on
  a server configured for it, for a client that accepts it and asked for a body, and only
  if the handler chose no encoding itself; and a response that could have been compressed
  always says that it varies on the client's choice.\<close>

theorem compression_negotiated:
  assumes "value_to_str L ''Accept-Encoding'' = Some ''Accept-Encoding''"
  shows "let rsp' = compress_response L c m rh rsp in
    resp_status rsp' = resp_status rsp
    \<and> (resp_headers rsp' ''content-encoding'' \<noteq> resp_headers rsp ''content-encoding'' \<longrightarrow>
        resp_headers rsp' ''content-encoding'' = [''gzip''] \<and> resp_headers rsp ''content-encoding'' = []
        \<and> compression c = Gzip \<and> accepts_gzip_encoding (value_to_str L) rh \<and> m \<noteq> ''HEAD'')
    \<and> (compression c = Gzip \<and> is_compressible_content_type (value_to_str L) (resp_headers rsp) \<longrightarrow>
        ''*'' \<in> set (resp_headers rsp' ''vary'')
        \<or> list_ex (header_value_contains_accept_encoding (value_to_str L)) (resp_headers rsp' ''vary''))"
proof -
  have ae: "header_value_contains_accept_encoding (value_to_str L) ''Accept-Encoding''"
  proof -
    have "list_ex (\<lambda>x. eq_ignore_ascii_case (trim x) ''accept-encoding'') (split_on (CHR '','') ''Accept-Encoding'')"
      by code_simp
    then show ?thesis using assms by (simp add: header_value_contains_accept_encoding_def)
  qed
  have vary: "''*'' \<in> set (add_vary_header (value_to_str L) h ''vary'')
      \<or> list_ex (header_value_contains_accept_encoding (value_to_str L)) (add_vary_header (value_to_str L) h ''vary'')"
    for h using ae by (auto simp: add_vary_header_def)
  have other: "add_vary_header (value_to_str L) h ''content-encoding'' = h ''content-encoding''" for h
    by (simp add: add_vary_header_def)
  let ?h = "add_vary_header (value_to_str L) (resp_headers rsp)"
  let ?rsp1 = "rsp\<lparr> resp_headers := ?h \<rparr>"
  let ?P = "\<lambda>rsp'. (resp_headers rsp' ''content-encoding'' \<noteq> resp_headers rsp ''content-encoding'' \<longrightarrow>
        resp_headers rsp' ''content-encoding'' = [''gzip''] \<and> resp_headers rsp ''content-encoding'' = []
        \<and> compression c = Gzip \<and> accepts_gzip_encoding (value_to_str L) rh \<and> m \<noteq> ''HEAD'')
    \<and> (compression c = Gzip \<and> is_compressible_content_type (value_to_str L) (resp_headers rsp) \<longrightarrow>
        ''*'' \<in> set (resp_headers rsp' ''vary'')
        \<or> list_ex (header_value_contains_accept_encoding (value_to_str L)) (resp_headers rsp' ''vary''))"
  have "?P (compress_response L c m rh rsp)"
  proof (cases "compression c = Gzip \<and> is_compressible_content_type (value_to_str L) (resp_headers rsp)")
    case False
    then have "compress_response L c m rh rsp = rsp" by (simp only: compress_response_def if_False)
    then show ?thesis using False by auto
  next
    case comp: True
    show ?thesis
    proof (cases "should_compress_response (value_to_str L) m rh (resp_status ?rsp1) ?h (marked L ?rsp1)")
      case False
      then have "compress_response L c m rh rsp = ?rsp1"
        using comp by (simp add: compress_response_def Let_def)
      then show ?thesis using vary[of "resp_headers rsp"] other[of "resp_headers rsp"] by simp
    next
      case True
      then have should: "accepts_gzip_encoding (value_to_str L) rh" "m \<noteq> ''HEAD''"
          "?h ''content-encoding'' = []"
        by (auto simp: should_compress_response_def hm_contains_key_def split: if_splits)
      have "compress_response L c m rh rsp = apply_gzip_compression (value_to_str L) (exact_size L) (gzip L) ?rsp1"
        using comp True by (simp add: compress_response_def Let_def)
      moreover have "?P (apply_gzip_compression (value_to_str L) (exact_size L) (gzip L) ?rsp1)"
        using should comp vary[of "resp_headers rsp"] vary[of "hm_insert ''content-encoding'' ''gzip'' ?h"]
          other[of "resp_headers rsp"] other[of "hm_insert ''content-encoding'' ''gzip'' ?h"]
        unfolding apply_gzip_compression_def Let_def by simp
      ultimately show ?thesis by simp
    qed
  qed
  then show ?thesis by (simp only: Let_def compress_keeps_status)
qed

theorem compression_negotiated_witness:
  "let rsp' = compress_response hello_lib ((server_config_of (config_default ()))\<lparr> compression := Gzip \<rparr>) ''GET''
        (hm_insert ''accept-encoding'' ''gzip'' hm_empty) \<lparr> resp_status = 200,
          resp_headers = hm_insert ''content-type'' ''text/plain'' hm_empty, resp_body = replicate 600 CHR ''x'' \<rparr> in
    resp_status rsp' = 200
    \<and> (''*'' \<in> set (resp_headers rsp' ''vary'')
       \<or> list_ex (header_value_contains_accept_encoding (value_to_str hello_lib)) (resp_headers rsp' ''vary''))"
proof -
  let ?c = "(server_config_of (config_default ()))\<lparr> compression := Gzip \<rparr>"
  let ?r = "\<lparr> resp_status = 200, resp_headers = hm_insert ''content-type'' ''text/plain'' hm_empty,
    resp_body = replicate 600 CHR ''x'' \<rparr> :: string response"
  have ae: "value_to_str hello_lib ''Accept-Encoding'' = Some ''Accept-Encoding''"
    by (simp add: hello_lib_def)
  have "is_compressible_content_type Some (hm_insert ''content-type'' ''text/plain'' hm_empty)" by code_simp
  then have ct: "is_compressible_content_type (value_to_str hello_lib) (resp_headers ?r)"
    by (simp add: hello_lib_def)
  show ?thesis
    using compression_negotiated[OF ae, of ?c "''GET''" "hm_insert ''accept-encoding'' ''gzip'' hm_empty" ?r] ct
    by (simp add: Let_def)
qed

end
