(* ===== verification/Server_Lifecycle.thy ===== *)
theory Server_Lifecycle
  imports Server
begin

text \<open>
  The life of a running server (\<^verbatim>\<open>server.rs\<close>): the accept loop of the task that \<^verbatim>\<open>start\<close> spawns,
  with and without TLS, the connections and the requests on them, handlers that run detached,
  the refresh of certificates, and the shutdown.  It is a labelled step relation: an event is
  what the network, a handler task, the owner of the server or the scheduler of tokio does
  next, and a step is the code that it wakes up.

  \<^verbatim>\<open>select!\<close> picks any of its branches that is ready, so every event that is possible may come
  next.  hyper may serve further requests of a connection while it shuts it down, and so does
  the model.  A connection that is upgraded leaves the connections that are watched.
\<close>

section \<open>Runs of a step relation\<close>

inductive run :: "('s \<Rightarrow> 'e \<Rightarrow> 's \<Rightarrow> bool) \<Rightarrow> 's \<Rightarrow> 'e list \<Rightarrow> 's \<Rightarrow> bool" for step where
  run_Nil [intro]: "run step s [] s"
| run_Cons: "step s e s' \<Longrightarrow> run step s' es s'' \<Longrightarrow> run step s (e # es) s''"

inductive_cases run_ConsE: "run step s (e # es) s''"
inductive_simps run_Nil_iff [simp]: "run step s [] s'"

text \<open>An invariant of the steps holds along runs.\<close>

lemma run_invariant:
  assumes "run step s es s'" "P s" "\<And>s e s'. P s \<Longrightarrow> step s e s' \<Longrightarrow> P s'"
  shows "P s'"
  using assms by induction auto

lemma run_append: "run step s es s' \<Longrightarrow> run step s' es' s'' \<Longrightarrow> run step s (es @ es') s''"
  by (induction rule: run.induct) (auto intro: run_Cons)

section \<open>The state\<close>

text \<open>What the connections, the tasks and the owner of a server hold.  \<open>lc_tls\<close> is the slot that
  \<^verbatim>\<open>refresh_tls\<close> replaces; a socket being negotiated and a connection remember the
  configuration that they were accepted with.\<close>

record 'r lifecycle =
  lc_tls :: "'r option"
  lc_accepting :: bool
  lc_negotiating :: "(nat \<times> 'r) list"
  lc_connections :: "(nat \<times> 'r option) list"
  lc_requests :: "(nat \<times> nat) list"
  lc_detached :: "nat list"
  lc_close_channel :: bool
  lc_app_state :: bool
  lc_signalled :: bool
  lc_serving :: bool
  lc_stopped :: bool

definition start_server :: "'r option \<Rightarrow> 'r lifecycle" where
  "start_server tls =
    \<lparr> lc_tls = tls, lc_accepting = True, lc_negotiating = [], lc_connections = [], lc_requests = [],
      lc_detached = [], lc_close_channel = True, lc_app_state = True, lc_signalled = False,
      lc_serving = True, lc_stopped = False \<rparr>"

text \<open>\<^verbatim>\<open>ServerBuilder::start\<close>: the starter, and the server that it starts.\<close>

definition builder_start ::
  "'a listen_env \<Rightarrow> ('c, 'k, 'r) tls_lib \<Rightarrow> ('g, 'v::linorder, 'b, 'a, 'r) server_builder
    \<Rightarrow> ('a build_error, ('g, 'v, 'b, 'a, 'r) http_server_starter \<times> 'r lifecycle) result outcome" where
  "builder_start env T b =
    rbind (build_starter env T b) (\<lambda>built. Inr (rbind built (\<lambda>starter. Inr (starter, start_server (hs_tls starter)))))"

definition using_tls :: "'r lifecycle \<Rightarrow> bool" where
  "using_tls s = (lc_tls s \<noteq> None)"

text \<open>The server state is shared by its owner, the task that accepts, every connection and the
  context of every request; it holds one worker of the wait group, and each detached handler
  has one of its own.\<close>

definition app_state_held :: "'r lifecycle \<Rightarrow> bool" where
  "app_state_held s =
    (lc_app_state s \<or> lc_serving s \<or> lc_connections s \<noteq> [] \<or> lc_requests s \<noteq> [] \<or> lc_detached s \<noteq> [])"

definition workers :: "'r lifecycle \<Rightarrow> nat" where
  "workers s = (if app_state_held s then 1 else 0) + length (lc_detached s)"

section \<open>Accepting\<close>

text \<open>How the acceptor of TCP connections treats an error: those of a single socket are ignored,
  any other is waited out; the value is the delay in milliseconds.\<close>

datatype io_error_kind = ConnectionRefused | ConnectionAborted | ConnectionReset | OtherError string

fun accept_error_delay :: "io_error_kind \<Rightarrow> nat" where
  "accept_error_delay ConnectionRefused = 0"
| "accept_error_delay ConnectionAborted = 0"
| "accept_error_delay ConnectionReset = 0"
| "accept_error_delay (OtherError _) = 100"

text \<open>The loop over what the listener answers: the socket that it returns, the delays before
  it, and the answers that are left; without a socket it is still waiting.\<close>

fun http_accept :: "(io_error_kind, 'sock) result list \<Rightarrow> ('sock \<times> (io_error_kind, 'sock) result list) option \<times> nat" where
  "http_accept [] = (None, 0)"
| "http_accept (Inr sock # rest) = (Some (sock, rest), 0)"
| "http_accept (Inl e # rest) = (let (r, delay) = http_accept rest in (r, accept_error_delay e + delay))"

section \<open>The owner's operations\<close>

text \<open>Both \<^verbatim>\<open>expect\<close>s of \<^verbatim>\<open>close\<close>: the channel is there, and its receiver, which the task
  that accepts owns, is too.  The owner's share of the state is dropped before the shutdown is awaited.\<close>

definition close_server :: "'r lifecycle \<Rightarrow> 'r lifecycle outcome" where
  "close_server s =
    (if \<not> lc_close_channel s then Inl (Panic ''cannot close twice'')
     else if \<not> lc_serving s then Inl (Panic ''failed to send close signal'')
     else Inr (s\<lparr> lc_close_channel := False, lc_signalled := True, lc_app_state := False \<rparr>))"

text \<open>Dropping a server that was not closed sends the signal, if there still is a receiver.\<close>

definition drop_server :: "'r lifecycle \<Rightarrow> 'r lifecycle" where
  "drop_server s =
    (if lc_close_channel s
     then s\<lparr> lc_close_channel := False, lc_signalled := lc_signalled s \<or> lc_serving s, lc_app_state := False \<rparr>
     else s\<lparr> lc_app_state := False \<rparr>)"

text \<open>The conversion of the new configuration is unwrapped.\<close>

definition refresh_tls ::
  "('c, 'k, 'r) tls_lib \<Rightarrow> 'r config_tls \<Rightarrow> 'r lifecycle \<Rightarrow> ((string, unit) result \<times> 'r lifecycle) outcome" where
  "refresh_tls T config s =
    (case lc_tls s of
       None \<Rightarrow> Inr (Inl ''Not configured for TLS'', s)
     | Some _ \<Rightarrow>
         rbind (rustls_config_of T config :: (unit build_error, 'r) result outcome) (\<lambda>r.
         (case r of
            Inl _ \<Rightarrow> Inl (Panic ''called `Result::unwrap()` on an `Err` value'')
          | Inr cfg \<Rightarrow> Inr (Inr (), s\<lparr> lc_tls := Some cfg \<rparr>))))"

section \<open>Steps\<close>

text \<open>\<open>Accepted\<close> hands a new socket to the acceptor; \<open>Request\<close> is a request that hyper passes to
  the service of a connection, \<open>Responded\<close> its answer, \<open>HandlerDone\<close> the end of a detached
  handler, and \<open>ConnectionDone\<close> the end of a connection, whether its client has gone or hyper has
  closed it.  \<open>Signal\<close>, \<open>Drained\<close> and \<open>Joined\<close> are the three things the shutdown waits for.\<close>

datatype 'r lifecycle_event =
    AcceptFailed io_error_kind
  | Accepted nat
  | Negotiated nat
  | NegotiationFailed nat
  | Request nat nat
  | HandlerDone nat
  | Responded nat nat
  | ConnectionDone nat
  | Refresh 'r
  | Close
  | DropServer
  | Signal
  | Drained
  | Joined

text \<open>What the branches do with the state.\<close>

definition serve_connection :: "nat \<Rightarrow> 'r option \<Rightarrow> 'r lifecycle \<Rightarrow> 'r lifecycle" where
  "serve_connection c t s = s\<lparr> lc_connections := (c, t) # lc_connections s \<rparr>"

definition start_negotiation :: "nat \<Rightarrow> 'r \<Rightarrow> 'r lifecycle \<Rightarrow> 'r lifecycle" where
  "start_negotiation c t s = s\<lparr> lc_negotiating := (c, t) # lc_negotiating s \<rparr>"

text \<open>A negotiation that fails is only logged.\<close>

definition end_negotiation :: "nat \<Rightarrow> 'r \<Rightarrow> bool \<Rightarrow> 'r lifecycle \<Rightarrow> 'r lifecycle" where
  "end_negotiation c t ok s =
    (let s' = s\<lparr> lc_negotiating := remove1 (c, t) (lc_negotiating s) \<rparr>
     in if ok then serve_connection c (Some t) s' else s')"

text \<open>Detached, the handler becomes a task of its own that holds a worker.\<close>

definition begin_request :: "handler_task_mode \<Rightarrow> nat \<Rightarrow> nat \<Rightarrow> 'r lifecycle \<Rightarrow> 'r lifecycle" where
  "begin_request mode c r s =
    (let s' = s\<lparr> lc_requests := (c, r) # lc_requests s \<rparr>
     in case mode of
          CancelOnDisconnect \<Rightarrow> s'
        | Detached \<Rightarrow> s'\<lparr> lc_detached := r # lc_detached s \<rparr>)"

definition end_handler :: "nat \<Rightarrow> 'r lifecycle \<Rightarrow> 'r lifecycle" where
  "end_handler r s = s\<lparr> lc_detached := remove1 r (lc_detached s) \<rparr>"

text \<open>The end of a connection cancels its requests.\<close>

definition end_connection :: "nat \<Rightarrow> 'r lifecycle \<Rightarrow> 'r lifecycle" where
  "end_connection c s =
    s\<lparr> lc_connections := filter (\<lambda>k. fst k \<noteq> c) (lc_connections s),
       lc_requests := filter (\<lambda>k. fst k \<noteq> c) (lc_requests s) \<rparr>"

text \<open>The signal ends the loop, and with it the negotiations that the acceptor holds.\<close>

definition end_accepting :: "'r lifecycle \<Rightarrow> 'r lifecycle" where
  "end_accepting s = s\<lparr> lc_accepting := False, lc_negotiating := [] \<rparr>"

lemma begin_request_eq:
  "begin_request mode c r s =
    s\<lparr> lc_requests := (c, r) # lc_requests s,
       lc_detached := (if mode = Detached then [r] else []) @ lc_detached s \<rparr>"
  by (cases mode) (simp_all add: begin_request_def)

lemmas branch_defs = serve_connection_def start_negotiation_def end_negotiation_def begin_request_eq
  end_handler_def end_connection_def end_accepting_def

inductive lifecycle_step ::
  "handler_task_mode \<Rightarrow> 'r lifecycle \<Rightarrow> 'r lifecycle_event \<Rightarrow> 'r lifecycle \<Rightarrow> bool" for mode where
  accept_failed:
    "lc_accepting s \<Longrightarrow> lifecycle_step mode s (AcceptFailed e) s"
| accept_http:
    "lc_accepting s \<Longrightarrow> lc_tls s = None \<Longrightarrow> c \<notin> fst ` set (lc_connections s) \<Longrightarrow>
     lifecycle_step mode s (Accepted c) (serve_connection c None s)"
| accept_https:
    "lc_accepting s \<Longrightarrow> lc_tls s = Some t \<Longrightarrow> c \<notin> fst ` set (lc_negotiating s) \<Longrightarrow>
     c \<notin> fst ` set (lc_connections s) \<Longrightarrow>
     lifecycle_step mode s (Accepted c) (start_negotiation c t s)"
| negotiated:
    "lc_accepting s \<Longrightarrow> map_of (lc_negotiating s) c = Some t \<Longrightarrow>
     lifecycle_step mode s (Negotiated c) (end_negotiation c t True s)"
| negotiation_failed:
    "lc_accepting s \<Longrightarrow> map_of (lc_negotiating s) c = Some t \<Longrightarrow>
     lifecycle_step mode s (NegotiationFailed c) (end_negotiation c t False s)"
| request:
    "c \<in> fst ` set (lc_connections s) \<Longrightarrow> r \<notin> set (lc_detached s) \<Longrightarrow>
     lifecycle_step mode s (Request c r) (begin_request mode c r s)"
| handler_done:
    "r \<in> set (lc_detached s) \<Longrightarrow>
     lifecycle_step mode s (HandlerDone r) (end_handler r s)"
| responded:
    "(c, r) \<in> set (lc_requests s) \<Longrightarrow> r \<notin> set (lc_detached s) \<Longrightarrow>
     lifecycle_step mode s (Responded c r) (s\<lparr> lc_requests := remove1 (c, r) (lc_requests s) \<rparr>)"
| connection_done:
    "c \<in> fst ` set (lc_connections s) \<Longrightarrow>
     lifecycle_step mode s (ConnectionDone c) (end_connection c s)"
| refresh:
    "lc_app_state s \<Longrightarrow> lc_tls s \<noteq> None \<Longrightarrow>
     lifecycle_step mode s (Refresh t) (s\<lparr> lc_tls := Some t \<rparr>)"
| close:
    "lc_app_state s \<Longrightarrow> close_server s = Inr s' \<Longrightarrow> lifecycle_step mode s Close s'"
| drop:
    "lc_app_state s \<Longrightarrow> lifecycle_step mode s DropServer (drop_server s)"
| signal:
    "lc_accepting s \<Longrightarrow> lc_signalled s \<Longrightarrow>
     lifecycle_step mode s Signal (end_accepting s)"
| drained:
    "\<not> lc_accepting s \<Longrightarrow> lc_serving s \<Longrightarrow> lc_connections s = [] \<Longrightarrow>
     lifecycle_step mode s Drained (s\<lparr> lc_serving := False \<rparr>)"
| joined:
    "\<not> lc_serving s \<Longrightarrow> \<not> lc_stopped s \<Longrightarrow> workers s = 0 \<Longrightarrow>
     lifecycle_step mode s Joined (s\<lparr> lc_stopped := True \<rparr>)"

code_pred (modes: i \<Rightarrow> i \<Rightarrow> i \<Rightarrow> o \<Rightarrow> bool) lifecycle_step .

inductive_cases lifecycle_stepE: "lifecycle_step mode s e s'"

section \<open>The invariant\<close>

text \<open>Requests belong to open connections; the task that accepts outlives its loop; the owner's
  end of the channel is used up exactly when the signal is sent, and with it goes the owner's
  share of the state.\<close>

definition connections_inv :: "'r lifecycle \<Rightarrow> bool" where
  "connections_inv s \<longleftrightarrow>
    (\<forall>(c, r) \<in> set (lc_requests s). \<exists>t. (c, t) \<in> set (lc_connections s))
    \<and> (\<not> lc_serving s \<longrightarrow> lc_connections s = []) \<and> (lc_accepting s \<longrightarrow> lc_serving s)"

definition owner_inv :: "'r lifecycle \<Rightarrow> bool" where
  "owner_inv s \<longleftrightarrow>
    (lc_app_state s \<longleftrightarrow> lc_close_channel s) \<and> (lc_close_channel s \<longleftrightarrow> \<not> lc_signalled s)
    \<and> (\<not> lc_accepting s \<longrightarrow> lc_negotiating s = [] \<and> lc_signalled s) \<and> (lc_accepting s \<longrightarrow> lc_serving s)"

definition handlers_inv :: "handler_task_mode \<Rightarrow> 'r lifecycle \<Rightarrow> bool" where
  "handlers_inv mode s \<longleftrightarrow>
    distinct (lc_detached s) \<and> (mode = CancelOnDisconnect \<longrightarrow> lc_detached s = [])"

definition stopped_inv :: "'r lifecycle \<Rightarrow> bool" where
  "stopped_inv s \<longleftrightarrow>
    (lc_accepting s \<longrightarrow> lc_serving s) \<and> (lc_app_state s \<longleftrightarrow> lc_close_channel s)
    \<and> (lc_stopped s \<longrightarrow> \<not> lc_serving s \<and> workers s = 0)"

definition lifecycle_inv :: "handler_task_mode \<Rightarrow> 'r lifecycle \<Rightarrow> bool" where
  "lifecycle_inv mode s \<longleftrightarrow> connections_inv s \<and> owner_inv s \<and> handlers_inv mode s \<and> stopped_inv s"

lemma start_server_inv: "lifecycle_inv mode (start_server tls)"
  by (simp add: lifecycle_inv_def connections_inv_def owner_inv_def handlers_inv_def stopped_inv_def
      start_server_def)

lemmas owner_defs = close_server_def drop_server_def

lemma close_server_Inr: "close_server s = Inr s' \<Longrightarrow> lc_close_channel s \<and> lc_serving s
    \<and> s' = s\<lparr> lc_close_channel := False, lc_signalled := True, lc_app_state := False \<rparr>"
  by (auto simp: close_server_def split: if_splits)

lemma workers_0_iff: "workers s = 0 \<longleftrightarrow> \<not> app_state_held s \<and> lc_detached s = []"
  by (simp add: workers_def)

lemma connections_inv_step: "lifecycle_step mode s e s' \<Longrightarrow> connections_inv s \<Longrightarrow> connections_inv s'"
  by (erule lifecycle_stepE)
     (auto simp: connections_inv_def branch_defs Let_def drop_server_def dest!: close_server_Inr dest: subsetD[OF set_remove1_subset])

lemma owner_inv_step: "lifecycle_step mode s e s' \<Longrightarrow> owner_inv s \<Longrightarrow> owner_inv s'"
  by (erule lifecycle_stepE) (auto simp: owner_inv_def branch_defs Let_def drop_server_def split: if_splits
      dest!: close_server_Inr)

lemma handlers_inv_step: "lifecycle_step mode s e s' \<Longrightarrow> handlers_inv mode s \<Longrightarrow> handlers_inv mode s'"
  by (erule lifecycle_stepE) (auto simp: handlers_inv_def branch_defs Let_def drop_server_def
      split: if_splits dest!: close_server_Inr)

lemma stopped_inv_step: "lifecycle_step mode s e s' \<Longrightarrow> stopped_inv s \<Longrightarrow> stopped_inv s'"
  by (erule lifecycle_stepE)
     (auto simp: stopped_inv_def workers_0_iff app_state_held_def branch_defs Let_def drop_server_def
      split: if_splits dest!: close_server_Inr)

lemma lifecycle_inv_step:
  "lifecycle_inv mode s \<Longrightarrow> lifecycle_step mode s e s' \<Longrightarrow> lifecycle_inv mode s'"
  using connections_inv_step owner_inv_step handlers_inv_step stopped_inv_step
  unfolding lifecycle_inv_def by blast

lemma lifecycle_inv_run:
  "run (lifecycle_step mode) (start_server tls) es s \<Longrightarrow> lifecycle_inv mode s"
  using run_invariant[of "lifecycle_step mode" "start_server tls" es s "lifecycle_inv mode"]
    start_server_inv lifecycle_inv_step by blast

section \<open>What happens to a request\<close>

text \<open>A request in flight stays until it is answered or its connection ends, and a detached
  handler until it is done.\<close>

lemma request_kept:
  assumes "run (lifecycle_step mode) s es s'" "(c, r) \<in> set (lc_requests s)"
  shows "(c, r) \<in> set (lc_requests s') \<or> Responded c r \<in> set es \<or> ConnectionDone c \<in> set es"
  using assms
proof induction
  case (run_Cons s e s' es s'')
  have "(c, r) \<in> set (lc_requests s') \<or> e = Responded c r \<or> e = ConnectionDone c"
    using run_Cons(1,4)
    by cases (auto simp: branch_defs Let_def drop_server_def split: if_splits
        dest!: close_server_Inr dest: in_set_remove1[THEN iffD2, rotated])
  then show ?case using run_Cons.IH by auto
qed simp

lemma detached_kept:
  assumes "run (lifecycle_step mode) s es s'" "r \<in> set (lc_detached s)"
  shows "r \<in> set (lc_detached s') \<or> HandlerDone r \<in> set es"
  using assms
proof induction
  case (run_Cons s e s' es s'')
  have "r \<in> set (lc_detached s') \<or> e = HandlerDone r"
    using run_Cons(1,4)
    by cases (auto simp: branch_defs Let_def drop_server_def split: if_splits
        dest!: close_server_Inr dest: in_set_remove1[THEN iffD2, rotated])
  then show ?case using run_Cons.IH by auto
qed simp

lemma not_accepting_run:
  assumes "run (lifecycle_step mode) s es s'" "\<not> lc_accepting s"
  shows "\<not> lc_accepting s' \<and> (\<forall>c. Accepted c \<notin> set es \<and> Negotiated c \<notin> set es)"
  using assms
proof induction
  case (run_Cons s e s' es s'')
  have "\<not> lc_accepting s' \<and> (\<forall>c. e \<noteq> Accepted c \<and> e \<noteq> Negotiated c)"
    using run_Cons(1,4) by cases (auto simp: branch_defs Let_def drop_server_def split: if_splits
        dest!: close_server_Inr)
  then show ?case using run_Cons.IH by auto
qed simp

lemma run_split:
  "run step s (es @ es') s'' \<Longrightarrow> \<exists>s'. run step s es s' \<and> run step s' es' s''"
  by (induction es arbitrary: s) (auto elim!: run_ConsE intro: run_Cons, metis run_Cons)

section \<open>Completion\<close>

text \<open>Steps of a kind that only finish work, and that can be taken as long as there is some.\<close>

locale completing_steps =
  fixes step :: "'s \<Rightarrow> 'e \<Rightarrow> 's \<Rightarrow> bool"
    and inv :: "'s \<Rightarrow> bool"
    and completion :: "'e \<Rightarrow> bool"
    and work :: "'s \<Rightarrow> nat"
    and finished :: "'s \<Rightarrow> bool"
  assumes inv_step: "inv s \<Longrightarrow> step s e s' \<Longrightarrow> inv s'"
    and work_decreases: "inv s \<Longrightarrow> completion e \<Longrightarrow> step s e s' \<Longrightarrow> work s' < work s"
    and enabled: "inv s \<Longrightarrow> \<not> finished s \<Longrightarrow> \<exists>e s'. completion e \<and> step s e s'"
begin

lemma completion_bounded:
  assumes "run step s es s'" "inv s" "list_all completion es"
  shows "length es + work s' \<le> work s"
  using assms
proof induction
  case (run_Cons s e s' es s'')
  have "completion e" using run_Cons(5) by simp
  then have "inv s'" "work s' < work s"
    using inv_step[OF run_Cons(4,1)] work_decreases[OF run_Cons(4) _ run_Cons(1)] by blast+
  then show ?case using run_Cons by simp
qed simp

lemma completion_reached:
  assumes "inv s"
  shows "\<exists>es s'. run step s es s' \<and> list_all completion es \<and> finished s'"
  using assms
proof (induction "work s" arbitrary: s rule: less_induct)
  case less
  show ?case
  proof (cases "finished s")
    case True
    then show ?thesis using run_Nil[of step s] by (metis list.pred_inject(1))
  next
    case False
    then obtain e s1 where e: "completion e" "step s e s1" using enabled less(2) by blast
    then obtain es s' where "run step s1 es s'" "list_all completion es" "finished s'"
      using less(1)[of s1] work_decreases inv_step less(2) by blast
    then show ?thesis using e run_Cons[of step s e s1 es s'] by (metis list.pred_inject(2))
  qed
qed

end

fun completion_event :: "'r lifecycle_event \<Rightarrow> bool" where
  "completion_event (HandlerDone r) = True"
| "completion_event (Responded c r) = True"
| "completion_event (ConnectionDone c) = True"
| "completion_event Signal = True"
| "completion_event Drained = True"
| "completion_event Joined = True"
| "completion_event _ = False"

definition shutdown_work :: "'r lifecycle \<Rightarrow> nat" where
  "shutdown_work s =
    length (lc_connections s) + length (lc_requests s) + length (lc_detached s)
    + of_bool (lc_accepting s) + of_bool (lc_serving s) + of_bool (\<not> lc_stopped s)"

lemma shutdown_work_decreases:
  assumes "completion_event e" "lifecycle_step mode s e s'"
  shows "shutdown_work s' < shutdown_work s"
  using assms(2,1)
proof cases
  case (connection_done c)
  then have "length (filter (\<lambda>k. fst k \<noteq> c) (lc_connections s)) < length (lc_connections s)"
    by (auto intro: length_filter_less)
  moreover have "length (filter (\<lambda>k. fst k \<noteq> c) (lc_requests s)) \<le> length (lc_requests s)"
    by (rule length_filter_le)
  ultimately have "length (filter (\<lambda>k. fst k \<noteq> c) (lc_connections s)) + length (filter (\<lambda>k. fst k \<noteq> c) (lc_requests s))
      < length (lc_connections s) + length (lc_requests s)"
    by (rule add_less_le_mono)
  then show ?thesis using connection_done by (simp add: shutdown_work_def end_connection_def)
qed (auto simp: shutdown_work_def branch_defs Let_def length_remove1 dest: length_pos_if_in_set)

lemma shutdown_enabled:
  assumes "lifecycle_inv mode s" "lc_signalled s" "\<not> lc_stopped s"
  shows "\<exists>e s'. completion_event e \<and> lifecycle_step mode s e s'"
proof -
  consider (accepting) "lc_accepting s" | (busy) c t ks where "lc_connections s = (c, t) # ks"
    | (drained) "\<not> lc_accepting s" "lc_serving s" "lc_connections s = []"
    | (detached) r rs where "lc_detached s = r # rs"
    | (idle) "\<not> lc_serving s" "lc_connections s = []" "lc_detached s = []"
    by (cases "lc_connections s"; cases "lc_detached s") auto
  then show ?thesis
  proof cases
    case accepting
    then show ?thesis using signal[OF accepting assms(2)] completion_event.simps by blast
  next
    case busy
    then show ?thesis using connection_done[of c s mode] completion_event.simps by force
  next
    case drained
    then show ?thesis using lifecycle_step.drained completion_event.simps by blast
  next
    case detached
    then show ?thesis using handler_done[of r s mode] completion_event.simps by force
  next
    case idle
    have "lc_requests s = []"
      using assms(1) idle by (cases "lc_requests s") (auto simp: lifecycle_inv_def connections_inv_def)
    moreover have "\<not> lc_app_state s"
      using assms(1,2) by (simp add: lifecycle_inv_def owner_inv_def)
    ultimately have "workers s = 0" using idle by (simp add: workers_0_iff app_state_held_def)
    then show ?thesis using joined[OF idle(1) assms(3)] completion_event.simps by blast
  qed
qed

lemma signalled_step: "lifecycle_step mode s e s' \<Longrightarrow> lc_signalled s \<Longrightarrow> lc_signalled s'"
  by (erule lifecycle_stepE)
     (auto simp: branch_defs Let_def drop_server_def split: if_splits dest!: close_server_Inr)

interpretation shutdown: completing_steps "lifecycle_step mode" "\<lambda>s. lifecycle_inv mode s \<and> lc_signalled s"
  completion_event shutdown_work lc_stopped
  for mode
  using lifecycle_inv_step signalled_step shutdown_work_decreases shutdown_enabled
  by unfold_locales blast+

text \<open>The loop of the acceptor: it returns the first socket, and only waits for errors.\<close>

lemma http_accept_iff:
  "http_accept rs = (Some (sock, rest), delay) \<longleftrightarrow>
    (\<exists>es. rs = map Inl es @ Inr sock # rest \<and> delay = sum_list (map accept_error_delay es))"
proof (induction rs arbitrary: delay rule: http_accept.induct)
  case (3 e rest')
  show ?case
  proof
    assume "http_accept (Inl e # rest') = (Some (sock, rest), delay)"
    then obtain d where "http_accept rest' = (Some (sock, rest), d)" "delay = accept_error_delay e + d"
      by (auto simp: Let_def case_prod_beta prod_eq_iff)
    then obtain es where "rest' = map Inl es @ Inr sock # rest" "d = sum_list (map accept_error_delay es)"
      using 3 by blast
    then show "\<exists>es. Inl e # rest' = map Inl es @ Inr sock # rest \<and> delay = sum_list (map accept_error_delay es)"
      using \<open>delay = _\<close> by (intro exI[of _ "e # es"]) simp
  next
    assume "\<exists>es. Inl e # rest' = map Inl es @ Inr sock # rest \<and> delay = sum_list (map accept_error_delay es)"
    then obtain es where "Inl e # rest' = map Inl es @ Inr sock # rest" "delay = sum_list (map accept_error_delay es)"
      by blast
    then obtain es' where "es = e # es'" "rest' = map Inl es' @ Inr sock # rest" by (cases es) auto
    then show "http_accept (Inl e # rest') = (Some (sock, rest), delay)"
      using 3[of "sum_list (map accept_error_delay es')"] \<open>delay = _\<close> by auto
  qed
qed (auto simp: append_eq_Cons_conv Cons_eq_append_conv map_eq_Cons_conv)

text \<open>A refresh that returns is a step; a configuration that is not valid panics.\<close>

lemma refresh_tls_step:
  fixes s s' :: "'r lifecycle"
  assumes "refresh_tls T config s = Inr (Inr (), s')" "lc_app_state s"
  shows "\<exists>t. lifecycle_step mode s (Refresh t) s'"
proof -
  obtain t0 where t0: "lc_tls s = Some t0" using assms(1) by (cases "lc_tls s") (auto simp: refresh_tls_def)
  show ?thesis
  proof (cases "rustls_config_of T config :: (unit build_error, 'r) result outcome")
    case (Inr r)
    then show ?thesis
      using assms t0 lifecycle_step.refresh[of s mode] by (cases r) (auto simp: refresh_tls_def)
  qed (use assms(1) t0 in \<open>simp add: refresh_tls_def\<close>)
qed

lemma refresh_tls_panics:
  assumes "rustls_config_of T config = Inr (Inl (e :: unit build_error))" "lc_tls s \<noteq> None"
  shows "refresh_tls T config s = Inl (Panic ''called `Result::unwrap()` on an `Err` value'')"
  using assms by (auto simp: refresh_tls_def)

section \<open>A sample run\<close>

text \<open>A client sends a request and goes, the owner closes the server, the handler ends.\<close>

definition sample_state :: "bool \<Rightarrow> bool \<Rightarrow> bool \<Rightarrow> nat list \<Rightarrow> unit lifecycle" where
  "sample_state accepting serving stopped running =
    \<lparr> lc_tls = None, lc_accepting = accepting, lc_negotiating = [], lc_connections = [], lc_requests = [],
      lc_detached = running, lc_close_channel = False, lc_app_state = False, lc_signalled = True,
      lc_serving = serving, lc_stopped = stopped \<rparr>"

lemma sample_run_closed:
  "run (lifecycle_step Detached) (start_server None) [Accepted 1, Request 1 7, ConnectionDone 1, Close]
     (sample_state True True False [7])"
proof -
  let ?s0 = "start_server None :: unit lifecycle"
  let ?s1 = "?s0\<lparr> lc_connections := [(1, None)] \<rparr>"
  let ?s2 = "?s1\<lparr> lc_requests := [(1, 7)], lc_detached := [7] \<rparr>"
  let ?s3 = "?s0\<lparr> lc_detached := [7] \<rparr>"
  have "lifecycle_step Detached ?s0 (Accepted 1) ?s1"
    using accept_http[of ?s0 1 Detached] by (simp add: start_server_def serve_connection_def)
  moreover have "lifecycle_step Detached ?s1 (Request 1 7) ?s2"
    using request[of 1 ?s1 7 Detached] by (simp add: start_server_def begin_request_def)
  moreover have "lifecycle_step Detached ?s2 (ConnectionDone 1) ?s3"
    using connection_done[of 1 ?s2 Detached] by (simp add: start_server_def end_connection_def)
  moreover have "lifecycle_step Detached ?s3 Close (sample_state True True False [7])"
    by (rule close) (simp_all add: start_server_def close_server_def sample_state_def)
  ultimately show ?thesis by (blast intro: run_Cons run_Nil)
qed

lemma sample_run_stopped:
  "run (lifecycle_step Detached) (sample_state True True False [7]) [Signal, HandlerDone 7, Drained, Joined]
     (sample_state False False True [])"
proof -
  have "lifecycle_step Detached (sample_state True True False [7]) Signal (sample_state False True False [7])"
    using signal[of "sample_state True True False [7]" Detached] by (simp add: sample_state_def branch_defs)
  moreover have "lifecycle_step Detached (sample_state False True False [7]) (HandlerDone 7) (sample_state False True False [])"
    using handler_done[of 7 "sample_state False True False [7]" Detached] by (simp add: sample_state_def branch_defs)
  moreover have "lifecycle_step Detached (sample_state False True False []) Drained (sample_state False False False [])"
    using drained[of "sample_state False True False []" Detached] by (simp add: sample_state_def branch_defs)
  moreover have "lifecycle_step Detached (sample_state False False False []) Joined (sample_state False False True [])"
    using joined[of "sample_state False False False []" Detached]
    by (simp add: sample_state_def workers_def app_state_held_def)
  ultimately show ?thesis by (blast intro: run_Cons run_Nil)
qed

section \<open>Properties\<close>



text \<open>C18. Once the server is told to stop -- by \<^verbatim>\<open>close\<close>, or by dropping it -- it stops: the
  connections that end, the handlers that return and the tasks of the shutdown are a bounded
  number of steps, and until it has stopped one of these is always possible.\<close>

theorem shutdown_completes:
  assumes "run (lifecycle_step mode) (start_server tls) es s" "lc_signalled s"
  shows "(\<exists>es' s'. run (lifecycle_step mode) s es' s' \<and> list_all completion_event es' \<and> lc_stopped s')
    \<and> (\<forall>es' s'. run (lifecycle_step mode) s es' s' \<longrightarrow> list_all completion_event es' \<longrightarrow>
         length es' \<le> shutdown_work s
         \<and> (lc_stopped s' \<or> (\<exists>e s''. completion_event e \<and> lifecycle_step mode s' e s'')))"
proof -
  have s: "lifecycle_inv mode s \<and> lc_signalled s" using lifecycle_inv_run assms by blast
  have "lifecycle_inv mode s' \<and> lc_signalled s'" if "run (lifecycle_step mode) s es' s'" for es' s'
    using run_invariant[OF that, of "\<lambda>s. lifecycle_inv mode s \<and> lc_signalled s"] s
      lifecycle_inv_step signalled_step by blast
  then show ?thesis
    using shutdown.completion_reached[OF s] shutdown.completion_bounded[OF _ s] shutdown_enabled
    by (metis add_leD1)
qed

theorem shutdown_completes_witness:
  "(\<exists>es' s'. run (lifecycle_step Detached) (sample_state True True False [7]) es' s'
      \<and> list_all completion_event es' \<and> lc_stopped s')
   \<and> length [Signal, HandlerDone 7, Drained, Joined :: unit lifecycle_event]
      \<le> shutdown_work (sample_state True True False [7])"
proof -
  have "lc_signalled (sample_state True True False [7])" by (simp add: sample_state_def)
  note sample = shutdown_completes[OF sample_run_closed this]
  show ?thesis
    using conjunct1[OF sample] conjunct2[OF sample, rule_format, OF sample_run_stopped] by simp
qed

text \<open>C20. When the server has stopped, nothing of it is left: the owner has closed or dropped
  it, it accepts no connection, none is open or being negotiated, and no handler runs; no
  connection was accepted after the shutdown began.\<close>

theorem stopped_server_idle:
  assumes "run (lifecycle_step mode) (start_server tls) es s" "lc_stopped s"
  shows "lc_signalled s \<and> \<not> lc_app_state s \<and> \<not> lc_accepting s \<and> lc_negotiating s = []
    \<and> lc_connections s = [] \<and> lc_requests s = [] \<and> lc_detached s = []
    \<and> (\<exists>before after. es = before @ Signal # after
         \<and> (\<forall>c. Accepted c \<notin> set after \<and> Negotiated c \<notin> set after))"
proof -
  have inv: "lifecycle_inv mode s" using lifecycle_inv_run[OF assms(1)] .
  then have idle: "\<not> lc_app_state s \<and> \<not> lc_accepting s \<and> lc_connections s = [] \<and> lc_requests s = [] \<and> lc_detached s = []"
    using assms(2) by (auto simp: lifecycle_inv_def stopped_inv_def workers_0_iff app_state_held_def)
  moreover have "Signal \<in> set es"
  proof (rule ccontr)
    assume none: "Signal \<notin> set es"
    have "lc_accepting s'" if "run (lifecycle_step mode) s0 es s'" "lc_accepting s0" "Signal \<notin> set es" for s0 s' es
      using that
    proof induction
      case (run_Cons s e s' es s'')
      then have "lc_accepting s'"
        by (auto elim!: lifecycle_stepE simp: branch_defs Let_def drop_server_def
            split: if_splits dest!: close_server_Inr)
      then show ?case using run_Cons by simp
    qed simp
    from this[OF assms(1) _ none] show False using idle by (simp add: start_server_def)
  qed
  then obtain before after where es: "es = before @ Signal # after" by (auto simp: in_set_conv_decomp)
  then obtain s1 s2 where "lifecycle_step mode s1 Signal s2" "run (lifecycle_step mode) s2 after s"
    using run_split assms(1) by (fastforce elim: run_ConsE)
  then have "\<forall>c. Accepted c \<notin> set after \<and> Negotiated c \<notin> set after"
    using not_accepting_run[of mode s2 after s] by (auto elim: lifecycle_stepE simp: end_accepting_def)
  ultimately show ?thesis using es inv by (auto simp: lifecycle_inv_def owner_inv_def)
qed

theorem stopped_server_idle_witness:
  "\<exists>before after. [Accepted 1, Request 1 7, ConnectionDone 1, Close, Signal, HandlerDone 7, Drained, Joined]
      = before @ Signal # (after :: unit lifecycle_event list)"
  using stopped_server_idle[OF run_append[OF sample_run_closed sample_run_stopped]]
  by (auto simp: sample_state_def)

text \<open>Closing a running server never panics: its channel is there, and so is the receiver.\<close>

theorem close_never_panics:
  assumes "run (lifecycle_step mode) (start_server tls) es s" "lc_app_state s"
  shows "\<exists>s'. close_server s = Inr s' \<and> lc_signalled s'"
  using lifecycle_inv_run[OF assms(1)] assms(2)
  by (auto simp: lifecycle_inv_def owner_inv_def close_server_def)

theorem close_never_panics_witness:
  "\<exists>s'. close_server (start_server (Some ())) = Inr s' \<and> lc_signalled s'"
  by (rule close_never_panics[OF run_Nil]) (simp add: start_server_def)

end
