(* ===== verification/Pagination.thy ===== *)
theory Pagination
  imports Map_Serde
begin

text \<open>
  Pagination (\<^verbatim>\<open>pagination.rs\<close>): page tokens, results pages and the choice between the
  first and a later page.  The JSON and base64 codecs are the parameter record
  \<open>token_codec\<close>; what the code relies on is that each of them decodes what it encoded.
\<close>

section \<open>Tokens\<close>

datatype pagination_version = V1

record 's serialized_token =
  tok_v :: pagination_version
  page_start :: 's

record 's token_codec =
  json_to_vec :: "'s serialized_token \<Rightarrow> (string, string) result"
  json_from_slice :: "string \<Rightarrow> (string, 's serialized_token) result"
  base64_encode :: "string \<Rightarrow> string"
  base64_decode :: "string \<Rightarrow> (string, string) result"

definition codec_faithful :: "'s token_codec \<Rightarrow> bool" where
  "codec_faithful K \<longleftrightarrow>
    (\<forall>t b. json_to_vec K t = Inr b \<longrightarrow> json_from_slice K b = Inr t)
    \<and> (\<forall>b. base64_decode K (base64_encode K b) = Inr b)"

definition MAX_TOKEN_LENGTH :: nat where
  "MAX_TOKEN_LENGTH = 512"

text \<open>\<open>disp\<close> prints a length in the error message.\<close>

definition serialize_page_token ::
  "'s token_codec \<Rightarrow> (nat \<Rightarrow> string) \<Rightarrow> 's \<Rightarrow> (http_error, string) result" where
  "serialize_page_token K disp start =
    rbind (map_err (\<lambda>e. for_internal_error (''failed to serialize token: '' @ e))
             (json_to_vec K \<lparr> tok_v = V1, page_start = start \<rparr>)) (\<lambda>json_bytes.
    (let token_bytes = base64_encode K json_bytes in
     if length token_bytes > MAX_TOKEN_LENGTH then
       Inl (for_internal_error (''serialized token is too large ('' @ disp (length token_bytes)
              @ '' bytes, max is '' @ disp MAX_TOKEN_LENGTH @ '')''))
     else Inr token_bytes))"

definition deserialize_page_token :: "'s token_codec \<Rightarrow> string \<Rightarrow> (string, 's) result" where
  "deserialize_page_token K token_str =
    (if length token_str > MAX_TOKEN_LENGTH then
       Inl ''failed to parse pagination token: too large''
     else
       rbind (map_err (\<lambda>e. ''failed to parse pagination token: '' @ e)
                (base64_decode K token_str)) (\<lambda>json_bytes.
       rbind (map_err (\<lambda>_. ''failed to parse pagination token: corrupted token'')
                (json_from_slice K json_bytes)) (\<lambda>deserialized.
       if tok_v deserialized \<noteq> V1 then
         Inl ''failed to parse pagination token: unsupported version''
       else Inr (page_start deserialized))))"

section \<open>Pages\<close>

record 'i results_page =
  next_page :: "string option"
  items :: "'i list"

definition results_page_new ::
  "'s token_codec \<Rightarrow> (nat \<Rightarrow> string) \<Rightarrow> 'i list \<Rightarrow> 'p \<Rightarrow> ('i \<Rightarrow> 'p \<Rightarrow> 's)
    \<Rightarrow> (http_error, 'i results_page) result" where
  "results_page_new K disp its scan_params get_page_selector =
    (if its = [] then Inr \<lparr> next_page = None, items = its \<rparr>
     else rbind (serialize_page_token K disp (get_page_selector (last its) scan_params))
            (\<lambda>tok. Inr \<lparr> next_page = Some tok, items = its \<rparr>))"

datatype ('p, 's) which_page = First 'p | Next 's

record ('p, 's) pagination_params =
  page :: "('p, 's) which_page"
  limit :: "32 word option"

definition new_first_page :: "'p \<Rightarrow> 32 word option \<Rightarrow> ('p, 's) pagination_params" where
  "new_first_page p lm = \<lparr> page = First p, limit = lm \<rparr>"

text \<open>The two scan orders.\<close>

datatype pagination_order = Ascending | Descending

text \<open>\<open>de\<close> is the deserialization of the scan parameters from the map.\<close>

definition deserialize_whichpage ::
  "'s token_codec \<Rightarrow> (string map_deserializer \<Rightarrow> (map_error, 'p) result)
    \<Rightarrow> (string, string) btree_map \<Rightarrow> (string, ('p, 's) which_page) result" where
  "deserialize_whichpage K de raw_params =
    (case map_of raw_params ''page_token'' of
       Some page_token \<Rightarrow> rbind (deserialize_page_token K page_token) (\<lambda>s. Inr (Next s))
     | None \<Rightarrow> rbind (from_map de raw_params) (\<lambda>p. Inr (First p)))"

section \<open>Lemmas\<close>

lemma serialize_page_token_Inr_iff:
  "serialize_page_token K disp s = Inr t \<longleftrightarrow>
    (\<exists>b. json_to_vec K \<lparr> tok_v = V1, page_start = s \<rparr> = Inr b \<and> t = base64_encode K b
      \<and> length t \<le> MAX_TOKEN_LENGTH)"
  by (cases "json_to_vec K \<lparr> tok_v = V1, page_start = s \<rparr>")
     (auto simp: serialize_page_token_def Let_def split: if_splits)

lemma deserialize_serialized:
  assumes "codec_faithful K" "serialize_page_token K disp s = Inr t"
  shows "deserialize_page_token K t = Inr s"
proof -
  obtain b where b: "json_to_vec K \<lparr> tok_v = V1, page_start = s \<rparr> = Inr b" "t = base64_encode K b"
      "length t \<le> MAX_TOKEN_LENGTH"
    using assms(2) by (auto simp: serialize_page_token_Inr_iff)
  moreover have "json_from_slice K b = Inr \<lparr> tok_v = V1, page_start = s \<rparr>" "base64_decode K t = Inr b"
    using assms(1) b by (auto simp: codec_faithful_def)
  ultimately show ?thesis by (simp add: deserialize_page_token_def)
qed

section \<open>Properties\<close>

text \<open>A client that sends back the token of a results page resumes where the page ended:
  the token of a page with items decodes to the selector of the last item, whatever
  other query parameters come with it, and a page without items has no token.\<close>

theorem next_page_resumes:
  assumes "codec_faithful K" "results_page_new K disp its sp sel = Inr pg"
  shows "items pg = its \<and> (next_page pg = None \<longleftrightarrow> its = [])
    \<and> (\<forall>tok raw. next_page pg = Some tok \<longrightarrow> map_of raw ''page_token'' = Some tok \<longrightarrow>
         deserialize_whichpage K de raw = Inr (Next (sel (last its) sp)))"
proof (cases "its = []")
  case True
  then show ?thesis using assms(2) by (auto simp: results_page_new_def)
next
  case False
  then obtain tok where "serialize_page_token K disp (sel (last its) sp) = Inr tok"
      "pg = \<lparr> next_page = Some tok, items = its \<rparr>"
    using assms(2) by (auto simp: results_page_new_def rbind_simps)
  then show ?thesis
    using False deserialize_serialized[OF assms(1)] by (auto simp: deserialize_whichpage_def)
qed

text \<open>A concrete codec: one byte of JSON per selector.\<close>

definition sample_codec :: "char token_codec" where
  "sample_codec = \<lparr> json_to_vec = (\<lambda>t. Inr [page_start t]),
     json_from_slice = (\<lambda>b. case b of [c] \<Rightarrow> Inr \<lparr> tok_v = V1, page_start = c \<rparr> | _ \<Rightarrow> Inl ''eof''),
     base64_encode = (\<lambda>b. b @ ''=''), base64_decode = (\<lambda>s. if s = [] then Inl ''empty'' else Inr (butlast s)) \<rparr>"

lemma sample_codec_faithful: "codec_faithful sample_codec"
proof -
  have "t = \<lparr> tok_v = V1, page_start = page_start t \<rparr>" for t :: "char serialized_token"
    by (cases t; cases "tok_v t") auto
  then show ?thesis by (auto simp: codec_faithful_def sample_codec_def)
qed

theorem next_page_resumes_witness:
  "deserialize_whichpage sample_codec (\<lambda>_. Inr ()) [(''limit'', ''5''), (''page_token'', ''b='')]
    = Inr (Next CHR ''b'')"
proof -
  have "results_page_new sample_codec (\<lambda>_. ''n'') ''ab'' () (\<lambda>c _. c)
      = Inr \<lparr> next_page = Some ''b='', items = ''ab'' \<rparr>"
    by (simp add: results_page_new_def serialize_page_token_def sample_codec_def MAX_TOKEN_LENGTH_def)
  from next_page_resumes[OF sample_codec_faithful this, THEN conjunct2, THEN conjunct2, rule_format]
  show ?thesis by force
qed

text \<open>The server never hands out a token that it would refuse for its size, and it parses no
  token longer than the limit: longer input is refused before it is decoded.\<close>

theorem token_length_bound:
  "(serialize_page_token K disp s = Inr t \<longrightarrow> length t \<le> 512)
    \<and> (length raw > 512 \<longrightarrow>
        deserialize_page_token K raw = Inl ''failed to parse pagination token: too large'')"
  by (auto simp: serialize_page_token_Inr_iff deserialize_page_token_def MAX_TOKEN_LENGTH_def)

theorem token_length_bound_witness:
  "length ''a='' \<le> 512
    \<and> deserialize_page_token sample_codec (replicate 513 CHR ''x'')
      = Inl ''failed to parse pagination token: too large''"
proof
  have "serialize_page_token sample_codec (\<lambda>_. ''n'') CHR ''a'' = Inr ''a=''"
    by (simp add: serialize_page_token_def sample_codec_def MAX_TOKEN_LENGTH_def)
  then show "length ''a='' \<le> 512"
    by (rule token_length_bound[THEN conjunct1, rule_format])
  show "deserialize_page_token sample_codec (replicate 513 CHR ''x'')
      = Inl ''failed to parse pagination token: too large''"
    by (rule token_length_bound[THEN conjunct2, rule_format]) simp
qed

end
