(* ===== verification/Openapi_Schema.thy ===== *)
theory Openapi_Schema
  imports Http_Error Json_Schema "HOL-Library.Log_Nat"
begin

text \<open>
  The conversion of JSON schemas into OpenAPI schemas (\<^verbatim>\<open>j2oas_schema\<close> and the functions it
  calls in \<^verbatim>\<open>schema_util.rs\<close>).  The result types are those of the crate \<^verbatim>\<open>openapiv3\<close>; of its
  structures the fields that the conversion sets are modelled.  A panic is a value of
  \<open>outcome\<close>; the schemas that the source prints in a panic message are left out of it.

  Every function takes \<open>rec\<close>, the conversion of a subschema; \<open>j2oas_schema\<close> ties the knot.
\<close>

section \<open>OpenAPI schemas\<close>

datatype 'a reference_or = Reference string | Item 'a

datatype 'a variant = Variant 'a | UnknownVariant string | EmptyVariant

datatype integer_format = Int32 | Int64
datatype number_format = Float | Double
datatype string_format = Date | DateTime | Password | Byte | Binary

record schema_data =
  sd_nullable :: bool
  sd_title :: "string option"
  sd_description :: "string option"
  sd_default :: "json option"
  sd_example :: "json option"
  sd_deprecated :: bool
  sd_read_only :: bool
  sd_write_only :: bool
  sd_extensions :: "(string \<times> json) list"

definition schema_data_default :: schema_data where
  "schema_data_default =
    \<lparr> sd_nullable = False, sd_title = None, sd_description = None, sd_default = None,
      sd_example = None, sd_deprecated = False, sd_read_only = False, sd_write_only = False,
      sd_extensions = [] \<rparr>"

record string_type =
  st_format :: "string_format variant"
  st_pattern :: "string option"
  st_enumeration :: "string option list"
  st_min_length :: "nat option"
  st_max_length :: "nat option"

definition string_type_default :: string_type where
  "string_type_default =
    \<lparr> st_format = EmptyVariant, st_pattern = None, st_enumeration = [],
      st_min_length = None, st_max_length = None \<rparr>"

record 'n bounds_type =
  bt_multiple_of :: "'n option"
  bt_exclusive_minimum :: bool
  bt_exclusive_maximum :: bool
  bt_minimum :: "'n option"
  bt_maximum :: "'n option"
  bt_enumeration :: "'n option list"

record number_type = "f64 bounds_type" +
  nt_format :: "number_format variant"

record integer_type = "int bounds_type" +
  it_format :: "integer_format variant"

text \<open>The fields of \<^verbatim>\<open>AnySchema\<close> that contain no schemas.\<close>

record any_fields =
  an_typ :: "string option"
  an_enumeration :: "json list"
  an_format :: "string option"
  an_required :: "string list"
  an_min_properties :: "nat option"
  an_max_properties :: "nat option"
  an_min_items :: "nat option"
  an_max_items :: "nat option"
  an_unique_items :: "bool option"
  an_pattern :: "string option"
  an_min_length :: "nat option"
  an_max_length :: "nat option"
  an_multiple_of :: "f64 option"
  an_exclusive_minimum :: "bool option"
  an_exclusive_maximum :: "bool option"
  an_minimum :: "f64 option"
  an_maximum :: "f64 option"

definition any_fields_default :: any_fields where
  "any_fields_default =
    \<lparr> an_typ = None, an_enumeration = [], an_format = None, an_required = [],
      an_min_properties = None, an_max_properties = None, an_min_items = None,
      an_max_items = None, an_unique_items = None, an_pattern = None, an_min_length = None,
      an_max_length = None, an_multiple_of = None, an_exclusive_minimum = None,
      an_exclusive_maximum = None, an_minimum = None, an_maximum = None \<rparr>"

datatype oas_schema = OasSchema (oas_data: schema_data) (oas_kind: schema_kind)
and schema_kind =
    KType oas_type
  | KOneOf "oas_schema reference_or list"
  | KAllOf "oas_schema reference_or list"
  | KAnyOf "oas_schema reference_or list"
  | KNot "oas_schema reference_or"
  | KAny any_schema
and oas_type =
    TyString string_type
  | TyNumber number_type
  | TyInteger integer_type
  | TyObject object_type
  | TyArray array_type
  | TyBoolean "bool option list"
and object_type = ObjectType
    (ot_properties: "(string \<times> oas_schema reference_or) list")
    (ot_required: "string list")
    (ot_additional_properties: "additional_properties option")
    (ot_min_properties: "nat option")
    (ot_max_properties: "nat option")
and additional_properties =
    AdditionalAny bool
  | AdditionalSchema "oas_schema reference_or"
and array_type = ArrayType
    (at_items: "oas_schema reference_or option")
    (at_min_items: "nat option")
    (at_max_items: "nat option")
    (at_unique_items: bool)
and any_schema = AnySchema
    (any_fields: any_fields)
    (any_properties: "(string \<times> oas_schema reference_or) list")
    (any_additional_properties: "additional_properties option")
    (any_items: "oas_schema reference_or option")
    (any_one_of: "oas_schema reference_or list")
    (any_all_of: "oas_schema reference_or list")
    (any_any_of: "oas_schema reference_or list")
    (any_not: "oas_schema reference_or option")

type_synonym oas_ref = "oas_schema reference_or"

definition any_schema_default :: any_schema where
  "any_schema_default = AnySchema any_fields_default [] None None [] [] [] None"

definition any_item :: oas_ref where
  "any_item = Item (OasSchema schema_data_default (KAny any_schema_default))"

section \<open>Converting a schema\<close>

type_synonym converter = "schema \<Rightarrow> oas_ref outcome"

definition j2oas_schema_vec :: "converter \<Rightarrow> schema list option \<Rightarrow> oas_ref list outcome" where
  "j2oas_schema_vec rec schemas =
    (case schemas of None \<Rightarrow> Inr [] | Some v \<Rightarrow> mapM_result rec v)"

definition schema_object_is_nullable :: "schema_object \<Rightarrow> bool" where
  "schema_object_is_nullable obj = (map_of (so_extensions obj) ''nullable'' = Some (JBool True))"

definition unexpected_enumeration :: "'a outcome" where
  "unexpected_enumeration = Inl (Panic ''unexpected enumeration value'')"

definition enumerate :: "(json \<Rightarrow> 'a outcome) \<Rightarrow> json list option \<Rightarrow> 'a list outcome" where
  "enumerate f enum_values = (case enum_values of None \<Rightarrow> Inr [] | Some vs \<Rightarrow> mapM_result f vs)"

definition boolean_value :: "json \<Rightarrow> bool option outcome" where
  "boolean_value vv =
    (case vv of JNull \<Rightarrow> Inr None | JBool b \<Rightarrow> Inr (Some b) | _ \<Rightarrow> unexpected_enumeration)"

text \<open>\<^verbatim>\<open>Number::as_i64\<close> and \<^verbatim>\<open>Number::as_f64\<close>; an integer is rounded to 53 significant bits,
  ties to even.\<close>

fun as_i64 :: "json_number \<Rightarrow> int option" where
  "as_i64 (JInt n) = (if i64_min \<le> n \<and> n \<le> i64_max then Some n else None)"
| "as_i64 (JFloat _) = None"

definition round_f64 :: "int \<Rightarrow> int" where
  "round_f64 n =
    (let a = nat \<bar>n\<bar>; e = floorlog 2 a - 53; q = a div 2 ^ e; r = a mod 2 ^ e;
         m = (if 2 * r > 2 ^ e \<or> (2 * r = 2 ^ e \<and> odd q) then q + 1 else q)
     in sgn n * int (m * 2 ^ e))"

fun as_f64 :: "json_number \<Rightarrow> f64" where
  "as_f64 (JInt n) = Fin (of_int (round_f64 n))"
| "as_f64 (JFloat f) = f"

definition integer_value :: "json \<Rightarrow> int option outcome" where
  "integer_value vv =
    (case vv of
       JNull \<Rightarrow> Inr None
     | JNumber n \<Rightarrow>
         (case as_i64 n of
            Some i \<Rightarrow> Inr (Some i)
          | None \<Rightarrow> Inl (Panic ''called `Option::unwrap()` on a `None` value''))
     | _ \<Rightarrow> unexpected_enumeration)"

definition number_value :: "json \<Rightarrow> f64 option outcome" where
  "number_value vv =
    (case vv of JNull \<Rightarrow> Inr None | JNumber n \<Rightarrow> Inr (Some (as_f64 n)) | _ \<Rightarrow> unexpected_enumeration)"

definition string_value :: "json \<Rightarrow> string option outcome" where
  "string_value vv =
    (case vv of JNull \<Rightarrow> Inr None | JString s \<Rightarrow> Inr (Some s) | _ \<Rightarrow> unexpected_enumeration)"

text \<open>One bound and whether it is exclusive; at most one of the two can be given.\<close>

definition one_bound :: "f64 option \<Rightarrow> f64 option \<Rightarrow> (f64 option \<times> bool) outcome" where
  "one_bound inclusive exclusive =
    (case (inclusive, exclusive) of
       (None, None) \<Rightarrow> Inr (None, False)
     | (Some f, None) \<Rightarrow> Inr (Some f, False)
     | (None, Some f) \<Rightarrow> Inr (Some f, True)
     | _ \<Rightarrow> Inl (Panic ''invalid''))"

definition number_bounds ::
  "number_validation option \<Rightarrow> (f64 option \<times> (f64 option \<times> bool) \<times> f64 option \<times> bool) outcome" where
  "number_bounds nv =
    (case nv of
       None \<Rightarrow> Inr (None, (None, False), None, False)
     | Some n \<Rightarrow>
         rbind (one_bound (nv_minimum n) (nv_exclusive_minimum n)) (\<lambda>mn.
         rbind (one_bound (nv_maximum n) (nv_exclusive_maximum n)) (\<lambda>mx.
         Inr (nv_multiple_of n, mn, mx))))"

definition integer_format_of :: "string option \<Rightarrow> integer_format variant" where
  "integer_format_of fmt =
    (case fmt of
       None \<Rightarrow> EmptyVariant
     | Some f \<Rightarrow> if f = ''int32'' then Variant Int32 else if f = ''int64'' then Variant Int64
                 else UnknownVariant f)"

definition j2oas_integer ::
  "string option \<Rightarrow> number_validation option \<Rightarrow> json list option \<Rightarrow> schema_kind outcome" where
  "j2oas_integer fmt number enum_values =
    rbind (number_bounds number) (\<lambda>(multiple_of, (mn, ex_mn), mx, ex_mx).
    rbind (enumerate integer_value enum_values) (\<lambda>enumeration.
    Inr (KType (TyInteger
      \<lparr> bt_multiple_of = map_option f64_as_i64 multiple_of,
        bt_exclusive_minimum = ex_mn, bt_exclusive_maximum = ex_mx,
        bt_minimum = map_option f64_as_i64 mn, bt_maximum = map_option f64_as_i64 mx,
        bt_enumeration = enumeration, it_format = integer_format_of fmt \<rparr>))))"

definition number_format_of :: "string option \<Rightarrow> number_format variant" where
  "number_format_of fmt =
    (case fmt of
       None \<Rightarrow> EmptyVariant
     | Some f \<Rightarrow> if f = ''float'' then Variant Float else if f = ''double'' then Variant Double
                 else UnknownVariant f)"

definition j2oas_number ::
  "string option \<Rightarrow> number_validation option \<Rightarrow> json list option \<Rightarrow> number_type outcome" where
  "j2oas_number fmt number enum_values =
    rbind (number_bounds number) (\<lambda>(multiple_of, (mn, ex_mn), mx, ex_mx).
    rbind (enumerate number_value enum_values) (\<lambda>enumeration.
    Inr \<lparr> bt_multiple_of = multiple_of, bt_exclusive_minimum = ex_mn,
          bt_exclusive_maximum = ex_mx, bt_minimum = mn, bt_maximum = mx,
          bt_enumeration = enumeration, nt_format = number_format_of fmt \<rparr>))"

definition string_format_of :: "string option \<Rightarrow> string_format variant" where
  "string_format_of fmt =
    (case fmt of
       None \<Rightarrow> EmptyVariant
     | Some f \<Rightarrow> if f = ''date'' then Variant Date else if f = ''date-time'' then Variant DateTime
                 else if f = ''password'' then Variant Password else if f = ''byte'' then Variant Byte
                 else if f = ''binary'' then Variant Binary else UnknownVariant f)"

text \<open>\<^verbatim>\<open>n as usize\<close> of a 32-bit length.\<close>

abbreviation as_usize :: "32 word option \<Rightarrow> nat option" where
  "as_usize \<equiv> map_option unat"

definition j2oas_string ::
  "string option \<Rightarrow> string_validation option \<Rightarrow> json list option \<Rightarrow> string_type outcome" where
  "j2oas_string fmt str enum_values =
    (case enum_values of
       Some [] \<Rightarrow> Inl (Panic ''assertion failed: !v.is_empty()'')
     | _ \<Rightarrow>
         rbind (enumerate string_value enum_values) (\<lambda>enumeration.
         Inr \<lparr> st_format = string_format_of fmt,
               st_pattern = Option.bind str sv_pattern, st_enumeration = enumeration,
               st_min_length = as_usize (Option.bind str sv_min_length),
               st_max_length = as_usize (Option.bind str sv_max_length) \<rparr>))"

definition j2oas_array :: "converter \<Rightarrow> array_validation option \<Rightarrow> array_type outcome" where
  "j2oas_array rec array =
    (case array of
       None \<Rightarrow> Inl (Panic ''called `Option::unwrap()` on a `None` value'')
     | Some arr \<Rightarrow>
         rbind (case av_items arr of
                  Some (Single s) \<Rightarrow> rbind (rec s) (\<lambda>r. Inr (Some r))
                | Some (Vec _) \<Rightarrow> Inl (Panic ''OpenAPI v3.0.x cannot support tuple-like arrays'')
                | None \<Rightarrow> Inr None) (\<lambda>items.
         Inr (ArrayType items (as_usize (av_min_items arr)) (as_usize (av_max_items arr))
           (case av_unique_items arr of Some b \<Rightarrow> b | None \<Rightarrow> False))))"

definition j2oas_object :: "converter \<Rightarrow> object_validation option \<Rightarrow> object_type outcome" where
  "j2oas_object rec object =
    (case object of
       None \<Rightarrow> Inr (ObjectType [] [] None None None)
     | Some obj \<Rightarrow>
         rbind (mapM_result (\<lambda>(prop, s). rbind (rec s) (\<lambda>r. Inr (prop, r))) (ov_properties obj)) (\<lambda>props.
         rbind (case ov_additional_properties obj of
                  None \<Rightarrow> Inr None
                | Some (SBool b) \<Rightarrow> Inr (Some (AdditionalAny b))
                | Some (SObject so) \<Rightarrow> rbind (rec (SObject so)) (\<lambda>r. Inr (Some (AdditionalSchema r)))) (\<lambda>additional.
         Inr (ObjectType props (ov_required obj) additional (as_usize (ov_min_properties obj))
           (as_usize (ov_max_properties obj))))))"

definition j2oas_subschemas :: "converter \<Rightarrow> subschema_validation \<Rightarrow> schema_kind outcome" where
  "j2oas_subschemas rec sub =
    (case (all_of sub, any_of sub, one_of sub, not_schema sub) of
       (Some a, None, None, None) \<Rightarrow> rbind (j2oas_schema_vec rec (Some a)) (\<lambda>v. Inr (KAllOf v))
     | (None, Some a, None, None) \<Rightarrow> rbind (j2oas_schema_vec rec (Some a)) (\<lambda>v. Inr (KAnyOf v))
     | (None, None, Some a, None) \<Rightarrow> rbind (j2oas_schema_vec rec (Some a)) (\<lambda>v. Inr (KOneOf v))
     | (None, None, None, Some n) \<Rightarrow> rbind (rec n) (\<lambda>r. Inr (KNot r))
     | _ \<Rightarrow> Inl (Panic ''invalid subschema''))"

fun type_name :: "instance_type \<Rightarrow> string" where
  "type_name TNull = ''null''"
| "type_name TBoolean = ''boolean''"
| "type_name TObject = ''object''"
| "type_name TArray = ''array''"
| "type_name TNumber = ''number''"
| "type_name TString = ''string''"
| "type_name TInteger = ''integer''"

definition any_enumeration :: "json list option \<Rightarrow> json option \<Rightarrow> json list outcome" where
  "any_enumeration enum_values const_value =
    (case (enum_values, const_value) of
       (None, None) \<Rightarrow> Inr []
     | (Some values, Some one) \<Rightarrow>
         if one \<notin> set values then Inl (Panic ''both enum and const are present and also conflict'')
         else Inr [one]
     | (None, Some one) \<Rightarrow> Inr [one]
     | (Some values, None) \<Rightarrow> Inr values)"

definition j2oas_any ::
  "converter \<Rightarrow> instance_type option \<Rightarrow> schema_object \<Rightarrow> schema_kind outcome" where
  "j2oas_any rec ty obj =
    rbind (any_enumeration (so_enum_values obj) (so_const_value obj)) (\<lambda>enumeration.
    rbind (j2oas_object rec (so_object obj)) (\<lambda>ob.
    rbind (case so_array obj of
             None \<Rightarrow> Inr (ArrayType None None None False)
           | Some av \<Rightarrow> j2oas_array rec (Some av)) (\<lambda>ar.
    rbind (j2oas_string None (so_string obj) None) (\<lambda>st.
    rbind (j2oas_number None (so_number obj) None) (\<lambda>nt.
    rbind (case so_subschemas obj of
             None \<Rightarrow> Inr ([], [], [], None)
           | Some sub \<Rightarrow>
               rbind (j2oas_schema_vec rec (all_of sub)) (\<lambda>al.
               rbind (j2oas_schema_vec rec (any_of sub)) (\<lambda>an.
               rbind (j2oas_schema_vec rec (one_of sub)) (\<lambda>on.
               rbind (case not_schema sub of
                        None \<Rightarrow> Inr None
                      | Some n \<Rightarrow> rbind (rec n) (\<lambda>r. Inr (Some r))) (\<lambda>no.
               Inr (al, an, on, no)))))) (\<lambda>(al, an, on, no).
    Inr (KAny (AnySchema
      \<lparr> an_typ = map_option type_name ty, an_enumeration = enumeration, an_format = so_format obj,
        an_required = ot_required ob, an_min_properties = ot_min_properties ob,
        an_max_properties = ot_max_properties ob, an_min_items = at_min_items ar,
        an_max_items = at_max_items ar, an_unique_items = Option.bind (so_array obj) av_unique_items,
        an_pattern = st_pattern st, an_min_length = st_min_length st,
        an_max_length = st_max_length st, an_multiple_of = bt_multiple_of nt,
        an_exclusive_minimum = (if bt_exclusive_minimum nt then Some True else None),
        an_exclusive_maximum = (if bt_exclusive_maximum nt then Some True else None),
        an_minimum = bt_minimum nt, an_maximum = bt_maximum nt \<rparr>
      (ot_properties ob) (ot_additional_properties ob) (at_items ar) on al an no))))))))"

definition null_type :: oas_type where
  "null_type = TyString (string_type_default\<lparr> st_enumeration := [None] \<rparr>)"

definition j2oas_schema_object_kind :: "converter \<Rightarrow> schema_object \<Rightarrow> schema_kind outcome" where
  "j2oas_schema_object_kind rec obj =
    (if so_enum_values obj = Some [] then Inr (KNot any_item)
     else
       rbind (case so_instance_type obj of
                Some (Single ty) \<Rightarrow> Inr (Some ty)
              | Some (Vec _) \<Rightarrow> Inl (Panic ''a type array is unsupported by openapiv3'')
              | None \<Rightarrow> Inr None) (\<lambda>ty.
       (case (ty, so_subschemas obj) of
          (Some TNull, None) \<Rightarrow> Inr (KType null_type)
        | (Some TBoolean, None) \<Rightarrow>
            rbind (enumerate boolean_value (so_enum_values obj)) (\<lambda>e. Inr (KType (TyBoolean e)))
        | (Some TObject, None) \<Rightarrow>
            rbind (j2oas_object rec (so_object obj)) (\<lambda>t. Inr (KType (TyObject t)))
        | (Some TArray, None) \<Rightarrow>
            rbind (j2oas_array rec (so_array obj)) (\<lambda>t. Inr (KType (TyArray t)))
        | (Some TNumber, None) \<Rightarrow>
            rbind (j2oas_number (so_format obj) (so_number obj) (so_enum_values obj))
              (\<lambda>t. Inr (KType (TyNumber t)))
        | (Some TString, None) \<Rightarrow>
            rbind (j2oas_string (so_format obj) (so_string obj) (so_enum_values obj))
              (\<lambda>t. Inr (KType (TyString t)))
        | (Some TInteger, None) \<Rightarrow> j2oas_integer (so_format obj) (so_number obj) (so_enum_values obj)
        | (None, Some sub) \<Rightarrow> j2oas_subschemas rec sub
        | (None, None) \<Rightarrow> Inr (KAny any_schema_default)
        | (Some _, Some _) \<Rightarrow> j2oas_any rec ty obj)))"

definition schema_data_of :: "string option \<Rightarrow> schema_object \<Rightarrow> schema_data" where
  "schema_data_of name obj =
    (let data = schema_data_default\<lparr> sd_nullable := schema_object_is_nullable obj \<rparr>;
         data = (case so_metadata obj of
                   None \<Rightarrow> data
                 | Some md \<Rightarrow> data\<lparr> sd_title := md_title md, sd_description := md_description md,
                     sd_default := md_default md, sd_deprecated := md_deprecated md,
                     sd_read_only := md_read_only md, sd_write_only := md_write_only md \<rparr>);
         data = data\<lparr> sd_extensions :=
           filter (\<lambda>(key, _). starts_with ''x-'' key) (so_extensions obj) \<rparr>;
         data = (case name of None \<Rightarrow> data | Some n \<Rightarrow> data\<lparr> sd_title := Some n \<rparr>)
     in (case map_of (so_extensions obj) ''example'' of
           None \<Rightarrow> data
         | Some e \<Rightarrow> data\<lparr> sd_example := Some e \<rparr>))"

definition j2oas_schema_object ::
  "converter \<Rightarrow> string option \<Rightarrow> schema_object \<Rightarrow> oas_ref outcome" where
  "j2oas_schema_object rec name obj =
    (case so_reference obj of
       Some r \<Rightarrow>
         if schema_object_is_nullable obj then
           Inr (Item (OasSchema (schema_data_default\<lparr> sd_nullable := True \<rparr>) (KAllOf [Reference r])))
         else Inr (Reference r)
     | None \<Rightarrow>
         rbind (j2oas_schema_object_kind rec obj) (\<lambda>kind.
         Inr (Item (OasSchema (schema_data_of name obj) kind))))"

section \<open>Termination: the subschemas that are converted\<close>

definition list_children :: "schema list option \<Rightarrow> schema list" where
  "list_children x = (case x of None \<Rightarrow> [] | Some v \<Rightarrow> v)"

definition subschema_children :: "subschema_validation \<Rightarrow> schema list" where
  "subschema_children sub =
    list_children (all_of sub) @ list_children (any_of sub) @ list_children (one_of sub)
      @ (case not_schema sub of None \<Rightarrow> [] | Some n \<Rightarrow> [n])"

definition array_children :: "array_validation \<Rightarrow> schema list" where
  "array_children av = (case av_items av of Some (Single s) \<Rightarrow> [s] | _ \<Rightarrow> [])"

definition object_children :: "object_validation \<Rightarrow> schema list" where
  "object_children ov =
    map snd (ov_properties ov) @ (case ov_additional_properties ov of None \<Rightarrow> [] | Some s \<Rightarrow> [s])"

definition opt_children :: "('a \<Rightarrow> schema list) \<Rightarrow> 'a option \<Rightarrow> schema list" where
  "opt_children f x = (case x of None \<Rightarrow> [] | Some a \<Rightarrow> f a)"

definition schema_children :: "schema_object \<Rightarrow> schema list" where
  "schema_children obj =
    opt_children subschema_children (so_subschemas obj) @ opt_children array_children (so_array obj)
      @ opt_children object_children (so_object obj)"

lemmas children_defs = list_children_def subschema_children_def array_children_def
  object_children_def opt_children_def schema_children_def

lemma mapM_result_cong [fundef_cong]:
  "xs = ys \<Longrightarrow> (\<And>x. x \<in> set ys \<Longrightarrow> f x = g x) \<Longrightarrow> mapM_result f xs = mapM_result g ys"
  by (induction xs arbitrary: ys) auto

lemma j2oas_schema_vec_cong:
  "(\<And>s. s \<in> set (list_children x) \<Longrightarrow> f s = g s) \<Longrightarrow> j2oas_schema_vec f x = j2oas_schema_vec g x"
  by (auto simp: j2oas_schema_vec_def list_children_def split: option.splits intro: mapM_result_cong)

lemma j2oas_array_cong:
  "(\<And>s. s \<in> set (opt_children array_children x) \<Longrightarrow> f s = g s) \<Longrightarrow> j2oas_array f x = j2oas_array g x"
  by (auto simp: j2oas_array_def opt_children_def array_children_def
      split: option.splits single_or_vec.splits)

lemma j2oas_object_cong:
  "(\<And>s. s \<in> set (opt_children object_children x) \<Longrightarrow> f s = g s) \<Longrightarrow> j2oas_object f x = j2oas_object g x"
proof (cases x)
  case (Some ov)
  assume *: "\<And>s. s \<in> set (opt_children object_children x) \<Longrightarrow> f s = g s"
  have "mapM_result (\<lambda>(p, s). rbind (f s) (\<lambda>r. Inr (p, r))) (ov_properties ov)
      = mapM_result (\<lambda>(p, s). rbind (g s) (\<lambda>r. Inr (p, r))) (ov_properties ov)"
    using * Some by (intro mapM_result_cong) (force simp: opt_children_def object_children_def)+
  then show ?thesis
    using * Some
    by (auto simp: j2oas_object_def opt_children_def object_children_def split: option.splits schema.splits)
qed (simp add: j2oas_object_def)

lemma j2oas_subschemas_cong:
  "(\<And>s. s \<in> set (subschema_children x) \<Longrightarrow> f s = g s) \<Longrightarrow> j2oas_subschemas f x = j2oas_subschemas g x"
proof -
  assume *: "\<And>s. s \<in> set (subschema_children x) \<Longrightarrow> f s = g s"
  have "j2oas_schema_vec f (all_of x) = j2oas_schema_vec g (all_of x)"
    "j2oas_schema_vec f (any_of x) = j2oas_schema_vec g (any_of x)"
    "j2oas_schema_vec f (one_of x) = j2oas_schema_vec g (one_of x)"
    using * by (auto intro!: j2oas_schema_vec_cong simp: subschema_children_def)
  moreover have "not_schema x = Some n \<Longrightarrow> f n = g n" for n
    using * by (simp add: subschema_children_def)
  ultimately show ?thesis
    by (cases "all_of x"; cases "any_of x"; cases "one_of x"; cases "not_schema x")
       (simp_all add: j2oas_subschemas_def)
qed

lemma j2oas_any_cong:
  assumes "\<And>s. s \<in> set (schema_children obj) \<Longrightarrow> f s = g s"
  shows "j2oas_any f ty obj = j2oas_any g ty obj"
proof -
  have ob: "j2oas_object f (so_object obj) = j2oas_object g (so_object obj)"
    using assms by (intro j2oas_object_cong) (simp add: schema_children_def)
  have ar: "j2oas_array f (so_array obj) = j2oas_array g (so_array obj)"
    using assms by (intro j2oas_array_cong) (simp add: schema_children_def)
  have sub: "j2oas_schema_vec f (all_of sub) = j2oas_schema_vec g (all_of sub)"
      "j2oas_schema_vec f (any_of sub) = j2oas_schema_vec g (any_of sub)"
      "j2oas_schema_vec f (one_of sub) = j2oas_schema_vec g (one_of sub)"
    if "so_subschemas obj = Some sub" for sub
    using assms that
    by (auto intro!: j2oas_schema_vec_cong simp: subschema_children_def schema_children_def opt_children_def)
  have no: "f n = g n" if "so_subschemas obj = Some sub" "not_schema sub = Some n" for sub n
    using assms that by (simp add: subschema_children_def schema_children_def opt_children_def)
  show ?thesis
  proof (cases "so_subschemas obj")
    case None
    then show ?thesis using ob ar by (cases "so_array obj") (simp_all add: j2oas_any_def)
  next
    case (Some sub)
    then show ?thesis
      using ob ar sub[OF Some] no[OF Some]
      by (cases "so_array obj"; cases "not_schema sub") (simp_all add: j2oas_any_def)
  qed
qed

lemma j2oas_schema_object_cong [fundef_cong]:
  assumes "name = name'" "obj = obj'" "\<And>s. s \<in> set (schema_children obj') \<Longrightarrow> f s = g s"
  shows "j2oas_schema_object f name obj = j2oas_schema_object g name' obj'"
proof -
  have "j2oas_object f (so_object obj) = j2oas_object g (so_object obj)"
    using assms by (intro j2oas_object_cong) (simp add: schema_children_def)
  moreover have "j2oas_array f (so_array obj) = j2oas_array g (so_array obj)"
    using assms by (intro j2oas_array_cong) (simp add: schema_children_def)
  moreover have "j2oas_subschemas f sub = j2oas_subschemas g sub" if "so_subschemas obj = Some sub" for sub
    using assms that by (intro j2oas_subschemas_cong) (simp add: schema_children_def opt_children_def)
  moreover have "j2oas_any f ty obj = j2oas_any g ty obj" for ty
    using assms by (intro j2oas_any_cong) simp
  ultimately have "j2oas_schema_object_kind f obj = j2oas_schema_object_kind g obj"
    unfolding j2oas_schema_object_kind_def
    by (intro if_cong refl arg_cong[where f = "rbind _"] ext)
       (auto split: option.splits instance_type.splits)
  then show ?thesis
    using assms(1,2) by (cases "so_reference obj") (simp_all add: j2oas_schema_object_def)
qed

lemma size_list_children:
  "s \<in> set (list_children x) \<Longrightarrow> size s < size_option (size_list size) x"
  by (cases x) (auto simp: list_children_def less_Suc_eq_le intro: size_list_estimation')

lemma schema_children_smaller: "s \<in> set (schema_children obj) \<Longrightarrow> size s < size obj"
proof -
  have snd_size: "(p, s) \<in> set xs \<Longrightarrow> size s \<le> size_list (size_prod (\<lambda>_. 0) size) xs" for p s and xs :: "(string \<times> schema) list"
    by (induction xs) auto
  have sub: "s \<in> set (subschema_children sub) \<Longrightarrow> size s < size sub" for s sub
    by (cases sub) (auto simp: subschema_children_def dest!: size_list_children split: option.splits)
  have arr: "s \<in> set (array_children av) \<Longrightarrow> size s < size av" for s av
    by (cases av) (auto simp: array_children_def split: option.splits single_or_vec.splits)
  have ob: "s \<in> set (object_children ov) \<Longrightarrow> size s < size ov" for s ov
    by (cases ov) (auto simp: object_children_def split: option.splits dest!: snd_size)
  show "s \<in> set (schema_children obj) \<Longrightarrow> size s < size obj"
    by (cases obj) (auto simp: schema_children_def opt_children_def split: option.splits dest: sub arr ob)
qed

function j2oas_schema :: "string option \<Rightarrow> schema \<Rightarrow> oas_ref outcome" where
  "j2oas_schema name (SBool True) = Inr any_item"
| "j2oas_schema name (SBool False) = Inr (Item (OasSchema schema_data_default (KNot any_item)))"
| "j2oas_schema name (SObject obj) = j2oas_schema_object (\<lambda>s. j2oas_schema None s) name obj"
  by (metis schema.exhaust surj_pair) auto

termination j2oas_schema
  by (relation "measure (\<lambda>(_, s). size s)") (auto dest: schema_children_smaller simp: less_Suc_eq)

end
