(* ===== verification/Schema_Meaning.thy ===== *)
theory Schema_Meaning
  imports Openapi_Schema
begin

text \<open>
  What JSON schemas and OpenAPI schemas accept, and that the conversion of
  \<open>Openapi_Schema\<close> keeps it.  The two validators share the checks of a single keyword; a
  reference means the same on both sides, whatever it means (\<open>ref_holds\<close>), as do the regular
  expressions and the length of a string.  A schema that is nullable also accepts null.

  \<open>faithful\<close> says which schemas use only keywords that the conversion keeps: it panics on
  some of the others, and drops the rest.
\<close>

section \<open>Checks of single keywords\<close>

record meaning =
  ref_holds :: "string \<Rightarrow> json \<Rightarrow> bool"
  pattern_matches :: "string \<Rightarrow> string \<Rightarrow> bool"
  str_length :: "string \<Rightarrow> nat"

fun num_val :: "json_number \<Rightarrow> f64" where
  "num_val (JInt n) = Fin (of_int n)"
| "num_val (JFloat f) = f"

fun has_type :: "instance_type \<Rightarrow> json \<Rightarrow> bool" where
  "has_type TNull v = (v = JNull)"
| "has_type TBoolean v = (\<exists>b. v = JBool b)"
| "has_type TObject v = (\<exists>kvs. v = JObject kvs)"
| "has_type TArray v = (\<exists>vs. v = JArray vs)"
| "has_type TNumber v = (\<exists>n. v = JNumber n)"
| "has_type TString v = (\<exists>s. v = JString s)"
| "has_type TInteger v = (\<exists>n k. v = JNumber n \<and> num_val n = Fin (of_int k))"

text \<open>Equality of values for enumerations: numbers by their value.\<close>

fun same_value :: "json \<Rightarrow> json \<Rightarrow> bool" where
  "same_value (JNumber a) (JNumber b) = (num_val a = num_val b)"
| "same_value v w = (v = w)"

fun f64_le :: "f64 \<Rightarrow> f64 \<Rightarrow> bool" where
  "f64_le (Fin a) (Fin b) = (a \<le> b)"
| "f64_le NegInf (Fin b) = True"
| "f64_le (Fin a) PosInf = True"
| "f64_le _ _ = False"

fun f64_less :: "f64 \<Rightarrow> f64 \<Rightarrow> bool" where
  "f64_less (Fin a) (Fin b) = (a < b)"
| "f64_less NegInf (Fin b) = True"
| "f64_less (Fin a) PosInf = True"
| "f64_less _ _ = False"

fun f64_multiple :: "f64 \<Rightarrow> f64 \<Rightarrow> bool" where
  "f64_multiple (Fin m) (Fin a) = (\<exists>k. a = of_int k * m)"
| "f64_multiple _ _ = False"

definition opt_holds :: "('a \<Rightarrow> bool) \<Rightarrow> 'a option \<Rightarrow> bool" where
  "opt_holds p x = (case x of None \<Rightarrow> True | Some a \<Rightarrow> p a)"

abbreviation holds :: "('a \<Rightarrow> bool) option \<Rightarrow> 'a \<Rightarrow> bool" where
  "holds x v \<equiv> opt_holds (\<lambda>p. p v) x"

definition size_ok :: "nat option \<Rightarrow> nat option \<Rightarrow> nat \<Rightarrow> bool" where
  "size_ok mn mx n = (opt_holds (\<lambda>m. m \<le> n) mn \<and> opt_holds (\<lambda>m. n \<le> m) mx)"

definition string_ok :: "meaning \<Rightarrow> nat option \<Rightarrow> nat option \<Rightarrow> string option \<Rightarrow> string \<Rightarrow> bool" where
  "string_ok E mn mx pat s =
    (size_ok mn mx (str_length E s) \<and> opt_holds (\<lambda>r. pattern_matches E r s) pat)"

definition bounds_ok :: "f64 option \<Rightarrow> f64 option \<times> bool \<Rightarrow> f64 option \<times> bool \<Rightarrow> f64 \<Rightarrow> bool" where
  "bounds_ok mult mn mx a =
    (opt_holds (\<lambda>m. f64_multiple m a) mult
     \<and> opt_holds (\<lambda>b. if snd mn then f64_less b a else f64_le b a) (fst mn)
     \<and> opt_holds (\<lambda>b. if snd mx then f64_less a b else f64_le a b) (fst mx))"

definition int_bounds_ok :: "int option \<Rightarrow> int option \<times> bool \<Rightarrow> int option \<times> bool \<Rightarrow> int \<Rightarrow> bool" where
  "int_bounds_ok mult mn mx a =
    (opt_holds (\<lambda>m. \<exists>k. a = k * m) mult
     \<and> opt_holds (\<lambda>b. if snd mn then b < a else b \<le> a) (fst mn)
     \<and> opt_holds (\<lambda>b. if snd mx then a < b else a \<le> b) (fst mx))"

definition array_ok :: "nat option \<Rightarrow> nat option \<Rightarrow> bool \<Rightarrow> (json \<Rightarrow> bool) option \<Rightarrow> json list \<Rightarrow> bool" where
  "array_ok mn mx unique item vs =
    (size_ok mn mx (length vs) \<and> (unique \<longrightarrow> distinct vs) \<and> opt_holds (\<lambda>p. list_all p vs) item)"

text \<open>Properties, properties by pattern, and all others.\<close>

definition object_ok ::
  "meaning \<Rightarrow> nat option \<Rightarrow> nat option \<Rightarrow> string list \<Rightarrow> (string \<times> (json \<Rightarrow> bool)) list
    \<Rightarrow> (string \<times> (json \<Rightarrow> bool)) list \<Rightarrow> (json \<Rightarrow> bool) option \<Rightarrow> (string \<times> json) list \<Rightarrow> bool" where
  "object_ok E mn mx req props pats additional kvs =
    (size_ok mn mx (length kvs) \<and> set req \<subseteq> fst ` set kvs
     \<and> (\<forall>(k, w) \<in> set kvs.
          opt_holds (\<lambda>p. p w) (map_of props k)
          \<and> (\<forall>(r, p) \<in> set pats. pattern_matches E r k \<longrightarrow> p w)
          \<and> (map_of props k = None \<and> (\<forall>(r, p) \<in> set pats. \<not> pattern_matches E r k)
             \<longrightarrow> holds additional w)))"

definition exactly_one :: "('a \<Rightarrow> bool) list \<Rightarrow> 'a \<Rightarrow> bool" where
  "exactly_one ps v = (length (filter (\<lambda>p. p v) ps) = 1)"

section \<open>What a JSON schema accepts\<close>

definition number_accepts :: "number_validation \<Rightarrow> json \<Rightarrow> bool" where
  "number_accepts nv v =
    (case v of
       JNumber n \<Rightarrow>
         bounds_ok (nv_multiple_of nv) (nv_minimum nv, False) (nv_maximum nv, False) (num_val n)
         \<and> bounds_ok None (nv_exclusive_minimum nv, True) (nv_exclusive_maximum nv, True) (num_val n)
     | _ \<Rightarrow> True)"

definition string_accepts :: "meaning \<Rightarrow> string_validation \<Rightarrow> json \<Rightarrow> bool" where
  "string_accepts E sv v =
    (case v of
       JString s \<Rightarrow> string_ok E (as_usize (sv_min_length sv)) (as_usize (sv_max_length sv)) (sv_pattern sv) s
     | _ \<Rightarrow> True)"

definition type_accepts :: "instance_type single_or_vec \<Rightarrow> json \<Rightarrow> bool" where
  "type_accepts ty v = (case ty of Single t \<Rightarrow> has_type t v | Vec ts \<Rightarrow> \<exists>t \<in> set ts. has_type t v)"

abbreviation on_arrays :: "(json list \<Rightarrow> bool) \<Rightarrow> json \<Rightarrow> bool" where
  "on_arrays p v \<equiv> (case v of JArray vs \<Rightarrow> p vs | _ \<Rightarrow> True)"

abbreviation on_objects :: "((string \<times> json) list \<Rightarrow> bool) \<Rightarrow> json \<Rightarrow> bool" where
  "on_objects p v \<equiv> (case v of JObject kvs \<Rightarrow> p kvs | _ \<Rightarrow> True)"

definition items_ok ::
  "(json \<Rightarrow> bool) single_or_vec option \<Rightarrow> (json \<Rightarrow> bool) option \<Rightarrow> json list \<Rightarrow> bool" where
  "items_ok its additional vs =
    (case its of
       None \<Rightarrow> True
     | Some (Single p) \<Rightarrow> list_all p vs
     | Some (Vec ps) \<Rightarrow> list_all (\<lambda>(p, w). p w) (zip ps vs)
                       \<and> opt_holds (\<lambda>p. list_all p (drop (length ps) vs)) additional)"

primrec json_valid :: "meaning \<Rightarrow> schema \<Rightarrow> json \<Rightarrow> bool"
  and object_valid :: "meaning \<Rightarrow> schema_object \<Rightarrow> json \<Rightarrow> bool"
  and subschemas_valid :: "meaning \<Rightarrow> subschema_validation \<Rightarrow> json \<Rightarrow> bool"
  and array_valid :: "meaning \<Rightarrow> array_validation \<Rightarrow> json \<Rightarrow> bool"
  and properties_valid :: "meaning \<Rightarrow> object_validation \<Rightarrow> json \<Rightarrow> bool"
where
  "json_valid E (SBool b) = (\<lambda>v. b)"
| "json_valid E (SObject obj) = object_valid E obj"
| "object_valid E (SchemaObject md ty fmt ev cv sub nv sv av ov r ext) = (\<lambda>v.
    (map_of ext ''nullable'' = Some (JBool True) \<and> v = JNull)
    \<or> (opt_holds (\<lambda>n. ref_holds E n v) r \<and> opt_holds (\<lambda>t. type_accepts t v) ty
       \<and> opt_holds (\<lambda>vs. \<exists>w \<in> set vs. same_value w v) ev \<and> opt_holds (\<lambda>w. same_value w v) cv
       \<and> holds (map_option (subschemas_valid E) sub) v \<and> opt_holds (\<lambda>n. number_accepts n v) nv
       \<and> opt_holds (\<lambda>s. string_accepts E s v) sv \<and> holds (map_option (array_valid E) av) v
       \<and> holds (map_option (properties_valid E) ov) v))"
| "subschemas_valid E (SubschemaValidation al an on no cond th el) = (\<lambda>v.
    opt_holds (\<lambda>ps. list_all (\<lambda>p. p v) ps) (map_option (map (json_valid E)) al)
    \<and> opt_holds (\<lambda>ps. list_ex (\<lambda>p. p v) ps) (map_option (map (json_valid E)) an)
    \<and> opt_holds (\<lambda>ps. exactly_one ps v) (map_option (map (json_valid E)) on)
    \<and> opt_holds (\<lambda>p. \<not> p v) (map_option (json_valid E) no)
    \<and> opt_holds (\<lambda>p. if p v then holds (map_option (json_valid E) th) v
         else holds (map_option (json_valid E) el) v) (map_option (json_valid E) cond))"
| "array_valid E (ArrayValidation its add mx mn uniq cont) = on_arrays (\<lambda>vs.
    array_ok (as_usize mn) (as_usize mx) (uniq = Some True) None vs
    \<and> items_ok (map_option (map_single_or_vec (json_valid E)) its) (map_option (json_valid E) add) vs
    \<and> opt_holds (\<lambda>p. list_ex p vs) (map_option (json_valid E) cont))"
| "properties_valid E (ObjectValidation mx mn req props pats add names) = on_objects (\<lambda>kvs.
    object_ok E (as_usize mn) (as_usize mx) req (map (map_prod id (json_valid E)) props)
      (map (map_prod id (json_valid E)) pats) (map_option (json_valid E) add) kvs
    \<and> opt_holds (\<lambda>p. list_all (\<lambda>(k, w). p (JString k)) kvs) (map_option (json_valid E) names))"

section \<open>What an OpenAPI schema accepts\<close>

fun ref_valid :: "meaning \<Rightarrow> (json \<Rightarrow> bool) reference_or \<Rightarrow> json \<Rightarrow> bool" where
  "ref_valid E (Reference r) v = ref_holds E r v"
| "ref_valid E (Item p) v = p v"

text \<open>An enumeration that is empty is absent; \<^const>\<open>None\<close> in one stands for null, which a type
  accepts only if the schema is nullable.\<close>

definition enumerated :: "'a option list \<Rightarrow> 'a \<Rightarrow> bool" where
  "enumerated es a = (es = [] \<or> Some a \<in> set es)"

definition boolean_type_ok :: "bool option list \<Rightarrow> json \<Rightarrow> bool" where
  "boolean_type_ok es v = (case v of JBool b \<Rightarrow> enumerated es b | _ \<Rightarrow> False)"

definition string_type_ok :: "meaning \<Rightarrow> string_type \<Rightarrow> json \<Rightarrow> bool" where
  "string_type_ok E st v =
    (case v of
       JString s \<Rightarrow> string_ok E (st_min_length st) (st_max_length st) (st_pattern st) s
         \<and> enumerated (st_enumeration st) s
     | _ \<Rightarrow> False)"

definition number_type_ok :: "number_type \<Rightarrow> json \<Rightarrow> bool" where
  "number_type_ok nt v =
    (case v of
       JNumber n \<Rightarrow> bounds_ok (bt_multiple_of nt) (bt_minimum nt, bt_exclusive_minimum nt)
           (bt_maximum nt, bt_exclusive_maximum nt) (num_val n)
         \<and> enumerated (bt_enumeration nt) (num_val n)
     | _ \<Rightarrow> False)"

definition integer_type_ok :: "integer_type \<Rightarrow> json \<Rightarrow> bool" where
  "integer_type_ok it v =
    (\<exists>n k. v = JNumber n \<and> num_val n = Fin (of_int k)
      \<and> int_bounds_ok (bt_multiple_of it) (bt_minimum it, bt_exclusive_minimum it)
          (bt_maximum it, bt_exclusive_maximum it) k
      \<and> enumerated (bt_enumeration it) k)"

definition any_fields_ok :: "meaning \<Rightarrow> any_fields \<Rightarrow> json \<Rightarrow> bool" where
  "any_fields_ok E a v =
    (opt_holds (\<lambda>n. \<exists>t. type_name t = n \<and> has_type t v) (an_typ a)
     \<and> (an_enumeration a = [] \<or> (\<exists>w \<in> set (an_enumeration a). same_value w v))
     \<and> (case v of
          JNumber n \<Rightarrow> bounds_ok (an_multiple_of a) (an_minimum a, an_exclusive_minimum a = Some True)
            (an_maximum a, an_exclusive_maximum a = Some True) (num_val n)
        | JString s \<Rightarrow> string_ok E (an_min_length a) (an_max_length a) (an_pattern a) s
        | _ \<Rightarrow> True))"

primrec oas_valid :: "meaning \<Rightarrow> oas_schema \<Rightarrow> json \<Rightarrow> bool"
  and kind_valid :: "meaning \<Rightarrow> schema_kind \<Rightarrow> json \<Rightarrow> bool"
  and oas_type_valid :: "meaning \<Rightarrow> oas_type \<Rightarrow> json \<Rightarrow> bool"
  and object_type_valid :: "meaning \<Rightarrow> object_type \<Rightarrow> (string \<times> json) list \<Rightarrow> bool"
  and additional_valid :: "meaning \<Rightarrow> additional_properties \<Rightarrow> json \<Rightarrow> bool"
  and array_type_valid :: "meaning \<Rightarrow> array_type \<Rightarrow> json list \<Rightarrow> bool"
  and any_valid :: "meaning \<Rightarrow> any_schema \<Rightarrow> json \<Rightarrow> bool"
where
  "oas_valid E (OasSchema d k) = (\<lambda>v. (sd_nullable d \<and> v = JNull) \<or> kind_valid E k v)"
| "kind_valid E (KType t) = oas_type_valid E t"
| "kind_valid E (KOneOf rs) =
    (\<lambda>v. exactly_one (map (ref_valid E) (map (map_reference_or (oas_valid E)) rs)) v)"
| "kind_valid E (KAllOf rs) =
    (\<lambda>v. list_all (\<lambda>p. p v) (map (ref_valid E) (map (map_reference_or (oas_valid E)) rs)))"
| "kind_valid E (KAnyOf rs) =
    (\<lambda>v. list_ex (\<lambda>p. p v) (map (ref_valid E) (map (map_reference_or (oas_valid E)) rs)))"
| "kind_valid E (KNot r) = (\<lambda>v. \<not> ref_valid E (map_reference_or (oas_valid E) r) v)"
| "kind_valid E (KAny a) = any_valid E a"
| "oas_type_valid E (TyString st) = string_type_ok E st"
| "oas_type_valid E (TyNumber nt) = number_type_ok nt"
| "oas_type_valid E (TyInteger it) = integer_type_ok it"
| "oas_type_valid E (TyObject ot) =
    (\<lambda>v. case v of JObject kvs \<Rightarrow> object_type_valid E ot kvs | _ \<Rightarrow> False)"
| "oas_type_valid E (TyArray ar) =
    (\<lambda>v. case v of JArray vs \<Rightarrow> array_type_valid E ar vs | _ \<Rightarrow> False)"
| "oas_type_valid E (TyBoolean es) = boolean_type_ok es"
| "object_type_valid E (ObjectType props req add mn mx) =
    object_ok E mn mx req
      (map (map_prod id (ref_valid E)) (map (map_prod id (map_reference_or (oas_valid E))) props))
      [] (map_option (additional_valid E) add)"
| "additional_valid E (AdditionalAny b) = (\<lambda>v. b)"
| "additional_valid E (AdditionalSchema r) = ref_valid E (map_reference_or (oas_valid E) r)"
| "array_type_valid E (ArrayType it mn mx uniq) =
    array_ok mn mx uniq (map_option (ref_valid E) (map_option (map_reference_or (oas_valid E)) it))"
| "any_valid E (AnySchema a props add it on al an no) = (\<lambda>v.
    any_fields_ok E a v
    \<and> on_objects (object_ok E (an_min_properties a) (an_max_properties a) (an_required a)
        (map (map_prod id (ref_valid E)) (map (map_prod id (map_reference_or (oas_valid E))) props))
        [] (map_option (additional_valid E) add)) v
    \<and> on_arrays (array_ok (an_min_items a) (an_max_items a) (an_unique_items a = Some True)
        (map_option (ref_valid E) (map_option (map_reference_or (oas_valid E)) it))) v
    \<and> (on = [] \<or> exactly_one (map (ref_valid E) (map (map_reference_or (oas_valid E)) on)) v)
    \<and> list_all (\<lambda>p. p v) (map (ref_valid E) (map (map_reference_or (oas_valid E)) al))
    \<and> (an = [] \<or> list_ex (\<lambda>p. p v) (map (ref_valid E) (map (map_reference_or (oas_valid E)) an)))
    \<and> opt_holds (\<lambda>p. \<not> ref_valid E p v) (map_option (map_reference_or (oas_valid E)) no))"

definition oas_ref_valid :: "meaning \<Rightarrow> oas_ref \<Rightarrow> json \<Rightarrow> bool" where
  "oas_ref_valid E r = ref_valid E (map_reference_or (oas_valid E) r)"

section \<open>The schemas that are converted faithfully\<close>

fun exact_integer :: "f64 \<Rightarrow> bool" where
  "exact_integer (Fin q) = (q = of_int \<lfloor>q\<rfloor> \<and> i64_min \<le> \<lfloor>q\<rfloor> \<and> \<lfloor>q\<rfloor> \<le> i64_max)"
| "exact_integer _ = False"

definition number_kept :: "number_validation \<Rightarrow> bool" where
  "number_kept nv =
    ((nv_minimum nv = None \<or> nv_exclusive_minimum nv = None)
     \<and> (nv_maximum nv = None \<or> nv_exclusive_maximum nv = None))"

definition integer_kept :: "number_validation \<Rightarrow> bool" where
  "integer_kept nv =
    (number_kept nv \<and> list_all (opt_holds exact_integer)
      [nv_multiple_of nv, nv_minimum nv, nv_exclusive_minimum nv, nv_maximum nv,
       nv_exclusive_maximum nv])"

definition boolean_listed :: "json \<Rightarrow> bool" where
  "boolean_listed v = (v \<in> {JNull, JBool True, JBool False})"

definition integer_listed :: "json \<Rightarrow> bool" where
  "integer_listed v = (case v of JNull \<Rightarrow> True | JNumber n \<Rightarrow> as_i64 n \<noteq> None | _ \<Rightarrow> False)"

definition number_listed :: "json \<Rightarrow> bool" where
  "number_listed v = (case v of JNull \<Rightarrow> True | JNumber n \<Rightarrow> as_f64 n = num_val n | _ \<Rightarrow> False)"

definition string_listed :: "json \<Rightarrow> bool" where
  "string_listed v = (case v of JNull \<Rightarrow> True | JString _ \<Rightarrow> True | _ \<Rightarrow> False)"

definition object_kept :: "object_validation \<Rightarrow> bool" where
  "object_kept ov = (ov_pattern_properties ov = [] \<and> ov_property_names ov = None)"

definition array_kept :: "array_validation \<Rightarrow> bool" where
  "array_kept av = (av_contains av = None \<and> (case av_items av of Some (Vec _) \<Rightarrow> False | _ \<Rightarrow> True))"

definition lone_keyword :: "subschema_validation \<Rightarrow> bool" where
  "lone_keyword sub =
    (if_schema sub = None
     \<and> length (filter id [all_of sub \<noteq> None, any_of sub \<noteq> None, one_of sub \<noteq> None,
         not_schema sub \<noteq> None]) = 1)"

definition subschemas_kept :: "subschema_validation \<Rightarrow> bool" where
  "subschemas_kept sub = (if_schema sub = None \<and> any_of sub \<noteq> Some [] \<and> one_of sub \<noteq> Some [])"

definition listed :: "(json \<Rightarrow> bool) \<Rightarrow> schema_object \<Rightarrow> bool" where
  "listed p obj = (so_const_value obj = None \<and> opt_holds (list_all p) (so_enum_values obj))"

text \<open>Nothing beside the type and the subschemas.\<close>

definition only_subschemas :: "schema_object \<Rightarrow> bool" where
  "only_subschemas obj =
    (so_enum_values obj = None \<and> so_const_value obj = None \<and> so_number obj = None
     \<and> so_string obj = None \<and> so_array obj = None \<and> so_object obj = None)"

fun typed_kept :: "instance_type \<Rightarrow> schema_object \<Rightarrow> bool" where
  "typed_kept TNull obj = False"
| "typed_kept TBoolean obj = listed boolean_listed obj"
| "typed_kept TObject obj =
    (so_const_value obj = None \<and> so_enum_values obj = None \<and> opt_holds object_kept (so_object obj))"
| "typed_kept TArray obj =
    (so_const_value obj = None \<and> so_enum_values obj = None \<and> so_array obj \<noteq> None
     \<and> opt_holds array_kept (so_array obj))"
| "typed_kept TNumber obj = (listed number_listed obj \<and> opt_holds number_kept (so_number obj))"
| "typed_kept TString obj = listed string_listed obj"
| "typed_kept TInteger obj = (listed integer_listed obj \<and> opt_holds integer_kept (so_number obj))"

definition mixed_kept :: "schema_object \<Rightarrow> bool" where
  "mixed_kept obj =
    (opt_holds (\<lambda>c. opt_holds (\<lambda>vs. c \<in> set vs) (so_enum_values obj)) (so_const_value obj)
     \<and> opt_holds object_kept (so_object obj) \<and> opt_holds array_kept (so_array obj)
     \<and> opt_holds number_kept (so_number obj) \<and> opt_holds subschemas_kept (so_subschemas obj))"

definition keywords_kept :: "schema_object \<Rightarrow> bool" where
  "keywords_kept obj =
    (case (so_instance_type obj, so_subschemas obj) of
       (Some (Vec _), _) \<Rightarrow> False
     | (Some (Single t), None) \<Rightarrow> typed_kept t obj
     | (Some (Single _), Some _) \<Rightarrow> mixed_kept obj
     | (None, None) \<Rightarrow> only_subschemas obj
     | (None, Some sub) \<Rightarrow> only_subschemas obj \<and> lone_keyword sub)"

definition lone_reference :: "schema_object \<Rightarrow> bool" where
  "lone_reference obj =
    (so_reference obj \<noteq> None \<and> so_instance_type obj = None \<and> so_subschemas obj = None
     \<and> only_subschemas obj)"

function faithful :: "schema \<Rightarrow> bool" where
  "faithful (SBool b) = True"
| "faithful (SObject obj) =
    (lone_reference obj
     \<or> so_reference obj = None
       \<and> (so_enum_values obj = Some []
          \<or> keywords_kept obj \<and> (\<forall>s \<in> set (schema_children obj). faithful s)))"
  by pat_completeness auto

termination faithful
  by (relation "measure size") (auto dest: schema_children_smaller simp: less_Suc_eq)

section \<open>The keywords one by one\<close>

lemma opt_holds_simps [simp]: "opt_holds p None" "opt_holds p (Some a) = p a"
  by (simp_all add: opt_holds_def)

lemma opt_holds_map [simp]: "opt_holds p (map_option f x) = opt_holds (\<lambda>a. p (f a)) x"
  by (cases x) simp_all

lemma oas_ref_valid_simps [simp]:
  "oas_ref_valid E (Reference r) = ref_holds E r" "oas_ref_valid E (Item s) = oas_valid E s"
  by (auto simp: oas_ref_valid_def)

lemma fold_ref: "ref_valid E (map_reference_or (oas_valid E) r) = oas_ref_valid E r"
  by (rule ext) (simp add: oas_ref_valid_def)

lemma fold_refs: "map (ref_valid E) (map (map_reference_or (oas_valid E)) rs) = map (oas_ref_valid E) rs"
  by (simp add: fold_ref)

lemma fold_opt: "map_option (ref_valid E) (map_option (map_reference_or (oas_valid E)) x)
    = map_option (oas_ref_valid E) x"
  by (cases x) (simp_all add: fold_ref)

lemma fold_props: "map (map_prod id (ref_valid E)) (map (map_prod id (map_reference_or (oas_valid E))) ps)
    = map (map_prod id (oas_ref_valid E)) ps"
  by (induction ps) (auto simp: fold_ref)

lemmas fold_ref_valid = fold_ref fold_refs fold_opt fold_props

declare kind_valid.simps [simp del] object_type_valid.simps [simp del] array_type_valid.simps [simp del]
  additional_valid.simps [simp del] any_valid.simps [simp del]

lemmas oas_folded = kind_valid.simps [unfolded fold_ref_valid] object_type_valid.simps [unfolded fold_ref_valid]
  array_type_valid.simps [unfolded fold_ref_valid] additional_valid.simps [unfolded fold_ref_valid]

lemma any_default_valid [simp]: "any_valid E any_schema_default = (\<lambda>v. True)"
  by (rule ext) (simp add: any_schema_default_def any_valid.simps any_fields_ok_def any_fields_default_def
      bounds_ok_def string_ok_def size_ok_def object_ok_def array_ok_def split: json.splits)

lemma any_item_valid [simp]: "oas_ref_valid E any_item = (\<lambda>v. True)"
  by (simp add: any_item_def oas_folded)

text \<open>The keywords of a schema object beside the reference.\<close>

definition keywords_valid :: "meaning \<Rightarrow> schema_object \<Rightarrow> json \<Rightarrow> bool" where
  "keywords_valid E obj v =
    (opt_holds (\<lambda>t. type_accepts t v) (so_instance_type obj)
     \<and> opt_holds (\<lambda>vs. \<exists>w \<in> set vs. same_value w v) (so_enum_values obj)
     \<and> opt_holds (\<lambda>w. same_value w v) (so_const_value obj)
     \<and> opt_holds (\<lambda>s. subschemas_valid E s v) (so_subschemas obj)
     \<and> opt_holds (\<lambda>n. number_accepts n v) (so_number obj)
     \<and> opt_holds (\<lambda>s. string_accepts E s v) (so_string obj)
     \<and> opt_holds (\<lambda>a. array_valid E a v) (so_array obj)
     \<and> opt_holds (\<lambda>p. properties_valid E p v) (so_object obj))"

lemma json_valid_object:
  "json_valid E (SObject obj) v \<longleftrightarrow>
    (schema_object_is_nullable obj \<and> v = JNull)
    \<or> (opt_holds (\<lambda>n. ref_holds E n v) (so_reference obj) \<and> keywords_valid E obj v)"
  by (cases obj) (simp add: keywords_valid_def schema_object_is_nullable_def)

declare json_valid.simps(2) [simp del]

definition agrees :: "meaning \<Rightarrow> converter \<Rightarrow> schema \<Rightarrow> bool" where
  "agrees E rec s \<longleftrightarrow> (\<exists>r. rec s = Inr r \<and> oas_ref_valid E r = json_valid E s)"

lemma agrees_list:
  "\<forall>s \<in> set xs. agrees E rec s \<Longrightarrow>
    \<exists>rs. mapM_result rec xs = Inr rs \<and> map (oas_ref_valid E) rs = map (json_valid E) xs"
proof (induction xs)
  case (Cons x xs)
  then obtain r rs where "rec x = Inr r" "oas_ref_valid E r = json_valid E x"
    "mapM_result rec xs = Inr rs" "map (oas_ref_valid E) rs = map (json_valid E) xs"
    by (auto simp: agrees_def)
  then show ?case by (intro exI[of _ "r # rs"]) simp
qed simp

lemma agrees_vec:
  "\<forall>s \<in> set (list_children x). agrees E rec s \<Longrightarrow>
    \<exists>rs. j2oas_schema_vec rec x = Inr rs
      \<and> map (oas_ref_valid E) rs = (case x of None \<Rightarrow> [] | Some v \<Rightarrow> map (json_valid E) v)"
  using agrees_list by (auto simp: j2oas_schema_vec_def list_children_def split: option.splits)

lemma agrees_props:
  "\<forall>s \<in> snd ` set ps. agrees E rec s \<Longrightarrow>
    \<exists>rs. mapM_result (\<lambda>(p, s). rbind (rec s) (\<lambda>r. Inr (p, r))) ps = Inr rs
      \<and> map (map_prod id (oas_ref_valid E)) rs = map (map_prod id (json_valid E)) ps"
proof (induction ps)
  case (Cons x ps)
  obtain p s where x: "x = (p, s)" by (cases x)
  with Cons obtain r rs where "rec s = Inr r" "oas_ref_valid E r = json_valid E s"
    "mapM_result (\<lambda>(p, s). rbind (rec s) (\<lambda>r. Inr (p, r))) ps = Inr rs"
    "map (map_prod id (oas_ref_valid E)) rs = map (map_prod id (json_valid E)) ps"
    by (auto simp: agrees_def id_def)
  then show ?case using x by (intro exI[of _ "(p, r) # rs"]) (simp add: id_def)
qed simp

lemma agrees_object:
  assumes "\<forall>s \<in> set (object_children ov). agrees E rec s" "object_kept ov"
  shows "\<exists>ot. j2oas_object rec (Some ov) = Inr ot
    \<and> (\<forall>kvs. object_type_valid E ot kvs = properties_valid E ov (JObject kvs))"
proof (cases ov)
  case (ObjectValidation mx mn req props pats add names)
  obtain rs where rs: "mapM_result (\<lambda>(p, s). rbind (rec s) (\<lambda>r. Inr (p, r))) props = Inr rs"
      "map (map_prod id (oas_ref_valid E)) rs = map (map_prod id (json_valid E)) props"
    using agrees_props[of props E rec] assms(1) ObjectValidation
    by (auto simp: object_children_def)
  obtain a where a: "(case add of None \<Rightarrow> Inr None | Some (SBool b) \<Rightarrow> Inr (Some (AdditionalAny b))
        | Some (SObject so) \<Rightarrow> rbind (rec (SObject so)) (\<lambda>r. Inr (Some (AdditionalSchema r)))) = Inr a"
      "map_option (additional_valid E) a = map_option (json_valid E) add"
    using assms(1) ObjectValidation
    by (cases add; cases "the add") (auto simp: object_children_def agrees_def oas_folded)
  show ?thesis
    using assms(2) ObjectValidation rs a
    by (auto simp: j2oas_object_def object_kept_def oas_folded)
qed

lemma agrees_array:
  assumes "\<forall>s \<in> set (array_children av). agrees E rec s" "array_kept av"
  shows "\<exists>ar. j2oas_array rec (Some av) = Inr ar
    \<and> (\<forall>vs. array_type_valid E ar vs = array_valid E av (JArray vs))
    \<and> at_unique_items ar = (av_unique_items av = Some True)"
proof (cases av)
  case (ArrayValidation its add mx mn uniq cont)
  show ?thesis
  proof (cases its)
    case None
    then show ?thesis
      using assms(2) ArrayValidation
      by (auto simp: j2oas_array_def array_kept_def oas_folded array_ok_def items_ok_def split: option.splits)
  next
    case (Some it)
    then obtain s where s: "it = Single s"
      using assms(2) ArrayValidation by (cases it) (auto simp: array_kept_def)
    then obtain r where "rec s = Inr r" "oas_ref_valid E r = json_valid E s"
      using assms(1) ArrayValidation Some by (auto simp: array_children_def agrees_def)
    then show ?thesis
      using assms(2) ArrayValidation Some s
      by (auto simp: j2oas_array_def array_kept_def oas_folded array_ok_def items_ok_def split: option.splits)
  qed
qed

lemma agrees_enumerate:
  assumes "\<And>w. w \<in> set vs \<Longrightarrow> \<exists>e. f w = Inr e \<and> (\<forall>a v. Q a v \<longrightarrow> (e = Some a) = same_value w v)"
  shows "\<exists>es. mapM_result f vs = Inr es \<and> length es = length vs
    \<and> (\<forall>a v. Q a v \<longrightarrow> (Some a \<in> set es) = (\<exists>w \<in> set vs. same_value w v))"
  using assms
proof (induction vs)
  case (Cons w vs)
  obtain e where e: "f w = Inr e" "\<And>a v. Q a v \<Longrightarrow> (e = Some a) = same_value w v"
    using Cons.prems[of w] by auto
  obtain es where es: "mapM_result f vs = Inr es" "length es = length vs"
      "\<And>a v. Q a v \<Longrightarrow> (Some a \<in> set es) = (\<exists>w \<in> set vs. same_value w v)"
    using Cons by auto
  have "(Some a = e) = same_value w v" if "Q a v" for a v
    using e(2)[OF that] by auto
  then show ?case using e(1) es by (intro exI[of _ "e # es"]) auto
qed simp

definition enum_holds :: "json list option \<Rightarrow> json \<Rightarrow> bool" where
  "enum_holds ev v = opt_holds (\<lambda>vs. \<exists>w \<in> set vs. same_value w v) ev"

lemma agrees_enum_values:
  assumes "opt_holds (list_all p) ev" "ev \<noteq> Some []"
    and "\<And>w. p w \<Longrightarrow> \<exists>e. f w = Inr e \<and> (\<forall>a v. Q a v \<longrightarrow> (e = Some a) = same_value w v)"
  shows "\<exists>es. enumerate f ev = Inr es \<and> (\<forall>a v. Q a v \<longrightarrow> enumerated es a = enum_holds ev v)"
proof (cases ev)
  case None
  then show ?thesis by (simp add: enumerate_def enumerated_def enum_holds_def)
next
  case (Some vs)
  then obtain es where "mapM_result f vs = Inr es" "length es = length vs"
      "\<And>a v. Q a v \<Longrightarrow> (Some a \<in> set es) = (\<exists>w \<in> set vs. same_value w v)"
    using agrees_enumerate[of vs f Q] assms by (auto simp: list_all_iff)
  then show ?thesis
    using Some assms(2) by (auto simp: enumerate_def enumerated_def enum_holds_def)
qed

lemma boolean_value_agrees:
  "boolean_listed w \<Longrightarrow> \<exists>e. boolean_value w = Inr e \<and> (\<forall>a v. v = JBool a \<longrightarrow> (e = Some a) = same_value w v)"
  by (auto simp: boolean_listed_def boolean_value_def)

lemma string_value_agrees:
  "string_listed w \<Longrightarrow> \<exists>e. string_value w = Inr e \<and> (\<forall>a v. v = JString a \<longrightarrow> (e = Some a) = same_value w v)"
  by (cases w) (auto simp: string_listed_def string_value_def)

lemma number_value_agrees:
  "number_listed w \<Longrightarrow> \<exists>e. number_value w = Inr e
    \<and> (\<forall>a v. (\<exists>n. v = JNumber n \<and> num_val n = a) \<longrightarrow> (e = Some a) = same_value w v)"
  by (cases w) (auto simp: number_listed_def number_value_def)

lemma integer_value_agrees:
  "integer_listed w \<Longrightarrow> \<exists>e. integer_value w = Inr e
    \<and> (\<forall>a v. (\<exists>n. v = JNumber n \<and> num_val n = Fin (of_int a)) \<longrightarrow> (e = Some a) = same_value w v)"
proof (cases w)
  case (JNumber n)
  assume "integer_listed w"
  with JNumber show ?thesis
    by (cases n) (auto simp: integer_listed_def integer_value_def split: if_splits)
qed (auto simp: integer_listed_def integer_value_def)

lemma one_bound_simps [simp]:
  "one_bound None None = Inr (None, False)" "one_bound (Some a) None = Inr (Some a, False)"
  "one_bound None (Some a) = Inr (Some a, True)"
  by (simp_all add: one_bound_def)

lemma number_bounds_agree:
  assumes "opt_holds number_kept x"
  shows "\<exists>mult mn ex_mn mx ex_mx. number_bounds x = Inr (mult, (mn, ex_mn), mx, ex_mx)
    \<and> (\<forall>n. bounds_ok mult (mn, ex_mn) (mx, ex_mx) (num_val n)
          = opt_holds (\<lambda>nv. number_accepts nv (JNumber n)) x)
    \<and> (opt_holds integer_kept x \<longrightarrow> opt_holds exact_integer mult \<and> opt_holds exact_integer mn
        \<and> opt_holds exact_integer mx)"
proof (cases x)
  case None
  then show ?thesis
    by (intro exI[of _ None] exI[of _ False]) (simp add: number_bounds_def bounds_ok_def)
next
  case (Some nv)
  have "(nv_minimum nv = None \<or> nv_exclusive_minimum nv = None)
      \<and> (nv_maximum nv = None \<or> nv_exclusive_maximum nv = None)"
    using assms Some by (simp add: number_kept_def)
  then show ?thesis
    using Some
    by (cases "nv_minimum nv"; cases "nv_exclusive_minimum nv"; cases "nv_maximum nv";
        cases "nv_exclusive_maximum nv")
       (auto simp: number_bounds_def bounds_ok_def number_accepts_def integer_kept_def)
qed

lemma exact_integerE:
  assumes "exact_integer f"
  obtains k where "f = Fin (of_int k)" "f64_as_i64 f = k"
proof (cases f)
  case (Fin q)
  then have "f = Fin (of_int \<lfloor>q\<rfloor>)" "i64_min \<le> \<lfloor>q\<rfloor>" "\<lfloor>q\<rfloor> \<le> i64_max"
    using assms by auto
  moreover have "trunc_rat (of_int \<lfloor>q\<rfloor>) = \<lfloor>q\<rfloor>" by (simp add: trunc_rat_def)
  ultimately show ?thesis by (intro that[of "\<lfloor>q\<rfloor>"]) auto
qed (use assms in auto)

lemma int_bounds_agree:
  assumes "opt_holds exact_integer mult" "opt_holds exact_integer mn" "opt_holds exact_integer mx"
  shows "int_bounds_ok (map_option f64_as_i64 mult) (map_option f64_as_i64 mn, e1)
      (map_option f64_as_i64 mx, e2) k = bounds_ok mult (mn, e1) (mx, e2) (Fin (of_int k))"
proof -
  have "(\<exists>j. k = j * f64_as_i64 f) = f64_multiple f (Fin (of_int k))" if "exact_integer f" for f
    using that by (elim exact_integerE) (simp flip: of_int_mult)
  moreover have "(f64_as_i64 f < k) = f64_less f (Fin (of_int k))" "(f64_as_i64 f \<le> k) = f64_le f (Fin (of_int k))"
      "(k < f64_as_i64 f) = f64_less (Fin (of_int k)) f" "(k \<le> f64_as_i64 f) = f64_le (Fin (of_int k)) f"
    if "exact_integer f" for f
    using that by (elim exact_integerE; simp)+
  ultimately show ?thesis
    using assms by (cases mult; cases mn; cases mx) (simp_all add: int_bounds_ok_def bounds_ok_def)
qed

lemma string_agrees:
  assumes "opt_holds (list_all string_listed) ev" "ev \<noteq> Some []"
  shows "\<exists>st. j2oas_string fmt x ev = Inr st
    \<and> (\<forall>s. string_ok E (st_min_length st) (st_max_length st) (st_pattern st) s
          = opt_holds (\<lambda>sv. string_accepts E sv (JString s)) x
        \<and> enumerated (st_enumeration st) s = enum_holds ev (JString s))"
proof -
  obtain es where es: "enumerate string_value ev = Inr es"
      "\<And>s. enumerated es s = enum_holds ev (JString s)"
    using agrees_enum_values[OF assms, of string_value "\<lambda>a v. v = JString a"] string_value_agrees by blast
  show ?thesis
    using es assms(2)
    by (cases x; cases ev; cases "the ev")
       (auto simp: j2oas_string_def string_accepts_def string_ok_def size_ok_def)
qed

section \<open>Kinds of schemas\<close>

abbreviation children_agree :: "meaning \<Rightarrow> converter \<Rightarrow> schema_object \<Rightarrow> bool" where
  "children_agree E rec obj \<equiv> (\<forall>s \<in> set (schema_children obj). agrees E rec s)"

definition kind_agrees :: "meaning \<Rightarrow> schema_kind outcome \<Rightarrow> schema_object \<Rightarrow> bool" where
  "kind_agrees E k obj \<longleftrightarrow> (\<exists>kind. k = Inr kind \<and> (\<forall>v. kind_valid E kind v = keywords_valid E obj v))"

lemma number_only: "has_type t v \<Longrightarrow> t \<noteq> TNumber \<Longrightarrow> t \<noteq> TInteger \<Longrightarrow> opt_holds (\<lambda>n. number_accepts n v) nv"
  by (cases t; cases nv) (auto simp: number_accepts_def)

lemma string_only: "has_type t v \<Longrightarrow> t \<noteq> TString \<Longrightarrow> opt_holds (\<lambda>s. string_accepts E s v) sv"
  by (cases t; cases sv) (auto simp: string_accepts_def)

lemma array_only: "has_type t v \<Longrightarrow> t \<noteq> TArray \<Longrightarrow> opt_holds (\<lambda>a. array_valid E a v) av"
  by (cases av; cases "the av"; cases t) auto

lemma object_only: "has_type t v \<Longrightarrow> t \<noteq> TObject \<Longrightarrow> opt_holds (\<lambda>p. properties_valid E p v) ov"
  by (cases ov; cases "the ov"; cases t) auto

text \<open>A type without subschemas: only the keywords of that type say anything.\<close>

lemma keywords_valid_typed:
  assumes "so_instance_type obj = Some (Single t)" "so_subschemas obj = None" "so_const_value obj = None"
  shows "keywords_valid E obj v \<longleftrightarrow> has_type t v \<and> enum_holds (so_enum_values obj) v
    \<and> (t = TNumber \<or> t = TInteger \<longrightarrow> opt_holds (\<lambda>n. number_accepts n v) (so_number obj))
    \<and> (t = TString \<longrightarrow> opt_holds (\<lambda>s. string_accepts E s v) (so_string obj))
    \<and> (t = TArray \<longrightarrow> opt_holds (\<lambda>a. array_valid E a v) (so_array obj))
    \<and> (t = TObject \<longrightarrow> opt_holds (\<lambda>p. properties_valid E p v) (so_object obj))"
  using assms number_only string_only array_only object_only
  by (auto simp: keywords_valid_def type_accepts_def enum_holds_def)

lemma children_of_parts:
  "children_agree E rec obj \<Longrightarrow> so_object obj = Some ov \<Longrightarrow> \<forall>s \<in> set (object_children ov). agrees E rec s"
  "children_agree E rec obj \<Longrightarrow> so_array obj = Some av \<Longrightarrow> \<forall>s \<in> set (array_children av). agrees E rec s"
  "children_agree E rec obj \<Longrightarrow> so_subschemas obj = Some sub \<Longrightarrow>
    \<forall>s \<in> set (subschema_children sub). agrees E rec s"
  by (auto simp: schema_children_def opt_children_def)

lemma typed_kind_agrees:
  assumes "so_instance_type obj = Some (Single t)" "so_subschemas obj = None" "typed_kept t obj"
    and "so_enum_values obj \<noteq> Some []" "children_agree E rec obj"
  shows "kind_agrees E (j2oas_schema_object_kind rec obj) obj"
proof -
  let ?ev = "so_enum_values obj"
  have const: "so_const_value obj = None"
    using assms(3) by (cases t) (auto simp: listed_def)
  note typed = keywords_valid_typed[OF assms(1,2) const, of E]
  note kind = j2oas_schema_object_kind_def[of rec obj] assms(1,2,4)
  show ?thesis
  proof (cases t)
    case TNull
    then show ?thesis using assms(3) by simp
  next
    case TBoolean
    then have "opt_holds (list_all boolean_listed) ?ev" using assms(3) by (simp add: listed_def)
    then obtain es where "enumerate boolean_value ?ev = Inr es"
        "\<And>b. enumerated es b = enum_holds ?ev (JBool b)"
      using agrees_enum_values[of boolean_listed ?ev boolean_value "\<lambda>a v. v = JBool a"]
        assms(4) boolean_value_agrees by blast
    then show ?thesis
      using TBoolean kind
      by (auto simp: kind_agrees_def typed oas_folded boolean_type_ok_def split: json.splits)
  next
    case TObject
    show ?thesis
    proof (cases "so_object obj")
      case None
      then show ?thesis
        using TObject kind assms(3)
        by (auto simp: kind_agrees_def typed oas_folded j2oas_object_def object_ok_def size_ok_def
            enum_holds_def split: json.splits)
    next
      case (Some ov)
      then obtain ot where "j2oas_object rec (Some ov) = Inr ot"
          "\<And>kvs. object_type_valid E ot kvs = properties_valid E ov (JObject kvs)"
        using agrees_object[OF children_of_parts(1)[OF assms(5)]] assms(3) TObject by auto
      then show ?thesis
        using TObject kind assms(3) Some
        by (auto simp: kind_agrees_def typed oas_folded enum_holds_def split: json.splits)
    qed
  next
    case TArray
    then obtain av where av: "so_array obj = Some av" using assms(3) by auto
    then obtain ar where "j2oas_array rec (Some av) = Inr ar"
        "\<And>vs. array_type_valid E ar vs = array_valid E av (JArray vs)"
      using agrees_array[OF children_of_parts(2)[OF assms(5)]] assms(3) TArray by auto
    then show ?thesis
      using TArray kind assms(3) av
      by (auto simp: kind_agrees_def typed oas_folded enum_holds_def split: json.splits)
  next
    case TNumber
    then have kept: "opt_holds number_kept (so_number obj)" "opt_holds (list_all number_listed) ?ev"
      using assms(3) by (auto simp: listed_def)
    from number_bounds_agree[OF kept(1)] obtain mult mn e1 mx e2 where
      b: "number_bounds (so_number obj) = Inr (mult, (mn, e1), mx, e2)"
        "\<And>n. bounds_ok mult (mn, e1) (mx, e2) (num_val n)
          = opt_holds (\<lambda>nv. number_accepts nv (JNumber n)) (so_number obj)" by blast
    obtain es where "enumerate number_value ?ev = Inr es"
        "\<And>n. enumerated es (num_val n) = enum_holds ?ev (JNumber n)"
      using agrees_enum_values[OF kept(2) assms(4), of number_value
          "\<lambda>a v. \<exists>n. v = JNumber n \<and> num_val n = a"] number_value_agrees by blast
    then show ?thesis
      using TNumber kind b
      by (auto simp: kind_agrees_def typed oas_folded j2oas_number_def number_type_ok_def
          split: json.splits)
  next
    case TString
    then have "opt_holds (list_all string_listed) ?ev" using assms(3) by (simp add: listed_def)
    from string_agrees[OF this assms(4), of "so_format obj" "so_string obj" E] TString kind
    show ?thesis
      by (auto simp: kind_agrees_def typed oas_folded string_type_ok_def split: json.splits)
  next
    case TInteger
    then have kept: "opt_holds integer_kept (so_number obj)" "opt_holds (list_all integer_listed) ?ev"
      using assms(3) by (auto simp: listed_def)
    then have "opt_holds number_kept (so_number obj)"
      by (cases "so_number obj") (auto simp: integer_kept_def)
    from number_bounds_agree[OF this] kept(1) obtain mult mn e1 mx e2 where
      b: "number_bounds (so_number obj) = Inr (mult, (mn, e1), mx, e2)"
        "\<And>n. bounds_ok mult (mn, e1) (mx, e2) (num_val n)
          = opt_holds (\<lambda>nv. number_accepts nv (JNumber n)) (so_number obj)"
        "opt_holds exact_integer mult" "opt_holds exact_integer mn" "opt_holds exact_integer mx" by blast
    obtain es where es: "enumerate integer_value ?ev = Inr es"
        "\<forall>a v. (\<exists>n. v = JNumber n \<and> num_val n = Fin (of_int a)) \<longrightarrow> enumerated es a = enum_holds ?ev v"
      using agrees_enum_values[OF kept(2) assms(4) integer_value_agrees] by auto
    have enum: "enumerated es k = enum_holds ?ev (JNumber n)" if "num_val n = Fin (of_int k)" for n k
      using es(2) that by blast
    have "int_bounds_ok (map_option f64_as_i64 mult) (map_option f64_as_i64 mn, e1)
        (map_option f64_as_i64 mx, e2) k = opt_holds (\<lambda>nv. number_accepts nv (JNumber n)) (so_number obj)"
      if "num_val n = Fin (of_int k)" for n k
      unfolding int_bounds_agree[OF b(3-5)] using b(2)[of n] that by simp
    then show ?thesis
      using TInteger kind b(1) es(1) enum
      by (auto simp: kind_agrees_def typed oas_folded j2oas_integer_def integer_type_ok_def)
  qed
qed

lemma untyped_valid:
  assumes "so_instance_type obj = None" "only_subschemas obj"
  shows "keywords_valid E obj v = opt_holds (\<lambda>s. subschemas_valid E s v) (so_subschemas obj)"
  using assms by (simp add: keywords_valid_def only_subschemas_def)

lemma subschemas_valid_alt:
  "if_schema sub = None \<Longrightarrow> subschemas_valid E sub v \<longleftrightarrow>
    opt_holds (\<lambda>xs. list_all (\<lambda>p. p v) (map (json_valid E) xs)) (all_of sub)
    \<and> opt_holds (\<lambda>xs. list_ex (\<lambda>p. p v) (map (json_valid E) xs)) (any_of sub)
    \<and> opt_holds (\<lambda>xs. exactly_one (map (json_valid E) xs) v) (one_of sub)
    \<and> opt_holds (\<lambda>s. \<not> json_valid E s v) (not_schema sub)"
  by (cases sub) simp

lemma agrees_subschemas:
  assumes "\<forall>s \<in> set (subschema_children sub). agrees E rec s" "lone_keyword sub"
  shows "\<exists>k. j2oas_subschemas rec sub = Inr k \<and> (\<forall>v. kind_valid E k v = subschemas_valid E sub v)"
proof -
  have cond: "if_schema sub = None" using assms(2) by (simp add: lone_keyword_def)
  have vec: "\<exists>rs. j2oas_schema_vec rec (Some xs) = Inr rs \<and> map (oas_ref_valid E) rs = map (json_valid E) xs"
    if "\<forall>s \<in> set xs. agrees E rec s" for xs
    using agrees_vec[of "Some xs" E rec] that by (simp add: list_children_def)
  consider (all) xs where "all_of sub = Some xs" "any_of sub = None" "one_of sub = None" "not_schema sub = None"
    | (any) xs where "all_of sub = None" "any_of sub = Some xs" "one_of sub = None" "not_schema sub = None"
    | (one) xs where "all_of sub = None" "any_of sub = None" "one_of sub = Some xs" "not_schema sub = None"
    | (not) s where "all_of sub = None" "any_of sub = None" "one_of sub = None" "not_schema sub = Some s"
    using assms(2) by (auto simp: lone_keyword_def split: if_splits)
  then show ?thesis
  proof cases
    case all
    with vec[of xs] assms(1) obtain rs where "j2oas_schema_vec rec (Some xs) = Inr rs"
        and eq: "map (oas_ref_valid E) rs = map (json_valid E) xs"
      by (auto simp: subschema_children_def list_children_def)
    moreover have "(list_all (\<lambda>p. p v)) (map (oas_ref_valid E) rs) = (list_all (\<lambda>p. p v)) (map (json_valid E) xs)" for v
      by (simp only: eq)
    ultimately show ?thesis
      using all by (auto simp: j2oas_subschemas_def subschemas_valid_alt[OF cond] oas_folded)
  next
    case any
    with vec[of xs] assms(1) obtain rs where "j2oas_schema_vec rec (Some xs) = Inr rs"
        and eq: "map (oas_ref_valid E) rs = map (json_valid E) xs"
      by (auto simp: subschema_children_def list_children_def)
    moreover have "(list_ex (\<lambda>p. p v)) (map (oas_ref_valid E) rs) = (list_ex (\<lambda>p. p v)) (map (json_valid E) xs)" for v
      by (simp only: eq)
    ultimately show ?thesis
      using any by (auto simp: j2oas_subschemas_def subschemas_valid_alt[OF cond] oas_folded)
  next
    case one
    with vec[of xs] assms(1) obtain rs where "j2oas_schema_vec rec (Some xs) = Inr rs"
        and eq: "map (oas_ref_valid E) rs = map (json_valid E) xs"
      by (auto simp: subschema_children_def list_children_def)
    moreover have "(\<lambda>ps. exactly_one ps v) (map (oas_ref_valid E) rs) = (\<lambda>ps. exactly_one ps v) (map (json_valid E) xs)" for v
      by (simp only: eq)
    ultimately show ?thesis
      using one by (auto simp: j2oas_subschemas_def subschemas_valid_alt[OF cond] oas_folded)
  next
    case not
    then show ?thesis
      using assms(1) by (auto simp: j2oas_subschemas_def subschemas_valid_alt[OF cond] oas_folded
          subschema_children_def agrees_def)
  qed
qed

text \<open>The parts of a schema with a type and subschemas.\<close>

lemma agrees_object_part:
  assumes "opt_holds (\<lambda>ov. \<forall>s \<in> set (object_children ov). agrees E rec s) x" "opt_holds object_kept x"
  shows "\<exists>ot. j2oas_object rec x = Inr ot
    \<and> (\<forall>v. on_objects (object_type_valid E ot) v = opt_holds (\<lambda>p. properties_valid E p v) x)"
proof (cases x)
  case None
  then show ?thesis
    by (auto simp: j2oas_object_def oas_folded object_ok_def size_ok_def split: json.splits)
next
  case (Some ov)
  then obtain ot where "j2oas_object rec (Some ov) = Inr ot"
      "\<And>kvs. object_type_valid E ot kvs = properties_valid E ov (JObject kvs)"
    using agrees_object[of ov E rec] assms by auto
  moreover have "\<not> has_type TObject v \<Longrightarrow> properties_valid E ov v" for v
    by (cases ov; cases v) auto
  ultimately show ?thesis
    using Some by (auto split: json.splits)
qed

definition array_part :: "converter \<Rightarrow> array_validation option \<Rightarrow> array_type outcome" where
  "array_part rec x =
    (case x of None \<Rightarrow> Inr (ArrayType None None None False) | Some av \<Rightarrow> j2oas_array rec (Some av))"

lemma agrees_array_part:
  assumes "opt_holds (\<lambda>av. \<forall>s \<in> set (array_children av). agrees E rec s) x" "opt_holds array_kept x"
  shows "\<exists>ar. array_part rec x = Inr ar
    \<and> (\<forall>v. on_arrays (array_type_valid E ar) v = opt_holds (\<lambda>a. array_valid E a v) x)
    \<and> at_unique_items ar = (Option.bind x av_unique_items = Some True)"
proof (cases x)
  case None
  then show ?thesis
    by (auto simp: array_part_def oas_folded array_ok_def size_ok_def split: json.splits)
next
  case (Some av)
  then obtain ar where "j2oas_array rec (Some av) = Inr ar"
      "\<And>vs. array_type_valid E ar vs = array_valid E av (JArray vs)"
      "at_unique_items ar = (av_unique_items av = Some True)"
    using agrees_array[of av E rec] assms by auto
  moreover have "\<not> has_type TArray v \<Longrightarrow> array_valid E av v" for v
    by (cases av; cases v) auto
  ultimately show ?thesis
    using Some by (auto simp: array_part_def split: json.splits)
qed

lemma any_enumeration_agrees:
  assumes "opt_holds (\<lambda>c. opt_holds (\<lambda>vs. c \<in> set vs) ev) cv" "ev \<noteq> Some []"
  shows "\<exists>es. any_enumeration ev cv = Inr es \<and>
    (\<forall>v. (es = [] \<or> (\<exists>w \<in> set es. same_value w v)) \<longleftrightarrow> enum_holds ev v \<and> opt_holds (\<lambda>w. same_value w v) cv)"
  using assms by (cases ev; cases cv) (auto simp: any_enumeration_def enum_holds_def)

lemma any_valid_parts:
  "any_valid E (AnySchema a props add it on al an no) v \<longleftrightarrow>
    any_fields_ok E a v
    \<and> on_objects (object_type_valid E
        (ObjectType props (an_required a) add (an_min_properties a) (an_max_properties a))) v
    \<and> on_arrays (array_type_valid E
        (ArrayType it (an_min_items a) (an_max_items a) (an_unique_items a = Some True))) v
    \<and> (on = [] \<or> exactly_one (map (oas_ref_valid E) on) v)
    \<and> list_all (\<lambda>p. p v) (map (oas_ref_valid E) al)
    \<and> (an = [] \<or> list_ex (\<lambda>p. p v) (map (oas_ref_valid E) an))
    \<and> opt_holds (\<lambda>r. \<not> oas_ref_valid E r v) no"
  by (simp only: any_valid.simps fold_ref_valid oas_folded opt_holds_map fold_ref)

lemma type_name_inj: "type_name t = type_name t' \<longleftrightarrow> t = t'"
  by (cases t; cases t') auto

lemma subschema_parts_agree:
  assumes "\<forall>s \<in> set (subschema_children sub). agrees E rec s" "subschemas_kept sub"
  shows "\<exists>al an on no. j2oas_schema_vec rec (all_of sub) = Inr al \<and> j2oas_schema_vec rec (any_of sub) = Inr an
    \<and> j2oas_schema_vec rec (one_of sub) = Inr on
    \<and> (case not_schema sub of None \<Rightarrow> Inr None | Some n \<Rightarrow> rbind (rec n) (\<lambda>r. Inr (Some r))) = Inr no
    \<and> (\<forall>v. (on = [] \<or> exactly_one (map (oas_ref_valid E) on) v)
          \<and> list_all (\<lambda>p. p v) (map (oas_ref_valid E) al)
          \<and> (an = [] \<or> list_ex (\<lambda>p. p v) (map (oas_ref_valid E) an))
          \<and> opt_holds (\<lambda>r. \<not> oas_ref_valid E r v) no \<longleftrightarrow> subschemas_valid E sub v)"
proof -
  have kept: "if_schema sub = None" "any_of sub \<noteq> Some []" "one_of sub \<noteq> Some []"
    using assms(2) by (auto simp: subschemas_kept_def)
  have "\<forall>s \<in> set (list_children (all_of sub)). agrees E rec s"
    "\<forall>s \<in> set (list_children (any_of sub)). agrees E rec s"
    "\<forall>s \<in> set (list_children (one_of sub)). agrees E rec s"
    using assms(1) by (auto simp: subschema_children_def)
  from this[THEN agrees_vec] obtain al an on where
    vecs: "j2oas_schema_vec rec (all_of sub) = Inr al" "j2oas_schema_vec rec (any_of sub) = Inr an"
      "j2oas_schema_vec rec (one_of sub) = Inr on"
    and eqs: "map (oas_ref_valid E) al = (case all_of sub of None \<Rightarrow> [] | Some v \<Rightarrow> map (json_valid E) v)"
      "map (oas_ref_valid E) an = (case any_of sub of None \<Rightarrow> [] | Some v \<Rightarrow> map (json_valid E) v)"
      "map (oas_ref_valid E) on = (case one_of sub of None \<Rightarrow> [] | Some v \<Rightarrow> map (json_valid E) v)"
    by blast
  obtain no where no: "(case not_schema sub of None \<Rightarrow> Inr None | Some n \<Rightarrow> rbind (rec n) (\<lambda>r. Inr (Some r))) = Inr no"
      "\<And>v. opt_holds (\<lambda>r. \<not> oas_ref_valid E r v) no = opt_holds (\<lambda>s. \<not> json_valid E s v) (not_schema sub)"
    using assms(1) by (cases "not_schema sub") (auto simp: subschema_children_def agrees_def)
  have "list_all (\<lambda>p. p v) (map (oas_ref_valid E) al) =
      opt_holds (\<lambda>xs. list_all (\<lambda>p. p v) (map (json_valid E) xs)) (all_of sub)" for v
    by (subst eqs(1)) (cases "all_of sub"; simp)
  moreover have empty: "an = [] \<longleftrightarrow> any_of sub = None" "on = [] \<longleftrightarrow> one_of sub = None"
    using eqs(2,3) kept(2,3) by (auto split: option.splits)
  have "(an = [] \<or> list_ex (\<lambda>p. p v) (map (oas_ref_valid E) an)) =
      opt_holds (\<lambda>xs. list_ex (\<lambda>p. p v) (map (json_valid E) xs)) (any_of sub)" for v
    unfolding eqs(2) empty by (cases "any_of sub") simp_all
  moreover have "(on = [] \<or> exactly_one (map (oas_ref_valid E) on) v) =
      opt_holds (\<lambda>xs. exactly_one (map (json_valid E) xs) v) (one_of sub)" for v
    unfolding eqs(3) empty by (cases "one_of sub") simp_all
  ultimately show ?thesis
    using vecs no unfolding subschemas_valid_alt[OF kept(1)] by blast
qed

lemma mixed_kind_agrees:
  assumes "so_instance_type obj = Some (Single t)" "so_subschemas obj = Some sub" "mixed_kept obj"
    and "so_enum_values obj \<noteq> Some []" "children_agree E rec obj"
  shows "kind_agrees E (j2oas_schema_object_kind rec obj) obj"
proof -
  note kept = assms(3)[unfolded mixed_kept_def]
  note children = children_of_parts[OF assms(5)]
  have "opt_holds (\<lambda>c. opt_holds (\<lambda>vs. c \<in> set vs) (so_enum_values obj)) (so_const_value obj)"
    using kept by blast
  from any_enumeration_agrees[OF this assms(4)] obtain es where
    es: "any_enumeration (so_enum_values obj) (so_const_value obj) = Inr es"
      "\<And>v. (es = [] \<or> (\<exists>w \<in> set es. same_value w v)) \<longleftrightarrow>
        enum_holds (so_enum_values obj) v \<and> opt_holds (\<lambda>w. same_value w v) (so_const_value obj)"
    by blast
  have "opt_holds (\<lambda>ov. \<forall>s \<in> set (object_children ov). agrees E rec s) (so_object obj)"
    using children(1) by (cases "so_object obj") auto
  with kept obtain ot where ot: "j2oas_object rec (so_object obj) = Inr ot"
      "\<And>v. on_objects (object_type_valid E ot) v = opt_holds (\<lambda>p. properties_valid E p v) (so_object obj)"
    using agrees_object_part by blast
  have "opt_holds (\<lambda>av. \<forall>s \<in> set (array_children av). agrees E rec s) (so_array obj)"
    using children(2) by (cases "so_array obj") auto
  with kept obtain ar where ar: "array_part rec (so_array obj) = Inr ar"
      "\<And>v. on_arrays (array_type_valid E ar) v = opt_holds (\<lambda>a. array_valid E a v) (so_array obj)"
      "at_unique_items ar = (Option.bind (so_array obj) av_unique_items = Some True)"
    using agrees_array_part by blast
  obtain st where st: "j2oas_string None (so_string obj) None = Inr st"
      "\<And>s. string_ok E (st_min_length st) (st_max_length st) (st_pattern st) s
        = opt_holds (\<lambda>sv. string_accepts E sv (JString s)) (so_string obj)"
    using string_agrees[of None None "so_string obj" E] by auto
  from number_bounds_agree kept obtain mult mn e1 mx e2 where
    nb: "number_bounds (so_number obj) = Inr (mult, (mn, e1), mx, e2)"
      "\<And>n. bounds_ok mult (mn, e1) (mx, e2) (num_val n)
        = opt_holds (\<lambda>nv. number_accepts nv (JNumber n)) (so_number obj)"
    by blast
  obtain al an on no where sub: "j2oas_schema_vec rec (all_of sub) = Inr al"
      "j2oas_schema_vec rec (any_of sub) = Inr an" "j2oas_schema_vec rec (one_of sub) = Inr on"
      "(case not_schema sub of None \<Rightarrow> Inr None | Some n \<Rightarrow> rbind (rec n) (\<lambda>r. Inr (Some r))) = Inr no"
      "\<And>v. (on = [] \<or> exactly_one (map (oas_ref_valid E) on) v)
          \<and> list_all (\<lambda>p. p v) (map (oas_ref_valid E) al)
          \<and> (an = [] \<or> list_ex (\<lambda>p. p v) (map (oas_ref_valid E) an))
          \<and> opt_holds (\<lambda>r. \<not> oas_ref_valid E r v) no \<longleftrightarrow> subschemas_valid E sub v"
    using subschema_parts_agree[OF children(3)[OF assms(2)]] kept assms(2) by auto
  let ?a = "\<lparr> an_typ = Some (type_name t), an_enumeration = es, an_format = so_format obj,
      an_required = ot_required ot, an_min_properties = ot_min_properties ot,
      an_max_properties = ot_max_properties ot, an_min_items = at_min_items ar,
      an_max_items = at_max_items ar, an_unique_items = Option.bind (so_array obj) av_unique_items,
      an_pattern = st_pattern st, an_min_length = st_min_length st, an_max_length = st_max_length st,
      an_multiple_of = mult, an_exclusive_minimum = (if e1 then Some True else None),
      an_exclusive_maximum = (if e2 then Some True else None), an_minimum = mn, an_maximum = mx \<rparr>"
  let ?any = "AnySchema ?a (ot_properties ot) (ot_additional_properties ot) (at_items ar) on al an no"
  have "j2oas_any rec (Some t) obj = Inr (KAny ?any)"
    using es(1) ot(1) ar(1) st(1) nb(1) sub(1-4) assms(2)
    by (simp add: j2oas_any_def array_part_def j2oas_number_def enumerate_def)
  then have kind: "j2oas_schema_object_kind rec obj = Inr (KAny ?any)"
    using assms(1,2,4) by (cases t) (simp_all add: j2oas_schema_object_kind_def)
  have fields: "any_fields_ok E ?a v \<longleftrightarrow> has_type t v
      \<and> (enum_holds (so_enum_values obj) v \<and> opt_holds (\<lambda>w. same_value w v) (so_const_value obj))
      \<and> opt_holds (\<lambda>n. number_accepts n v) (so_number obj)
      \<and> opt_holds (\<lambda>s. string_accepts E s v) (so_string obj)" for v
  proof -
    have "opt_holds (\<lambda>n. number_accepts n v) (so_number obj)" if "\<And>n. v \<noteq> JNumber n"
      using that by (cases "so_number obj"; cases v) (auto simp: number_accepts_def)
    moreover have "opt_holds (\<lambda>s. string_accepts E s v) (so_string obj)" if "\<And>s. v \<noteq> JString s"
      using that by (cases "so_string obj"; cases v) (auto simp: string_accepts_def)
    ultimately show ?thesis
      using es(2)[of v] st(2) nb(2) by (cases v) (auto simp: any_fields_ok_def type_name_inj)
  qed
  have ob: "ObjectType (ot_properties ot) (an_required ?a) (ot_additional_properties ot)
      (an_min_properties ?a) (an_max_properties ?a) = ot"
    by (cases ot) simp
  have arr: "ArrayType (at_items ar) (an_min_items ?a) (an_max_items ?a) (an_unique_items ?a = Some True) = ar"
    using ar(3) by (cases ar) simp
  have "any_valid E ?any v = keywords_valid E obj v" for v
    unfolding any_valid_parts fields ob arr ot(2) ar(2) sub(5)
    using assms(1,2) by (auto simp: keywords_valid_def type_accepts_def enum_holds_def)
  then show ?thesis using kind by (simp add: kind_agrees_def oas_folded)
qed

lemma nothing_enumerated:
  assumes "so_enum_values obj = Some []"
  shows "kind_agrees E (j2oas_schema_object_kind rec obj) obj"
  using assms by (simp add: kind_agrees_def j2oas_schema_object_kind_def keywords_valid_def oas_folded)

lemma kept_kind_agrees:
  assumes "keywords_kept obj" "so_enum_values obj \<noteq> Some []" "children_agree E rec obj"
  shows "kind_agrees E (j2oas_schema_object_kind rec obj) obj"
proof (cases "so_instance_type obj")
  case None
  then have only: "only_subschemas obj"
    using assms(1) by (auto simp: keywords_kept_def split: option.splits)
  show ?thesis
  proof (cases "so_subschemas obj")
    case sub: None
    show ?thesis
      using None sub untyped_valid[OF None only] assms(2)
      by (simp add: kind_agrees_def j2oas_schema_object_kind_def oas_folded)
  next
    case (Some sub)
    then have "lone_keyword sub" using assms(1) None by (simp add: keywords_kept_def)
    then obtain k where "j2oas_subschemas rec sub = Inr k" "\<And>v. kind_valid E k v = subschemas_valid E sub v"
      using agrees_subschemas[OF children_of_parts(3)[OF assms(3) Some]] by blast
    then show ?thesis
      using None Some untyped_valid[OF None only] assms(2)
      by (simp add: kind_agrees_def j2oas_schema_object_kind_def)
  qed
next
  case (Some ty)
  then obtain t where t: "ty = Single t" using assms(1) by (cases ty) (auto simp: keywords_kept_def)
  show ?thesis
  proof (cases "so_subschemas obj")
    case None
    then show ?thesis
      using typed_kind_agrees[OF _ None] assms Some t by (simp add: keywords_kept_def)
  next
    case sub: (Some sub)
    then show ?thesis
      using mixed_kind_agrees[OF _ sub] assms Some t by (simp add: keywords_kept_def)
  qed
qed

lemma schema_data_of_nullable: "sd_nullable (schema_data_of name obj) = schema_object_is_nullable obj"
  by (simp add: schema_data_of_def Let_def split: option.splits)

lemma object_agrees:
  assumes "so_reference obj = None" "kind_agrees E (j2oas_schema_object_kind rec obj) obj"
  shows "\<exists>r. j2oas_schema_object rec name obj = Inr r \<and> oas_ref_valid E r = json_valid E (SObject obj)"
  using assms
  by (auto simp: kind_agrees_def j2oas_schema_object_def json_valid_object schema_data_of_nullable fun_eq_iff)

lemma reference_agrees:
  assumes "lone_reference obj"
  shows "\<exists>r. j2oas_schema_object rec name obj = Inr r \<and> oas_ref_valid E r = json_valid E (SObject obj)"
proof -
  obtain n where n: "so_reference obj = Some n" using assms by (auto simp: lone_reference_def)
  have "keywords_valid E obj v" for v
    using assms by (simp add: lone_reference_def only_subschemas_def keywords_valid_def)
  then show ?thesis
    using n by (auto simp: j2oas_schema_object_def json_valid_object oas_folded schema_data_default_def fun_eq_iff)
qed

lemma faithful_agrees:
  "faithful s \<Longrightarrow> \<exists>r. j2oas_schema name s = Inr r \<and> oas_ref_valid E r = json_valid E s"
proof (induction name s rule: j2oas_schema.induct)
  case (1 name)
  show ?case by (simp add: fun_eq_iff)
next
  case (2 name)
  show ?case by (simp add: fun_eq_iff oas_folded schema_data_default_def)
next
  case (3 name obj)
  let ?rec = "\<lambda>s. j2oas_schema None s"
  consider (ref) "lone_reference obj" | (none) "so_reference obj = None" "so_enum_values obj = Some []"
    | (kept) "so_reference obj = None" "so_enum_values obj \<noteq> Some []" "keywords_kept obj"
      "\<forall>s \<in> set (schema_children obj). faithful s"
    using 3(2) by auto
  then have "\<exists>r. j2oas_schema_object ?rec name obj = Inr r \<and> oas_ref_valid E r = json_valid E (SObject obj)"
  proof cases
    case kept
    then have "children_agree E ?rec obj" using 3(1) by (simp add: agrees_def)
    then show ?thesis using object_agrees kept_kind_agrees kept by blast
  qed (use reference_agrees object_agrees nothing_enumerated in blast)+
  then show ?case by simp
qed

section \<open>Properties\<close>

text \<open>C23. A schema that uses only keywords the conversion keeps is converted without a panic, and
  the OpenAPI schema accepts exactly the values that the JSON schema accepts, whatever the
  referenced schemas accept.\<close>

theorem j2oas_schema_faithful:
  assumes "faithful s"
  shows "\<exists>r. j2oas_schema name s = Inr r \<and> (\<forall>v. oas_ref_valid E r v \<longleftrightarrow> json_valid E s v)"
  using faithful_agrees[OF assms] by (metis)

definition typed_schema :: "instance_type \<Rightarrow> schema_object" where
  "typed_schema t = SchemaObject None (Some (Single t)) None None None None None None None None None []"

text \<open>A structure with a bounded integer, an optional reference and a list of words.\<close>

definition sample_struct :: schema where
  "sample_struct = SObject (SchemaObject None (Some (Single TObject)) None None None None None None None
     (Some (ObjectValidation None None [''id'']
       [(''id'', SObject (SchemaObject None (Some (Single TInteger)) (Some ''int64'') None None None
           (Some \<lparr> nv_multiple_of = None, nv_maximum = Some (Fin 1000), nv_exclusive_maximum = None,
              nv_minimum = None, nv_exclusive_minimum = Some (Fin 0) \<rparr>) None None None None [])),
        (''owner'', SObject (SchemaObject None None None None None None None None None None
           (Some ''#/components/schemas/Owner'') [(''nullable'', JBool True)])),
        (''tags'', SObject (SchemaObject None (Some (Single TArray)) None None None None None None
           (Some (ArrayValidation (Some (Single (SObject (SchemaObject None (Some (Single TString)) None
              (Some [JString ''a'', JString ''b'']) None None None None None None None []))))
             None (Some 7) None (Some True) None)) None None []))]
       [] (Some (SBool False)) None)) None [])"

definition sample_meaning :: meaning where
  "sample_meaning = \<lparr> ref_holds = (\<lambda>r v. v = JString r), pattern_matches = (=), str_length = length \<rparr>"

theorem j2oas_schema_faithful_witness:
  "\<exists>r. j2oas_schema (Some ''Thing'') sample_struct = Inr r
    \<and> (\<forall>v. oas_ref_valid sample_meaning r v \<longleftrightarrow> json_valid sample_meaning sample_struct v)"
proof (rule j2oas_schema_faithful)
  show "faithful sample_struct"
    unfolding sample_struct_def by code_simp
qed

text \<open>Keywords that are not kept.  An integer's bounds go through \<^verbatim>\<open>f64 as i64\<close>: an exclusive
  bound between two integers moves, and a bound above \<^verbatim>\<open>i64::MAX\<close> is lowered to it; the
  converted schema then refuses values that the JSON schema accepts.\<close>

definition bounded_integer :: "f64 option \<Rightarrow> f64 option \<Rightarrow> schema" where
  "bounded_integer ex_mn mx = SObject (SchemaObject None (Some (Single TInteger)) None None None None
     (Some \<lparr> nv_multiple_of = None, nv_maximum = mx, nv_exclusive_maximum = None,
        nv_minimum = None, nv_exclusive_minimum = ex_mn \<rparr>) None None None None [])"

lemma integer_bounds_truncated:
  "json_valid E (bounded_integer (Some (Fin (- 1 / 2))) None) (JNumber (JInt 0))
    \<and> (\<forall>r. j2oas_schema name (bounded_integer (Some (Fin (- 1 / 2))) None) = Inr r
        \<longrightarrow> \<not> oas_ref_valid E r (JNumber (JInt 0)))"
  "json_valid E (bounded_integer None (Some (Fin (2 ^ 64)))) (JNumber (JInt (2 ^ 63)))
    \<and> (\<forall>r. j2oas_schema name (bounded_integer None (Some (Fin (2 ^ 64)))) = Inr r
        \<longrightarrow> \<not> oas_ref_valid E r (JNumber (JInt (2 ^ 63))))"
  by (auto simp: bounded_integer_def json_valid.simps type_accepts_def number_accepts_def bounds_ok_def
      j2oas_schema_object_def j2oas_schema_object_kind_def j2oas_integer_def number_bounds_def enumerate_def
      schema_data_of_nullable schema_object_is_nullable_def oas_folded integer_type_ok_def int_bounds_ok_def
      trunc_rat_def i64_min_def i64_max_def)

text \<open>A constant beside a type is dropped, as are values without a type.\<close>

lemma const_dropped:
  "\<not> json_valid E (SObject (SchemaObject None (Some (Single TString)) None None (Some (JString ''a''))
        None None None None None None [])) (JString ''b'')
    \<and> (\<exists>r. j2oas_schema name (SObject (SchemaObject None (Some (Single TString)) None None
        (Some (JString ''a'')) None None None None None None [])) = Inr r
        \<and> oas_ref_valid E r (JString ''b''))"
  by (auto simp: json_valid.simps j2oas_schema_object_def j2oas_schema_object_kind_def j2oas_string_def
      enumerate_def oas_folded string_type_ok_def string_ok_def size_ok_def enumerated_def)

end
