(* ===== verification/Openapi_Document.thy ===== *)
theory Openapi_Document
  imports Api_Register Router_Iter Openapi_Schema "HOL-Library.AList"
begin

text \<open>
  The OpenAPI document of an API (\<^verbatim>\<open>gen_openapi\<close> and \<^verbatim>\<open>OpenApiDefinition\<close> in
  \<^verbatim>\<open>api_description.rs\<close>).  The schema generator of \<^verbatim>\<open>schemars\<close> is a parameter: a state that
  generating a schema updates, and the definitions it has collected.  An \<^verbatim>\<open>IndexMap\<close> is an
  association list in insertion order; \<open>AList.update\<close> is its \<^verbatim>\<open>insert\<close>.
\<close>

section \<open>The document\<close>

record oas_tag =
  tg_name :: string
  tg_description :: "string option"
  tg_external_docs :: "tag_external_docs option"

type_synonym content = "(string \<times> oas_ref) list"

record parameter_data =
  pd_name :: string
  pd_description :: "string option"
  pd_required :: bool
  pd_schema :: oas_ref

datatype oas_parameter =
    PQuery parameter_data
  | PPath parameter_data
  | PHeader parameter_data

record oas_header =
  oh_description :: "string option"
  oh_required :: bool
  oh_schema :: oas_ref

record oas_response =
  rs_description :: string
  rs_content :: content
  rs_headers :: "(string \<times> oas_header) list"

datatype status_key = Code status_code | Range nat

record operation =
  opn_operation_id :: "string option"
  opn_summary :: "string option"
  opn_description :: "string option"
  opn_tags :: "string list"
  opn_deprecated :: bool
  opn_parameters :: "oas_parameter list"
  opn_request_body :: "content option"
  opn_extensions :: "(string \<times> json) list"
  opn_responses :: "(status_key \<times> oas_response reference_or) list"
  opn_default :: "oas_response reference_or option"

record path_item =
  pi_get :: "operation option"
  pi_put :: "operation option"
  pi_post :: "operation option"
  pi_delete :: "operation option"
  pi_options :: "operation option"
  pi_head :: "operation option"
  pi_patch :: "operation option"
  pi_trace :: "operation option"

definition path_item_default :: path_item where
  "path_item_default =
    \<lparr> pi_get = None, pi_put = None, pi_post = None, pi_delete = None, pi_options = None,
      pi_head = None, pi_patch = None, pi_trace = None \<rparr>"

record contact =
  ct_name :: "string option"
  ct_url :: "string option"
  ct_email :: "string option"

record license =
  lc_name :: string
  lc_url :: "string option"

record info =
  nf_title :: string
  nf_version :: string
  nf_description :: "string option"
  nf_terms_of_service :: "string option"
  nf_contact :: "contact option"
  nf_license :: "license option"

record openapi =
  oa_version :: string
  oa_info :: info
  oa_tags :: "oas_tag list"
  oa_paths :: "(string \<times> path_item) list"
  oa_schemas :: "(string \<times> oas_ref) list"
  oa_responses :: "(string \<times> oas_response reference_or) list"

section \<open>State of the generation\<close>

record ('g, 's) schema_generator =
  sg_new :: 's
  sg_name :: "'g \<Rightarrow> string"
  sg_schema :: "'g \<Rightarrow> 's \<Rightarrow> schema \<times> 's"
  sg_definitions :: "'s \<Rightarrow> (string \<times> schema) list"

record error_response =
  er_response :: oas_response
  er_name :: string
  er_reference :: "oas_response reference_or"

record 's doc_state =
  ds_generator :: 's
  ds_definitions :: "(string \<times> schema) list"
  ds_error_responses :: "(string \<times> error_response) list"
  ds_error_names :: "(string \<times> nat) list"
  ds_paths :: "(string \<times> path_item) list"

fun for_each :: "('a \<Rightarrow> 'st \<Rightarrow> 'st outcome) \<Rightarrow> 'a list \<Rightarrow> 'st \<Rightarrow> 'st outcome" where
  "for_each f [] st = Inr st"
| "for_each f (x # xs) st = rbind (f x st) (for_each f xs)"

fun map_state :: "('a \<Rightarrow> 'st \<Rightarrow> ('b \<times> 'st) outcome) \<Rightarrow> 'a list \<Rightarrow> 'st \<Rightarrow> ('b list \<times> 'st) outcome" where
  "map_state f [] st = Inr ([], st)"
| "map_state f (x # xs) st =
    rbind (f x st) (\<lambda>(y, st). rbind (map_state f xs st) (\<lambda>(ys, st). Inr (y # ys, st)))"

definition extend_definitions :: "(string \<times> schema) list \<Rightarrow> 's doc_state \<Rightarrow> 's doc_state" where
  "extend_definitions deps st =
    st\<lparr> ds_definitions := fold (\<lambda>(k, v). AList.update k v) deps (ds_definitions st) \<rparr>"

text \<open>Parameters and headers must have static schemas; bodies may have generated ones.\<close>

definition static_schema ::
  "'g api_schema_generator \<Rightarrow> 's doc_state \<Rightarrow> (oas_ref \<times> 's doc_state) outcome" where
  "static_schema gen st =
    (case gen of
       Static sch deps \<Rightarrow> rbind (j2oas_schema None sch) (\<lambda>r. Inr (r, extend_definitions deps st))
     | Gen _ \<Rightarrow> Inl (Panic ''not implemented: this may happen for complex types''))"

definition any_schema_of ::
  "('g, 's) schema_generator \<Rightarrow> 'g api_schema_generator \<Rightarrow> 's doc_state
    \<Rightarrow> (string option \<times> schema) \<times> 's doc_state" where
  "any_schema_of G gen st =
    (case gen of
       Gen g \<Rightarrow> (let (js, s) = sg_schema G g (ds_generator st)
                 in ((Some (sg_name G g), js), st\<lparr> ds_generator := s \<rparr>))
     | Static sch deps \<Rightarrow> ((None, sch), extend_definitions deps st))"

section \<open>Operations\<close>

fun named_location ::
  "api_endpoint_parameter_metadata \<Rightarrow> (string \<times> api_endpoint_parameter_location) option" where
  "named_location (Body _) = None"
| "named_location (Path name) = Some (name, LocPath)"
| "named_location (Query name) = Some (name, LocQuery)"
| "named_location (Header name) = Some (name, LocHeader)"

definition gen_parameter ::
  "'g api_endpoint_parameter \<Rightarrow> 's doc_state \<Rightarrow> (oas_parameter option \<times> 's doc_state) outcome" where
  "gen_parameter p st =
    (case named_location (param_metadata p) of
       None \<Rightarrow> Inr (None, st)
     | Some (name, loc) \<Rightarrow>
         rbind (static_schema (param_schema p) st) (\<lambda>(sch, st).
         let pd = \<lparr> pd_name = name, pd_description = param_description p,
                    pd_required = param_required p, pd_schema = sch \<rparr>
         in Inr (Some (case loc of LocQuery \<Rightarrow> PQuery pd | LocPath \<Rightarrow> PPath pd | LocHeader \<Rightarrow> PHeader pd),
              st)))"

definition gen_parameters ::
  "'g api_endpoint_parameter list \<Rightarrow> 's doc_state \<Rightarrow> (oas_parameter list \<times> 's doc_state) outcome" where
  "gen_parameters ps st =
    rbind (map_state gen_parameter ps st) (\<lambda>(os, st). Inr (List.map_filter id os, st))"

fun body_parameter :: "'g api_endpoint_parameter list
    \<Rightarrow> (api_endpoint_body_content_type \<times> 'g api_endpoint_parameter) option" where
  "body_parameter [] = None"
| "body_parameter (p # ps) =
    (case param_metadata p of Body ct \<Rightarrow> Some (ct, p) | _ \<Rightarrow> body_parameter ps)"

definition gen_request_body ::
  "('g, 's) schema_generator \<Rightarrow> 'g api_endpoint_parameter list \<Rightarrow> 's doc_state
    \<Rightarrow> (content option \<times> 's doc_state) outcome" where
  "gen_request_body G ps st =
    (case body_parameter ps of
       None \<Rightarrow> Inr (None, st)
     | Some (ct, p) \<Rightarrow>
         (let ((name, js), st) = any_schema_of G (param_schema p) st
          in rbind (j2oas_schema name js) (\<lambda>sch. Inr (Some [(mime_type ct, sch)], st))))"

definition PAGINATION_EXTENSION :: string where
  "PAGINATION_EXTENSION = ''x-dropshot-pagination''"

definition WEBSOCKET_EXTENSION :: string where
  "WEBSOCKET_EXTENSION = ''x-dropshot-websocket''"

fun operation_extensions :: "extension_mode \<Rightarrow> (string \<times> json) list" where
  "operation_extensions ModeNone = []"
| "operation_extensions (Paginated first_page_schema) = [(PAGINATION_EXTENSION, first_page_schema)]"
| "operation_extensions Websocket = [(WEBSOCKET_EXTENSION, JObject [])]"

definition gen_header ::
  "'g api_endpoint_header \<Rightarrow> 's doc_state \<Rightarrow> ((string \<times> oas_header) \<times> 's doc_state) outcome" where
  "gen_header h st =
    rbind (static_schema (header_schema h) st) (\<lambda>(sch, st).
      Inr ((header_name h, \<lparr> oh_description = header_description h, oh_required = header_required h,
                             oh_schema = sch \<rparr>), st))"

definition gen_response ::
  "('g, 's) schema_generator \<Rightarrow> 'g api_endpoint_response \<Rightarrow> 's doc_state
    \<Rightarrow> (oas_response \<times> 's doc_state) outcome" where
  "gen_response G r st =
    (let desc = (case response_description r of Some d \<Rightarrow> d | None \<Rightarrow> [])
     in case response_schema r of
          Some gen \<Rightarrow>
            (let ((name, js), st) = any_schema_of G gen st
             in rbind (if is_empty_schema js then Inr []
                       else rbind (j2oas_schema name js) (\<lambda>sch. Inr [(CONTENT_TYPE_JSON, sch)])) (\<lambda>content.
                rbind (map_state gen_header (response_headers r) st) (\<lambda>(hs, st).
                Inr (\<lparr> rs_description = desc, rs_content = content,
                       rs_headers = fold (\<lambda>(k, v). AList.update k v) hs [] \<rparr>, st))))
        | None \<Rightarrow>
            Inr (\<lparr> rs_description = desc, rs_content = [(''*/*'', any_item)], rs_headers = [] \<rparr>, st))"

section \<open>Error responses\<close>

text \<open>The last component of \<^verbatim>\<open>split("::")\<close>.\<close>

fun last_component :: "string \<Rightarrow> string \<Rightarrow> string" where
  "last_component acc [] = acc"
| "last_component acc [c] = acc @ [c]"
| "last_component acc (c # d # s) =
    (if c = CHR '':'' \<and> d = CHR '':'' then last_component [] s else last_component (acc @ [c]) (d # s))"

definition error_schema_and_name ::
  "('g, 's) schema_generator \<Rightarrow> 'g api_endpoint_error_response \<Rightarrow> 's doc_state
    \<Rightarrow> ((oas_ref \<times> string) \<times> 's doc_state) outcome" where
  "error_schema_and_name G err st =
    (let ((name, js), st) = any_schema_of G (error_schema err) st
     in rbind (j2oas_schema name js) (\<lambda>sch.
          Inr ((sch, case name of Some n \<Rightarrow> n | None \<Rightarrow> last_component [] (error_type_name err)), st)))"

text \<open>The number of occurrences of the name so far tells types of the same name apart.\<close>

definition disambiguate :: "string \<Rightarrow> 's doc_state \<Rightarrow> string \<times> 's doc_state" where
  "disambiguate name st =
    (let num = (case map_of (ds_error_names st) name of Some n \<Rightarrow> n + 1 | None \<Rightarrow> 1)
     in (if num \<le> 1 then name else name @ show_nat num,
         st\<lparr> ds_error_names := AList.update name num (ds_error_names st) \<rparr>))"

definition response_reference :: "string \<Rightarrow> oas_response reference_or" where
  "response_reference name = Reference (''#/components/responses/'' @ name)"

definition gen_error_response ::
  "('g, 's) schema_generator \<Rightarrow> 'g api_endpoint_error_response \<Rightarrow> 's doc_state
    \<Rightarrow> (oas_response reference_or \<times> 's doc_state) outcome" where
  "gen_error_response G err st =
    (case map_of (ds_error_responses st) (error_type_name err) of
       Some er \<Rightarrow> Inr (er_reference er, st)
     | None \<Rightarrow>
         rbind (error_schema_and_name G err st) (\<lambda>((sch, base), st).
         let (name, st) = disambiguate base st;
             er = \<lparr> er_response = \<lparr> rs_description = name, rs_content = [(CONTENT_TYPE_JSON, sch)],
                                    rs_headers = [] \<rparr>,
                    er_name = name, er_reference = response_reference name \<rparr>
         in Inr (er_reference er, st\<lparr> ds_error_responses :=
              AList.update (error_type_name err) er (ds_error_responses st) \<rparr>)))"

definition gen_responses ::
  "('g, 's) schema_generator \<Rightarrow> ('h, 'g, 'v) api_endpoint \<Rightarrow> oas_response \<Rightarrow> 's doc_state
    \<Rightarrow> (((status_key \<times> oas_response reference_or) list \<times> oas_response reference_or option)
        \<times> 's doc_state) outcome" where
  "gen_responses G e response st =
    (case response_success (ep_response e) of
       Some code \<Rightarrow>
         (case ep_error e of
            None \<Rightarrow> Inr (([(Code code, Item response)], None), st)
          | Some err \<Rightarrow>
              rbind (gen_error_response G err st) (\<lambda>(reference, st).
              Inr (([(Code code, Item response), (Range 4, reference), (Range 5, reference)], None), st)))
     | None \<Rightarrow> Inr (([], Some (Item response)), st))"

section \<open>Generating the document\<close>

definition path_item_methods :: "string list" where
  "path_item_methods =
    [''GET'', ''PUT'', ''POST'', ''DELETE'', ''OPTIONS'', ''HEAD'', ''PATCH'', ''TRACE'']"

definition path_item_put :: "string \<Rightarrow> operation \<Rightarrow> path_item \<Rightarrow> path_item" where
  "path_item_put m op item =
    (if m = ''GET'' then item\<lparr> pi_get := Some op \<rparr>
     else if m = ''PUT'' then item\<lparr> pi_put := Some op \<rparr>
     else if m = ''POST'' then item\<lparr> pi_post := Some op \<rparr>
     else if m = ''DELETE'' then item\<lparr> pi_delete := Some op \<rparr>
     else if m = ''OPTIONS'' then item\<lparr> pi_options := Some op \<rparr>
     else if m = ''HEAD'' then item\<lparr> pi_head := Some op \<rparr>
     else if m = ''PATCH'' then item\<lparr> pi_patch := Some op \<rparr>
     else if m = ''TRACE'' then item\<lparr> pi_trace := Some op \<rparr>
     else item)"

definition path_item_get :: "string \<Rightarrow> path_item \<Rightarrow> operation option" where
  "path_item_get m item =
    (if m = ''GET'' then pi_get item else if m = ''PUT'' then pi_put item
     else if m = ''POST'' then pi_post item else if m = ''DELETE'' then pi_delete item
     else if m = ''OPTIONS'' then pi_options item else if m = ''HEAD'' then pi_head item
     else if m = ''PATCH'' then pi_patch item else if m = ''TRACE'' then pi_trace item
     else None)"

definition operation_of ::
  "('h, 'g, 'v) api_endpoint \<Rightarrow> oas_parameter list \<Rightarrow> content option
    \<Rightarrow> (status_key \<times> oas_response reference_or) list \<Rightarrow> oas_response reference_or option \<Rightarrow> operation" where
  "operation_of e params body responses default_response =
    \<lparr> opn_operation_id = Some (operation_id e), opn_summary = summary e,
      opn_description = description e, opn_tags = tags e, opn_deprecated = deprecated e,
      opn_parameters = params, opn_request_body = body,
      opn_extensions = operation_extensions (extension_mode e),
      opn_responses = responses, opn_default = default_response \<rparr>"

definition path_entry :: "string \<Rightarrow> 's doc_state \<Rightarrow> path_item" where
  "path_entry p st = (case map_of (ds_paths st) p of Some item \<Rightarrow> item | None \<Rightarrow> path_item_default)"

definition gen_endpoint ::
  "('g, 's) schema_generator \<Rightarrow> string \<times> string \<times> ('h, 'g, 'v) api_endpoint \<Rightarrow> 's doc_state
    \<Rightarrow> 's doc_state outcome" where
  "gen_endpoint G ep st =
    (let (p, m, e) = ep in
     if \<not> visible e then Inr st
     else if m \<notin> set path_item_methods then Inl (Panic (''unexpected method `'' @ m @ ''`''))
     else
       rbind (gen_parameters (parameters e) st) (\<lambda>(params, st).
       rbind (gen_request_body G (parameters e) st) (\<lambda>(body, st).
       rbind (gen_response G (ep_response e) st) (\<lambda>(response, st).
       rbind (gen_responses G e response st) (\<lambda>((responses, default_response), st).
       Inr (st\<lparr> ds_paths := AList.update p
         (path_item_put m (operation_of e params body responses default_response) (path_entry p st))
         (ds_paths st) \<rparr>))))))"

text \<open>Tags of the configuration and those that only endpoints use, in the order of their names.\<close>

definition endpoint_tags :: "tag_config \<Rightarrow> (string \<times> string \<times> ('h, 'g, 'v) api_endpoint) list \<Rightarrow> string set" where
  "endpoint_tags c es =
    set (concat (map (\<lambda>(_, _, e). filter (\<lambda>tag. tag_table c tag = None) (tags e)) es))"

definition document_tags :: "tag_config \<Rightarrow> (string \<times> string \<times> ('h, 'g, 'v) api_endpoint) list \<Rightarrow> oas_tag list" where
  "document_tags c es =
    map (\<lambda>name.
        (case tag_table c name of
           Some details \<Rightarrow> \<lparr> tg_name = name, tg_description = td_description details,
                             tg_external_docs = td_external_docs details \<rparr>
         | None \<Rightarrow> \<lparr> tg_name = name, tg_description = None, tg_external_docs = None \<rparr>))
      (sorted_list_of_set (dom (tag_table c) \<union> endpoint_tags c es))"

text \<open>The schemas of the components: those that the generator has collected, then the
  dependencies of static schemas that are not among them.\<close>

definition add_schema ::
  "bool \<Rightarrow> string \<times> schema \<Rightarrow> (string \<times> oas_ref) list \<Rightarrow> (string \<times> oas_ref) list outcome" where
  "add_schema keep ks schemas =
    (let (k, sch) = ks in
     if keep \<and> map_of schemas k \<noteq> None then Inr schemas
     else rbind (j2oas_schema None sch) (\<lambda>r. Inr (AList.update k r schemas)))"

definition component_schemas ::
  "('g, 's) schema_generator \<Rightarrow> 's doc_state \<Rightarrow> (string \<times> oas_ref) list outcome" where
  "component_schemas G st =
    rbind (for_each (add_schema False) (sg_definitions G (ds_generator st)) []) (\<lambda>schemas.
    for_each (add_schema True) (ds_definitions st) schemas)"

definition add_response ::
  "string \<times> error_response \<Rightarrow> (string \<times> oas_response reference_or) list
    \<Rightarrow> (string \<times> oas_response reference_or) list outcome" where
  "add_response er responses =
    (let name = er_name (snd er) in
     if map_of responses name \<noteq> None then Inl (Panic ''error response names must be unique'')
     else Inr (AList.update name (Item (er_response (snd er))) responses))"

definition doc_state_new :: "('g, 's) schema_generator \<Rightarrow> 's doc_state" where
  "doc_state_new G =
    \<lparr> ds_generator = sg_new G, ds_definitions = [], ds_error_responses = [], ds_error_names = [],
      ds_paths = [] \<rparr>"

definition gen_openapi ::
  "('g, 's) schema_generator \<Rightarrow> ('h, 'g, 'v::linorder) api_description \<Rightarrow> info \<Rightarrow> 'v \<Rightarrow> openapi outcome" where
  "gen_openapi G api api_info version =
    (let endpoints = endpoints_list (router api) (Some version) in
     rbind (for_each (gen_endpoint G) endpoints (doc_state_new G)) (\<lambda>st.
     rbind (component_schemas G st) (\<lambda>schemas.
     rbind (for_each add_response (ds_error_responses st) []) (\<lambda>responses.
     Inr \<lparr> oa_version = ''3.0.3'', oa_info = api_info, oa_tags = document_tags (tag_conf api) endpoints,
           oa_paths = ds_paths st, oa_schemas = schemas, oa_responses = responses \<rparr>))))"

section \<open>The definition builder\<close>

record ('h, 'g, 'v) openapi_definition =
  od_api :: "('h, 'g, 'v) api_description"
  od_info :: info
  od_version :: 'v

text \<open>\<open>show_version\<close> prints a version.\<close>

definition definition_new ::
  "('v \<Rightarrow> string) \<Rightarrow> ('h, 'g, 'v) api_description \<Rightarrow> string \<Rightarrow> 'v \<Rightarrow> ('h, 'g, 'v) openapi_definition" where
  "definition_new show_version api title v =
    \<lparr> od_api = api,
      od_info = \<lparr> nf_title = title, nf_version = show_version v, nf_description = None,
                  nf_terms_of_service = None, nf_contact = None, nf_license = None \<rparr>,
      od_version = v \<rparr>"

definition map_info :: "(info \<Rightarrow> info) \<Rightarrow> ('h, 'g, 'v) openapi_definition \<Rightarrow> ('h, 'g, 'v) openapi_definition" where
  "map_info f d = d\<lparr> od_info := f (od_info d) \<rparr>"

definition set_description :: "string \<Rightarrow> ('h, 'g, 'v) openapi_definition \<Rightarrow> ('h, 'g, 'v) openapi_definition" where
  "set_description x = map_info (\<lambda>i. i\<lparr> nf_description := Some x \<rparr>)"

definition set_terms_of_service :: "string \<Rightarrow> ('h, 'g, 'v) openapi_definition \<Rightarrow> ('h, 'g, 'v) openapi_definition" where
  "set_terms_of_service x = map_info (\<lambda>i. i\<lparr> nf_terms_of_service := Some x \<rparr>)"

definition contact_mut :: "(contact \<Rightarrow> contact) \<Rightarrow> info \<Rightarrow> info" where
  "contact_mut f i = i\<lparr> nf_contact := Some (f (case nf_contact i of
      None \<Rightarrow> \<lparr> ct_name = None, ct_url = None, ct_email = None \<rparr> | Some c \<Rightarrow> c)) \<rparr>"

definition set_contact_name :: "string \<Rightarrow> ('h, 'g, 'v) openapi_definition \<Rightarrow> ('h, 'g, 'v) openapi_definition" where
  "set_contact_name x = map_info (contact_mut (\<lambda>c. c\<lparr> ct_name := Some x \<rparr>))"

definition set_contact_url :: "string \<Rightarrow> ('h, 'g, 'v) openapi_definition \<Rightarrow> ('h, 'g, 'v) openapi_definition" where
  "set_contact_url x = map_info (contact_mut (\<lambda>c. c\<lparr> ct_url := Some x \<rparr>))"

definition set_contact_email :: "string \<Rightarrow> ('h, 'g, 'v) openapi_definition \<Rightarrow> ('h, 'g, 'v) openapi_definition" where
  "set_contact_email x = map_info (contact_mut (\<lambda>c. c\<lparr> ct_email := Some x \<rparr>))"

text \<open>The name of a licence is only taken when there is none yet.\<close>

definition license_mut :: "string \<Rightarrow> (license \<Rightarrow> license) \<Rightarrow> info \<Rightarrow> info" where
  "license_mut name f i = i\<lparr> nf_license := Some (f (case nf_license i of
      None \<Rightarrow> \<lparr> lc_name = name, lc_url = None \<rparr> | Some l \<Rightarrow> l)) \<rparr>"

definition set_license :: "string \<Rightarrow> string \<Rightarrow> ('h, 'g, 'v) openapi_definition \<Rightarrow> ('h, 'g, 'v) openapi_definition" where
  "set_license name url = map_info (license_mut name (\<lambda>l. l\<lparr> lc_url := Some url \<rparr>))"

definition set_license_name :: "string \<Rightarrow> ('h, 'g, 'v) openapi_definition \<Rightarrow> ('h, 'g, 'v) openapi_definition" where
  "set_license_name name = map_info (license_mut name id)"

definition definition_document ::
  "('g, 's) schema_generator \<Rightarrow> ('h, 'g, 'v::linorder) openapi_definition \<Rightarrow> openapi outcome" where
  "definition_document G d = gen_openapi G (od_api d) (od_info d) (od_version d)"

lemma license_name_kept:
  "nf_license (od_info (set_license_name second (set_license_name first (definition_new sv api title v))))
    = Some \<lparr> lc_name = first, lc_url = None \<rparr>"
  by (simp add: set_license_name_def map_info_def license_mut_def definition_new_def)

section \<open>State passing\<close>

lemma rbind_pair_Inr_iff [rbind_simps]:
  "rbind r (\<lambda>(x, st). f x st) = Inr b \<longleftrightarrow> (\<exists>x st. r = Inr (x, st) \<and> f x st = Inr b)"
  by (cases r) auto

text \<open>A relation between the states before and after that each step keeps holds of a loop.\<close>

lemma for_each_invariant:
  assumes "for_each f xs st = Inr st'" "P st"
    and "\<And>x st st'. x \<in> set xs \<Longrightarrow> P st \<Longrightarrow> f x st = Inr st' \<Longrightarrow> P st'"
  shows "P st'"
  using assms by (induction xs arbitrary: st) (auto simp: rbind_simps)

lemma map_state_relation:
  assumes "map_state f xs st = Inr (ys, st')"
    and "\<And>st. R st st" "\<And>a b c. R a b \<Longrightarrow> R b c \<Longrightarrow> R a c"
    and "\<And>x y st st'. f x st = Inr (y, st') \<Longrightarrow> R st st'"
  shows "R st st'"
  using assms(1)
proof (induction xs arbitrary: st ys)
  case (Cons x xs)
  then obtain y st1 ys' where "f x st = Inr (y, st1)" "map_state f xs st1 = Inr (ys', st')"
    by (auto simp: rbind_simps)
  then show ?case using Cons.IH assms(3,4) by blast
qed (simp add: assms(2))

text \<open>Generating a schema touches neither the paths nor the error responses.\<close>

definition same_document :: "'s doc_state \<Rightarrow> 's doc_state \<Rightarrow> bool" where
  "same_document st st' \<longleftrightarrow>
    ds_paths st' = ds_paths st \<and> ds_error_responses st' = ds_error_responses st
    \<and> ds_error_names st' = ds_error_names st"

lemma same_document_refl [simp]: "same_document st st"
  by (simp add: same_document_def)

lemma same_document_trans: "same_document a b \<Longrightarrow> same_document b c \<Longrightarrow> same_document a c"
  by (simp add: same_document_def)

lemma extend_definitions_same [simp]: "same_document st (extend_definitions deps st)"
  by (simp add: same_document_def extend_definitions_def)

lemma static_schema_same: "static_schema gen st = Inr (r, st') \<Longrightarrow> same_document st st'"
  by (auto simp: static_schema_def rbind_simps split: api_schema_generator.splits)

lemma any_schema_of_same: "any_schema_of G gen st = (x, st') \<Longrightarrow> same_document st st'"
  by (auto simp: any_schema_of_def same_document_def extend_definitions_def
      split: api_schema_generator.splits prod.splits)

lemma gen_parameter_same: "gen_parameter p st = Inr (o', st') \<Longrightarrow> same_document st st'"
  by (auto simp: gen_parameter_def rbind_simps Let_def split: option.splits dest: static_schema_same)

lemma gen_parameters_same: "gen_parameters ps st = Inr (os, st') \<Longrightarrow> same_document st st'"
  by (auto simp: gen_parameters_def rbind_simps
      intro: map_state_relation[where R = same_document, OF _ same_document_refl same_document_trans
        gen_parameter_same])

lemma gen_request_body_same: "gen_request_body G ps st = Inr (b, st') \<Longrightarrow> same_document st st'"
  by (auto simp: gen_request_body_def rbind_simps split: option.splits prod.splits dest: any_schema_of_same)

lemma gen_headers_same: "map_state gen_header hs st = Inr (os, st') \<Longrightarrow> same_document st st'"
  by (rule map_state_relation[where R = same_document, OF _ same_document_refl same_document_trans])
     (auto dest: static_schema_same simp: gen_header_def rbind_simps)

lemma gen_response_same: "gen_response G r st = Inr (x, st') \<Longrightarrow> same_document st st'"
  by (auto simp: gen_response_def rbind_simps Let_def split: option.splits prod.splits
      dest!: any_schema_of_same gen_headers_same intro: same_document_trans)

section \<open>Operations of the document\<close>

definition operation_at :: "(string \<times> path_item) list \<Rightarrow> string \<Rightarrow> string \<Rightarrow> operation option" where
  "operation_at paths p m = Option.bind (map_of paths p) (path_item_get m)"

lemma path_item_get_put:
  "m \<in> set path_item_methods \<Longrightarrow>
    path_item_get m' (path_item_put m op item) = (if m' = m then Some op else path_item_get m' item)"
  by (auto simp: path_item_get_def path_item_put_def path_item_methods_def)

lemma path_item_get_default [simp]: "path_item_get m path_item_default = None"
  by (simp add: path_item_get_def path_item_default_def)

lemma operation_at_update:
  "m \<in> set path_item_methods \<Longrightarrow>
    operation_at (AList.update p (path_item_put m op (path_entry p st)) (ds_paths st)) p' m'
      = (if p' = p \<and> m' = m then Some op else operation_at (ds_paths st) p' m')"
  by (auto simp: operation_at_def update_conv' path_item_get_put path_entry_def split: option.splits)

lemma update_new: "map_of xs k = None \<Longrightarrow> AList.update k v xs = xs @ [(k, v)]"
  by (induction xs) (auto split: if_splits)

definition errors_wf :: "'s doc_state \<Rightarrow> bool" where
  "errors_wf st \<longleftrightarrow>
    (\<forall>er \<in> snd ` set (ds_error_responses st). er_reference er = response_reference (er_name er))"

definition known_names :: "'s doc_state \<Rightarrow> string set" where
  "known_names st = er_name ` snd ` set (ds_error_responses st)"

lemma disambiguate_same: "disambiguate n st = (n', st') \<Longrightarrow>
    ds_paths st' = ds_paths st \<and> ds_error_responses st' = ds_error_responses st"
  by (auto simp: disambiguate_def Let_def)

lemma gen_error_response_keeps:
  assumes "gen_error_response G err st = Inr (r, st')" "errors_wf st"
  shows "errors_wf st' \<and> ds_paths st' = ds_paths st \<and> known_names st \<subseteq> known_names st'
    \<and> r \<in> response_reference ` known_names st'"
proof (cases "map_of (ds_error_responses st) (error_type_name err)")
  case (Some er)
  then have "er \<in> snd ` set (ds_error_responses st)" by (force dest: map_of_SomeD)
  then show ?thesis
    using assms Some by (auto simp: gen_error_response_def errors_wf_def known_names_def)
next
  case None
  obtain sch base st1 where 1: "error_schema_and_name G err st = Inr ((sch, base), st1)"
    using assms(1) None by (auto simp: gen_error_response_def rbind_simps)
  obtain name st2 where 2: "disambiguate base st1 = (name, st2)" by fastforce
  have same: "same_document st st1"
    using 1 by (auto simp: error_schema_and_name_def rbind_simps split: prod.splits dest: any_schema_of_same)
  then have "ds_error_responses st2 = ds_error_responses st" "ds_paths st2 = ds_paths st"
    using disambiguate_same[OF 2] by (auto simp: same_document_def)
  then show ?thesis
    using assms None 1 2
    by (auto simp: gen_error_response_def Let_def update_new errors_wf_def known_names_def) force+
qed

lemma gen_responses_keeps:
  assumes "gen_responses G e response st = Inr ((rs, d), st')" "errors_wf st"
  shows "errors_wf st' \<and> ds_paths st' = ds_paths st \<and> known_names st \<subseteq> known_names st'
    \<and> (\<forall>code r. (code, Reference r) \<in> set rs \<longrightarrow> Reference r \<in> response_reference ` known_names st')"
  using assms
  by (auto simp: gen_responses_def rbind_simps split: option.splits dest: gen_error_response_keeps)

text \<open>An operation that describes an endpoint.\<close>

definition describes :: "operation \<Rightarrow> ('h, 'g, 'v) api_endpoint \<Rightarrow> bool" where
  "describes op e \<longleftrightarrow>
    opn_operation_id op = Some (operation_id e) \<and> opn_summary op = summary e
    \<and> opn_description op = description e \<and> opn_tags op = tags e \<and> opn_deprecated op = deprecated e
    \<and> opn_extensions op = operation_extensions (extension_mode e)"

definition references_known :: "'s doc_state \<Rightarrow> operation \<Rightarrow> bool" where
  "references_known st op \<longleftrightarrow>
    (\<forall>code r. (code, Reference r) \<in> set (opn_responses op) \<longrightarrow> Reference r \<in> response_reference ` known_names st)"

lemma gen_endpoint_step:
  assumes "gen_endpoint G (p, m, e) st = Inr st'" "errors_wf st"
  shows "errors_wf st' \<and> known_names st \<subseteq> known_names st' \<and>
    (if visible e
     then m \<in> set path_item_methods \<and> (\<exists>op. describes op e \<and> references_known st' op
       \<and> (\<forall>p' m'. operation_at (ds_paths st') p' m' =
            (if p' = p \<and> m' = m then Some op else operation_at (ds_paths st) p' m')))
     else st' = st)"
proof (cases "visible e")
  case False
  then show ?thesis using assms by (auto simp: gen_endpoint_def)
next
  case True
  then have m: "m \<in> set path_item_methods" using assms(1) by (auto simp: gen_endpoint_def split: if_splits)
  obtain params st1 body st2 response st3 rs d st4 where
    steps: "gen_parameters (parameters e) st = Inr (params, st1)"
      "gen_request_body G (parameters e) st1 = Inr (body, st2)"
      "gen_response G (ep_response e) st2 = Inr (response, st3)"
      "gen_responses G e response st3 = Inr ((rs, d), st4)"
    and st': "st' = st4\<lparr> ds_paths := AList.update p
        (path_item_put m (operation_of e params body rs d) (path_entry p st4)) (ds_paths st4) \<rparr>"
    using assms(1) True m by (auto simp: gen_endpoint_def rbind_simps)
  have same: "same_document st st3"
    using steps(1-3) gen_parameters_same gen_request_body_same gen_response_same same_document_trans by metis
  then have "errors_wf st3" "known_names st3 = known_names st" "ds_paths st3 = ds_paths st"
    using assms(2) by (auto simp: errors_wf_def known_names_def same_document_def)
  note keeps = gen_responses_keeps[OF steps(4) this(1)] this
  let ?op = "operation_of e params body rs d"
  have "describes ?op e" by (simp add: describes_def operation_of_def)
  moreover have "references_known st' ?op" "errors_wf st'" "known_names st \<subseteq> known_names st'"
    using keeps by (auto simp: references_known_def operation_of_def st' known_names_def errors_wf_def)
  moreover have "operation_at (ds_paths st') p' m' =
      (if p' = p \<and> m' = m then Some ?op else operation_at (ds_paths st) p' m')" for p' m'
    using operation_at_update[OF m, of p ?op st4] keeps by (simp add: st')
  ultimately show ?thesis using True m by auto
qed

definition document_inv :: "(string \<times> string \<times> ('h, 'g, 'v) api_endpoint) set \<Rightarrow> 's doc_state \<Rightarrow> bool" where
  "document_inv es st \<longleftrightarrow> errors_wf st
    \<and> (\<forall>p m op. operation_at (ds_paths st) p m = Some op \<longrightarrow>
        references_known st op \<and> (\<exists>e. visible e \<and> (p, m, e) \<in> es \<and> describes op e))
    \<and> (\<forall>p m e. (p, m, e) \<in> es \<and> visible e \<longrightarrow> operation_at (ds_paths st) p m \<noteq> None)"

lemma references_known_mono:
  "references_known st op \<Longrightarrow> known_names st \<subseteq> known_names st' \<Longrightarrow> references_known st' op"
  unfolding references_known_def by blast

lemma gen_endpoint_inv:
  assumes "document_inv es st" "gen_endpoint G (p, m, e) st = Inr st'"
  shows "document_inv (insert (p, m, e) es) st'"
proof -
  have "errors_wf st" using assms(1) by (simp add: document_inv_def)
  note step = gen_endpoint_step[OF assms(2) this]
  show ?thesis
  proof (cases "visible e")
    case False
    then have "st' = st" using step by simp
    then show ?thesis using False assms(1) unfolding document_inv_def by blast
  next
    case True
    then obtain op where op: "describes op e" "references_known st' op"
        "\<And>p' m'. operation_at (ds_paths st') p' m' =
          (if p' = p \<and> m' = m then Some op else operation_at (ds_paths st) p' m')"
      using step by auto
    have "references_known st' op'" if "operation_at (ds_paths st) p' m' = Some op'" for p' m' op'
      using that assms(1) step references_known_mono unfolding document_inv_def by blast
    then show ?thesis
      using op True step assms(1) unfolding document_inv_def by (auto split: if_splits) blast+
  qed
qed

lemma gen_endpoints_inv:
  "for_each (gen_endpoint G) es st = Inr st' \<Longrightarrow> document_inv seen st \<Longrightarrow>
    document_inv (seen \<union> set es) st'"
proof (induction es arbitrary: st seen)
  case (Cons x es)
  obtain p m e where x: "x = (p, m, e)" by (cases x)
  from Cons.prems x obtain st1 where "gen_endpoint G (p, m, e) st = Inr st1"
      "for_each (gen_endpoint G) es st1 = Inr st'"
    by (auto simp: rbind_simps)
  then show ?case using Cons.IH gen_endpoint_inv Cons.prems(2) x by fastforce
qed simp

lemma document_inv_new: "document_inv {} (doc_state_new G)"
  by (simp add: document_inv_def doc_state_new_def errors_wf_def operation_at_def)

lemma gen_openapi_Inr:
  fixes G :: "('g, 's) schema_generator"
  assumes "gen_openapi G api i v = Inr doc"
  obtains st :: "'s doc_state" where "document_inv (set (endpoints_list (router api) (Some v))) st"
    "oa_paths doc = ds_paths st" "for_each add_response (ds_error_responses st) [] = Inr (oa_responses doc)"
proof -
  from assms obtain st where st: "for_each (gen_endpoint G) (endpoints_list (router api) (Some v)) (doc_state_new G) = Inr st"
      "oa_paths doc = ds_paths st" "for_each add_response (ds_error_responses st) [] = Inr (oa_responses doc)"
    by (auto simp: gen_openapi_def Let_def rbind_simps)
  from gen_endpoints_inv[OF st(1) document_inv_new] show ?thesis
    by (intro that[of st] st) simp
qed

lemma add_responses_names:
  "for_each add_response ers rs = Inr rs' \<Longrightarrow> (\<forall>n \<in> er_name ` snd ` set ers. map_of rs' n \<noteq> None)
    \<and> (\<forall>n. map_of rs n \<noteq> None \<longrightarrow> map_of rs' n \<noteq> None)"
proof (induction ers arbitrary: rs)
  case (Cons er ers)
  then obtain rs1 where 1: "add_response er rs = Inr rs1" "for_each add_response ers rs1 = Inr rs'"
    by (auto simp: rbind_simps)
  then have "map_of rs1 = (map_of rs)(er_name (snd er) \<mapsto> Item (er_response (snd er)))"
    by (auto simp: add_response_def Let_def update_conv' split: if_splits)
  then show ?case using Cons.IH[OF 1(2)] by (auto split: if_splits)
qed simp

section \<open>Properties\<close>

text \<open>A description whose endpoints differ in their methods and error types; a generator that
  takes a type for its own name.\<close>

definition name_generator :: "(string, nat) schema_generator" where
  "name_generator = \<lparr> sg_new = 0, sg_name = id, sg_schema = (\<lambda>g s. (SBool True, s + 1)),
     sg_definitions = (\<lambda>_. []) \<rparr>"

definition erring_endpoint :: "string \<Rightarrow> string \<Rightarrow> string \<Rightarrow> (unit, string, nat) api_endpoint" where
  "erring_endpoint m type_path ty =
    \<lparr> operation_id = m, handler = (), method = m, path = ''/a'', parameters = [],
      body_content_type = Json, request_body_max_bytes = None,
      ep_response = api_endpoint_response_default\<lparr> response_success := Some 200 \<rparr>,
      ep_error = Some \<lparr> error_schema = Gen ty, error_type_name = type_path \<rparr>, summary = None,
      description = None, tags = [], extension_mode = ModeNone, visible = True, deprecated = False,
      versions = All \<rparr>"

fun insert_all :: "(unit, string, nat) api_endpoint list \<Rightarrow> (unit, string, nat) api_endpoint http_router
    \<Rightarrow> (unit, string, nat) api_endpoint http_router outcome" where
  "insert_all [] r = Inr r"
| "insert_all (e # es) r = rbind (router_insert e r) (insert_all es)"

lemma insert_all_reachable: "insert_all es r = Inr r' \<Longrightarrow> router_reachable r \<Longrightarrow> router_reachable r'"
  by (induction es arbitrary: r) (auto simp: rbind_simps intro: router_reachable.ins)

definition erring_api :: "(unit, string, nat) api_endpoint list \<Rightarrow> (unit, string, nat) api_description" where
  "erring_api es = \<lparr> router = (case insert_all es router_new of Inr r \<Rightarrow> r | Inl _ \<Rightarrow> router_new),
     tag_conf = tag_config_default \<rparr>"

lemma erring_api_reachable: "router_reachable (router (erring_api es))"
  using insert_all_reachable[OF _ router_reachable.new]
  by (auto simp: erring_api_def router_reachable.new split: sum.splits)

definition empty_info :: info where
  "empty_info = \<lparr> nf_title = [], nf_version = [], nf_description = None, nf_terms_of_service = None,
     nf_contact = None, nf_license = None \<rparr>"

text \<open>The generation without its result.\<close>

definition gen_steps :: "('g, 's) schema_generator \<Rightarrow> ('h, 'g, 'v::linorder) api_description \<Rightarrow> 'v \<Rightarrow> unit outcome" where
  "gen_steps G api version =
    rbind (for_each (gen_endpoint G) (endpoints_list (router api) (Some version)) (doc_state_new G)) (\<lambda>st.
    rbind (component_schemas G st) (\<lambda>schemas.
    rbind (for_each add_response (ds_error_responses st) []) (\<lambda>responses. Inr ())))"

lemma gen_steps_Inl: "gen_steps G api v = Inl p \<Longrightarrow> gen_openapi G api i v = Inl p"
  by (auto simp: gen_steps_def gen_openapi_def Let_def rbind_simps)

lemma gen_steps_Inr: "gen_steps G api v = Inr () \<Longrightarrow> \<exists>doc. gen_openapi G api i v = Inr doc"
  by (auto simp: gen_steps_def gen_openapi_def Let_def rbind_simps)

text \<open>The second type that is called \<^verbatim>\<open>Error\<close> is renamed to \<^verbatim>\<open>Error2\<close> without a look at the names
  in use: with a third type of that name the generation panics.\<close>

lemma error_names_collide:
  "gen_openapi name_generator
     (erring_api [erring_endpoint ''GET'' ''a::Error'' ''Error'', erring_endpoint ''POST'' ''b::Error'' ''Error'',
        erring_endpoint ''PUT'' ''c::Error2'' ''Error2'']) i 1
   = Inl (Panic ''error response names must be unique'')"
proof (rule gen_steps_Inl)
  show "gen_steps name_generator
     (erring_api [erring_endpoint ''GET'' ''a::Error'' ''Error'', erring_endpoint ''POST'' ''b::Error'' ''Error'',
        erring_endpoint ''PUT'' ''c::Error2'' ''Error2'']) 1
   = Inl (Panic ''error response names must be unique'')"
    by code_simp
qed

text \<open>The operations of a document are those of its endpoints.\<close>

lemma document_operations:
  fixes G :: "('g, 's) schema_generator"
  assumes "router_reachable (router api)" "gen_openapi G api i v = Inr doc"
  shows "case operation_at (oa_paths doc) p m of
      None \<Rightarrow> \<not> (\<exists>t. \<exists>e \<in> set (route_table (router api) (t, m)).
        visible e \<and> matches (versions e) (Some v) \<and> p = render_path (map shown_segment t))
    | Some op \<Rightarrow> \<exists>t. \<exists>e \<in> set (route_table (router api) (t, m)).
        visible e \<and> matches (versions e) (Some v) \<and> p = render_path (map shown_segment t)
        \<and> describes op e"
proof -
  obtain st :: "'s doc_state" where st: "document_inv (set (endpoints_list (router api) (Some v))) st"
      "oa_paths doc = ds_paths st"
    by (rule gen_openapi_Inr[OF assms(2)])
  have some: "\<exists>e. visible e \<and> (p, m, e) \<in> set (endpoints_list (router api) (Some v)) \<and> describes op e"
    if "operation_at (ds_paths st) p m = Some op" for op
    using st(1) that unfolding document_inv_def by blast
  have none: "\<not> visible e" if "operation_at (ds_paths st) p m = None"
    "(p, m, e) \<in> set (endpoints_list (router api) (Some v))" for e
    using st(1) that unfolding document_inv_def by blast
  show ?thesis
  proof (cases "operation_at (ds_paths st) p m")
    case None
    then show ?thesis using none st(2) by (auto simp: endpoints_list_iff[OF assms(1)])
  next
    case (Some op)
    then show ?thesis using some[OF Some] st(2) by (auto simp: endpoints_list_iff[OF assms(1)])
  qed
qed


definition one_error_api :: "(unit, string, nat) api_description" where
  "one_error_api = erring_api [erring_endpoint ''GET'' ''a::Error'' ''Error'']"

lemma one_error_document: "\<exists>doc. gen_openapi name_generator one_error_api empty_info 1 = Inr doc"
proof (rule gen_steps_Inr)
  show "gen_steps name_generator one_error_api 1 = Inr ()" by code_simp
qed


text \<open>C25. Every reference among the responses of the document's operations is one to a response
  that the components of the document define.\<close>

theorem response_references_resolve:
  fixes G :: "('g, 's) schema_generator"
  assumes "gen_openapi G api i v = Inr doc" "operation_at (oa_paths doc) p m = Some op"
    and "(code, Reference r) \<in> set (opn_responses op)"
  shows "\<exists>n resp. r = ''#/components/responses/'' @ n \<and> map_of (oa_responses doc) n = Some (Item resp)"
proof -
  obtain st :: "'s doc_state" where st: "document_inv (set (endpoints_list (router api) (Some v))) st"
      "oa_paths doc = ds_paths st" "for_each add_response (ds_error_responses st) [] = Inr (oa_responses doc)"
    by (rule gen_openapi_Inr[OF assms(1)])
  then have "references_known st op"
    using assms(2) unfolding document_inv_def by simp
  then obtain n where n: "n \<in> known_names st" "Reference r = response_reference n"
    using assms(3) by (auto simp: references_known_def)
  then obtain x where "map_of (oa_responses doc) n = Some x"
    using add_responses_names[OF st(3)] by (auto simp: known_names_def)
  moreover have "\<forall>x \<in> snd ` set (oa_responses doc). \<exists>resp. x = Item resp"
    by (rule for_each_invariant[OF st(3)])
      (auto simp: add_response_def Let_def update_new split: if_splits)
  ultimately show ?thesis using n(2) by (fastforce simp: response_reference_def dest: map_of_SomeD)
qed

theorem response_references_resolve_witness:
  "\<exists>doc resp. gen_openapi name_generator one_error_api empty_info 1 = Inr doc
    \<and> map_of (oa_responses doc) ''Error'' = Some (Item resp)"
proof -
  obtain doc where doc: "gen_openapi name_generator one_error_api empty_info 1 = Inr doc"
    using one_error_document by blast
  have steps: "case for_each (gen_endpoint name_generator) (endpoints_list (router one_error_api) (Some 1))
        (doc_state_new name_generator) of
      Inl _ \<Rightarrow> False
    | Inr st \<Rightarrow> (case operation_at (ds_paths st) ''/a'' ''GET'' of
        None \<Rightarrow> False
      | Some op \<Rightarrow> list_ex (\<lambda>(code, r). case r of Reference s \<Rightarrow> s = ''#/components/responses/Error'' | Item _ \<Rightarrow> False)
          (opn_responses op))"
    by code_simp
  obtain st where st: "for_each (gen_endpoint name_generator) (endpoints_list (router one_error_api) (Some 1))
      (doc_state_new name_generator) = Inr st" "oa_paths doc = ds_paths st"
    using doc by (auto simp: gen_openapi_def Let_def rbind_simps)
  obtain op code where op: "operation_at (oa_paths doc) ''/a'' ''GET'' = Some op"
      "(code, Reference ''#/components/responses/Error'') \<in> set (opn_responses op)"
    using steps st by (auto simp: list_ex_iff split: option.splits reference_or.splits)
  from response_references_resolve[OF doc op] doc show ?thesis by auto
qed

end
