(* ===== verification/Websocket.thy ===== *)
theory Websocket
  imports Handler
begin

text \<open>
  The upgrade of a request to a websocket (\<^verbatim>\<open>websocket.rs\<close>): the checks of the extractor, the
  accept key, what \<^verbatim>\<open>handle\<close> answers, and the task that it spawns.  The hash and the base64
  encoding are parameters, as is the connection that hyper hands over.
\<close>

section \<open>Lists of tokens\<close>

text \<open>\<^verbatim>\<open>str::split\<close> with a predicate.\<close>

fun split_by :: "(char \<Rightarrow> bool) \<Rightarrow> string \<Rightarrow> string list" where
  "split_by p [] = [[]]"
| "split_by p (x # xs) =
    (if p x then [] # split_by p xs
     else (case split_by p xs of [] \<Rightarrow> [[x]] | y # ys \<Rightarrow> (x # y) # ys))"

definition token_separator :: "char \<Rightarrow> bool" where
  "token_separator c = (c = CHR '','' \<or> c = CHR '' '')"

text \<open>Whether the first line of a header, if it is text, lists a token; \<open>to_str\<close> reads a header
  value as text.\<close>

definition header_has_token :: "(string \<Rightarrow> string option) \<Rightarrow> header_map \<Rightarrow> string \<Rightarrow> string \<Rightarrow> bool" where
  "header_has_token to_str hs name token =
    (case Option.bind (hm_get hs name) to_str of
       None \<Rightarrow> False
     | Some hv \<Rightarrow> list_ex (\<lambda>vs. eq_ignore_ascii_case vs token) (split_by token_separator hv))"

section \<open>The extractor\<close>

record ws_lib =
  sha1 :: "string \<Rightarrow> string"
  base64_standard :: "string \<Rightarrow> string"

definition WS_GUID :: string where
  "WS_GUID = ''258EAFA5-E914-47DA-95CA-C5AB0DC85B11''"

definition derive_accept_key :: "ws_lib \<Rightarrow> string \<Rightarrow> string" where
  "derive_accept_key L request_key = base64_standard L (sha1 L (request_key @ WS_GUID))"

record websocket_upgrade_inner =
  wu_accept_key :: string
  wu_route :: string

type_synonym websocket_upgrade = "websocket_upgrade_inner option"

definition websocket_from_request ::
  "(string \<Rightarrow> string option) \<Rightarrow> ws_lib \<Rightarrow> string \<Rightarrow> header_map \<Rightarrow> (http_error, websocket_upgrade) result" where
  "websocket_from_request to_str L uri hs =
    (if \<not> header_has_token to_str hs ''connection'' ''upgrade'' then
       Inl (for_bad_request None ''expected connection upgrade'')
     else if \<not> header_has_token to_str hs ''upgrade'' ''websocket'' then
       Inl (for_bad_request None ''unexpected protocol for upgrade'')
     else if hm_get hs ''sec-websocket-version'' \<noteq> Some ''13'' then
       Inl (for_bad_request None ''missing or invalid websocket version'')
     else
       rbind (ok_or (for_bad_request None ''missing websocket key'')
                (map_option (derive_accept_key L) (hm_get hs ''sec-websocket-key''))) (\<lambda>accept_key.
       Inr (Some \<lparr> wu_accept_key = accept_key, wu_route = uri \<rparr>)))"

definition websocket_metadata :: "api_endpoint_body_content_type \<Rightarrow> 'g extractor_metadata" where
  "websocket_metadata content_type = \<lparr> em_extension_mode = Websocket, em_parameters = [] \<rparr>"

section \<open>Handling the connection\<close>

text \<open>What \<^verbatim>\<open>handle\<close> returns, and the handler that it spawns a task for.\<close>

definition websocket_handle ::
  "websocket_upgrade \<Rightarrow> 'f \<Rightarrow> (http_error, string) result \<times> 'f option" where
  "websocket_handle w ws_handler =
    (case w of
       None \<Rightarrow> (Inl (for_internal_error ''Tried to handle websocket twice''), None)
     | Some inner \<Rightarrow> (Inr (wu_accept_key inner), Some ws_handler))"

text \<open>The task: its result and what it logs; \<open>upgraded\<close> is the outcome of the upgrade.\<close>

definition websocket_task ::
  "(string, 'u) result \<Rightarrow> ('u \<Rightarrow> (string, unit) result) \<Rightarrow> (string, unit) result \<times> string list" where
  "websocket_task upgraded ws_handler =
    (case upgraded of
       Inr upgrade \<Rightarrow>
         (case ws_handler upgrade of
            Inr x \<Rightarrow> (Inr x, [])
          | Inl e \<Rightarrow> (Inl e, [''Error returned from handler: '' @ e]))
     | Inl e \<Rightarrow> (Inl e, [''Error upgrading connection: '' @ e]))"

text \<open>What is logged when an upgrade is dropped; \<open>handle\<close> takes the inside, so that nothing is.\<close>

definition websocket_drop :: "websocket_upgrade \<Rightarrow> string list" where
  "websocket_drop w =
    (case w of
       None \<Rightarrow> []
     | Some inner \<Rightarrow> [''Didn'' @ [CHR 0x27] @ ''t handle websocket in route '' @ wu_route inner])"

section \<open>The response\<close>

definition switching_to_result ::
  "http_lib \<Rightarrow> error_printer \<Rightarrow> 'b \<Rightarrow> string \<Rightarrow> 'b handler_result" where
  "switching_to_result H shw empty_body accept_key =
    finish_builder shw 101 empty_body
      (rbind (builder_header H ''connection'' ''Upgrade'' hm_empty) (\<lambda>h.
       rbind (builder_header H ''upgrade'' ''websocket'' h) (\<lambda>h.
       builder_header H ''sec-websocket-accept'' accept_key h)))"

definition switching_response_metadata :: "'g api_endpoint_response" where
  "switching_response_metadata =
    \<lparr> response_schema = Some (Static (SBool False) []), response_headers = [],
      response_success = Some 101,
      response_description = Some ''Negotiating protocol upgrade from HTTP/1.1 to WebSocket'' \<rparr>"

text \<open>An endpoint that hands its connection to \<open>ws_handler\<close>, as the macro \<^verbatim>\<open>channel\<close> generates it:
  the extractor, \<open>handle\<close>, and the response.\<close>

definition channel_request ::
  "http_lib \<Rightarrow> error_printer \<Rightarrow> (string \<Rightarrow> string option) \<Rightarrow> ws_lib \<Rightarrow> 'b \<Rightarrow> string \<Rightarrow> 'f \<Rightarrow> header_map
    \<Rightarrow> ('b handler_error, 'b response) result outcome" where
  "channel_request H shw to_str L empty_body uri ws_handler hs =
    route_handle_request (http_response_error (\<lambda>_. [])) (\<lambda>_. websocket_from_request to_str L uri)
      (\<lambda>_ w. Inr (fst (websocket_handle w ws_handler))) (switching_to_result H shw empty_body) () hs"

section \<open>Lemmas\<close>

lemma split_by_not_Nil [simp]: "split_by p s \<noteq> []"
  by (induction s) (auto split: list.splits)

text \<open>A token is a part of the text between separators, without one.\<close>

definition between_separators :: "(char \<Rightarrow> bool) \<Rightarrow> string \<Rightarrow> string \<Rightarrow> bool" where
  "between_separators p s t \<longleftrightarrow>
    (\<exists>a b. s = a @ t @ b \<and> (a = [] \<or> p (last a)) \<and> (b = [] \<or> p (hd b)) \<and> (\<forall>c \<in> set t. \<not> p c))"

lemma hd_split_by: "hd (split_by p s) = takeWhile (\<lambda>c. \<not> p c) s"
  by (induction s) (auto split: list.splits)

lemma takeWhile_token:
  "t = takeWhile (\<lambda>c. \<not> p c) s \<longleftrightarrow>
    (\<exists>b. s = t @ b \<and> (b = [] \<or> p (hd b)) \<and> (\<forall>c \<in> set t. \<not> p c))"
proof
  assume t: "t = takeWhile (\<lambda>c. \<not> p c) s"
  then show "\<exists>b. s = t @ b \<and> (b = [] \<or> p (hd b)) \<and> (\<forall>c \<in> set t. \<not> p c)"
    using hd_dropWhile[of "\<lambda>c. \<not> p c" s]
    by (intro exI[of _ "dropWhile (\<lambda>c. \<not> p c) s"]) (auto dest: set_takeWhileD)
next
  assume "\<exists>b. s = t @ b \<and> (b = [] \<or> p (hd b)) \<and> (\<forall>c \<in> set t. \<not> p c)"
  then obtain b where b: "s = t @ b" "b = [] \<or> p (hd b)" "\<forall>c \<in> set t. \<not> p c" by blast
  then have "takeWhile (\<lambda>c. \<not> p c) b = []" by (cases b) auto
  then show "t = takeWhile (\<lambda>c. \<not> p c) s"
    using b by simp
qed

lemma split_by_parts: "set (split_by p s) = insert (takeWhile (\<lambda>c. \<not> p c) s) (set (tl (split_by p s)))"
  using hd_split_by[of p s] by (cases "split_by p s") auto

lemma tl_split_by: "t \<in> set (tl (split_by p s)) \<longleftrightarrow>
    (\<exists>a b x. s = a @ x # t @ b \<and> p x \<and> (b = [] \<or> p (hd b)) \<and> (\<forall>c \<in> set t. \<not> p c))"
proof (induction s)
  case (Cons y s)
  have "t \<in> set (tl (split_by p (y # s))) \<longleftrightarrow>
      t \<in> set (tl (split_by p s)) \<or> (p y \<and> t = takeWhile (\<lambda>c. \<not> p c) s)"
    using split_by_parts[of p s] by (auto split: list.splits)
  also have "\<dots> \<longleftrightarrow> (\<exists>a b x. y # s = a @ x # t @ b \<and> p x \<and> (b = [] \<or> p (hd b)) \<and> (\<forall>c \<in> set t. \<not> p c))"
    unfolding Cons.IH takeWhile_token by (auto simp: Cons_eq_append_conv) blast+
  finally show ?case .
qed simp

lemma split_by_iff: "t \<in> set (split_by p s) \<longleftrightarrow> between_separators p s t"
proof
  assume "t \<in> set (split_by p s)"
  then consider "t = takeWhile (\<lambda>c. \<not> p c) s" | "t \<in> set (tl (split_by p s))"
    using split_by_parts[of p s] by blast
  then show "between_separators p s t"
  proof cases
    case 1
    then show ?thesis unfolding takeWhile_token between_separators_def by fastforce
  next
    case 2
    then obtain a b x where "s = (a @ [x]) @ t @ b" "p x" "b = [] \<or> p (hd b)" "\<forall>c \<in> set t. \<not> p c"
      unfolding tl_split_by by auto
    then show ?thesis unfolding between_separators_def by (metis last_snoc)
  qed
next
  assume "between_separators p s t"
  then obtain a b where s: "s = a @ t @ b" "a = [] \<or> p (last a)" "b = [] \<or> p (hd b)" "\<forall>c \<in> set t. \<not> p c"
    unfolding between_separators_def by blast
  show "t \<in> set (split_by p s)"
  proof (cases a rule: rev_cases)
    case Nil
    then have "t = takeWhile (\<lambda>c. \<not> p c) s" unfolding takeWhile_token using s by blast
    then show ?thesis using split_by_parts[of p s] by blast
  next
    case (snoc a' x)
    then have "s = a' @ x # t @ b" "p x" using s by auto
    then have "t \<in> set (tl (split_by p s))" unfolding tl_split_by using s(3,4) by blast
    then show ?thesis using split_by_parts[of p s] by blast
  qed
qed

text \<open>What the first line of a header promises: some part between commas and spaces is the token,
  up to the case of its letters.\<close>

definition lists_token :: "(string \<Rightarrow> string option) \<Rightarrow> header_map \<Rightarrow> string \<Rightarrow> string \<Rightarrow> bool" where
  "lists_token to_str hs name token \<longleftrightarrow>
    (\<exists>v hv t. hm_get hs name = Some v \<and> to_str v = Some hv
      \<and> between_separators token_separator hv t \<and> eq_ignore_ascii_case t token)"

lemma header_has_token_iff: "header_has_token to_str hs name token \<longleftrightarrow> lists_token to_str hs name token"
  unfolding header_has_token_def lists_token_def
  by (auto simp: list_ex_iff split_by_iff bind_eq_Some_conv split: option.splits)

text \<open>RFC 6455, section 4.2.1: the request of a client that opens a handshake.\<close>

definition websocket_requested :: "(string \<Rightarrow> string option) \<Rightarrow> header_map \<Rightarrow> bool" where
  "websocket_requested to_str hs \<longleftrightarrow>
    lists_token to_str hs ''connection'' ''upgrade'' \<and> lists_token to_str hs ''upgrade'' ''websocket''
    \<and> hm_get hs ''sec-websocket-version'' = Some ''13'' \<and> hm_get hs ''sec-websocket-key'' \<noteq> None"

definition switching_headers :: "string \<Rightarrow> header_map" where
  "switching_headers accept_key =
    hm_empty(''connection'' := [''Upgrade''], ''upgrade'' := [''websocket''],
             ''sec-websocket-accept'' := [accept_key])"

lemma websocket_from_request_Inr_iff:
  "websocket_from_request to_str L uri hs = Inr w \<longleftrightarrow>
    websocket_requested to_str hs
    \<and> w = Some \<lparr> wu_accept_key = derive_accept_key L (the (hm_get hs ''sec-websocket-key'')), wu_route = uri \<rparr>"
  by (auto simp: websocket_from_request_def websocket_requested_def header_has_token_iff ok_or_def
      split: option.splits)

lemma bad_request_400: "as_status (status_code (for_bad_request code msg)) = 400"
proof -
  have "as_status (error_of_client (client_error_constant ''BAD_REQUEST'')) = 400" by code_simp
  then show ?thesis by (simp add: for_bad_request_def for_client_error_def)
qed

lemma websocket_from_request_Inl:
  "websocket_from_request to_str L uri hs = Inl e \<Longrightarrow> as_status (status_code e) = 400"
  by (auto simp: websocket_from_request_def ok_or_def bad_request_400 split: if_splits option.splits)

lemma switching_to_result_ok:
  assumes "list_all (header_value_ok H) [''Upgrade'', ''websocket'', k]" "\<And>h. \<not> headers_full H h"
  shows "switching_to_result H shw b k =
    Inr \<lparr> resp_status = 101, resp_headers = switching_headers k, resp_body = b \<rparr>"
  using assms
  by (simp add: switching_to_result_def builder_header_def finish_builder_def switching_headers_def
      hm_append_def hm_empty_def)
text \<open>The handler for which the request leaves a spawned task.\<close>

definition channel_spawned ::
  "(string \<Rightarrow> string option) \<Rightarrow> ws_lib \<Rightarrow> string \<Rightarrow> 'f \<Rightarrow> header_map \<Rightarrow> 'f option" where
  "channel_spawned to_str L uri ws_handler hs =
    (case websocket_from_request to_str L uri hs of
       Inl _ \<Rightarrow> None
     | Inr w \<Rightarrow> snd (websocket_handle w ws_handler))"

section \<open>Properties\<close>

text \<open>C26. A request that opens a websocket handshake of version 13 with a key -- a connection
  header that lists \<^verbatim>\<open>upgrade\<close>, an upgrade header that lists \<^verbatim>\<open>websocket\<close>, each as a part between
  commas and spaces -- is answered with status 101 and the accept key of RFC 6455, and the task
  for its handler is spawned; every other request is refused with status 400 and spawns none.\<close>

theorem websocket_handshake:
  assumes "\<And>k. list_all (header_value_ok H) [''Upgrade'', ''websocket'', derive_accept_key L k]"
    and "\<And>h. \<not> headers_full H h"
  shows "if websocket_requested to_str hs
    then channel_request H shw to_str L b uri f hs =
           Inr (Inr \<lparr> resp_status = 101,
                      resp_headers = switching_headers
                        (base64_standard L (sha1 L (the (hm_get hs ''sec-websocket-key'') @ WS_GUID))),
                      resp_body = b \<rparr>)
      \<and> channel_spawned to_str L uri f hs = Some f
    else (\<exists>err. channel_request H shw to_str L b uri f hs = Inr (Inl (DropshotErr err))
            \<and> as_status (status_code err) = 400)
      \<and> channel_spawned to_str L uri f hs = None"
proof (cases "websocket_from_request to_str L uri hs")
  case (Inl err)
  have "\<not> websocket_requested to_str hs"
    using Inl websocket_from_request_Inr_iff[of to_str L uri hs] by auto
  moreover have "channel_request H shw to_str L b uri f hs = Inr (Inl (DropshotErr err))"
    using Inl
    by (simp add: channel_request_def route_handle_request_def http_response_error_def
        handler_error_from_def http_error_to_response_def)
  ultimately show ?thesis using websocket_from_request_Inl[OF Inl] Inl by (simp add: channel_spawned_def)
next
  case (Inr w)
  then have "websocket_requested to_str hs"
      "w = Some \<lparr> wu_accept_key = derive_accept_key L (the (hm_get hs ''sec-websocket-key'')), wu_route = uri \<rparr>"
    by (simp_all add: websocket_from_request_Inr_iff)
  then show ?thesis
    using Inr switching_to_result_ok[OF assms]
    by (simp add: channel_request_def route_handle_request_def func_handle_request_def websocket_handle_def
        derive_accept_key_def channel_spawned_def)
qed

definition plain_ws_lib :: ws_lib where
  "plain_ws_lib = \<lparr> sha1 = take 4, base64_standard = map (\<lambda>c. if c = CHR 0x0A then CHR ''.'' else c) \<rparr>"

definition handshake_headers :: header_map where
  "handshake_headers = hm_empty(''connection'' := [''keep-alive, Upgrade''], ''upgrade'' := [''WebSocket''],
     ''sec-websocket-version'' := [''13''], ''sec-websocket-key'' := [''dGhlIHNhbXBsZQ''])"

theorem websocket_handshake_witness:
  "channel_request lower_case_lib (\<lambda>_. ''bad'') Some plain_ws_lib ''none'' ''/ws'' True handshake_headers =
     Inr (Inr \<lparr> resp_status = 101, resp_headers = switching_headers ''dGhl'', resp_body = ''none'' \<rparr>)
   \<and> channel_spawned Some plain_ws_lib ''/ws'' True handshake_headers = Some True
   \<and> channel_spawned Some plain_ws_lib ''/ws'' True (handshake_headers(''upgrade'' := [''h2c''])) = None"
proof -
  have lib: "\<And>k. list_all (header_value_ok lower_case_lib) [''Upgrade'', ''websocket'', derive_accept_key plain_ws_lib k]"
      "\<And>h. \<not> headers_full lower_case_lib h"
    by (auto simp: lower_case_lib_def derive_accept_key_def plain_ws_lib_def split: if_splits)
  have yes: "websocket_requested Some handshake_headers"
    unfolding websocket_requested_def header_has_token_iff[symmetric] by code_simp
  have no_upgrade: "\<not> websocket_requested Some (handshake_headers(''upgrade'' := [''h2c'']))"
    unfolding websocket_requested_def header_has_token_iff[symmetric] by code_simp
  have key: "base64_standard plain_ws_lib (sha1 plain_ws_lib
      (the (hm_get handshake_headers ''sec-websocket-key'') @ WS_GUID)) = ''dGhl''"
    by code_simp
  show ?thesis
    using websocket_handshake[OF lib, of Some handshake_headers "\<lambda>_. ''bad''" "''none''" "''/ws''" True]
      websocket_handshake[OF lib, of Some "handshake_headers(''upgrade'' := [''h2c''])" "\<lambda>_. ''bad''"
        "''none''" "''/ws''" True]
    by (simp add: yes no_upgrade key)
qed

end
