(* ===== verification/Struct_Members.thy ===== *)
theory Struct_Members
  imports Schema_Meaning Openapi_Document Websocket
begin

text \<open>
  The members of a structure from its schema (\<^verbatim>\<open>schema2struct\<close> of \<^verbatim>\<open>schema_util.rs\<close>), and what
  rests on them: the parameters of the query, path and header extractors
  (\<^verbatim>\<open>extractor/metadata.rs\<close>), the headers of a response, and the marks that tell an endpoint
  is paginated or a websocket.  The generator of \<^verbatim>\<open>schemars\<close> is a parameter: the schema it
  makes for a type, and how it follows a reference.  References may be circular, so the
  recursion is a partial function and not returning is the value \<^const>\<open>None\<close>.
\<close>

section \<open>The members of a structure\<close>

record struct_member =
  sm_name :: string
  sm_description :: "string option"
  sm_schema :: schema
  sm_required :: bool

datatype schema2struct_error =
    InvalidEnum schema
  | InvalidType schema
  | InvalidSubschema subschema_validation

type_synonym members_result = "(schema2struct_error, struct_member list) result outcome option"

text \<open>A single instance type beside subschemas and object validation.\<close>

fun struct_shape :: "schema \<Rightarrow> (subschema_validation option \<times> object_validation option) option" where
  "struct_shape (SObject (SchemaObject md (Some (Single t)) None None None sub None None None
      ov None ext)) = Some (sub, ov)"
| "struct_shape _ = None"

fun enum_shape :: "schema \<Rightarrow> bool" where
  "enum_shape (SObject (SchemaObject md ty None (Some vs) None None None None None None None ext)) = True"
| "enum_shape _ = False"

fun any_of_only :: "subschema_validation \<Rightarrow> schema list option" where
  "any_of_only (SubschemaValidation None (Some ss) None None None None None) = Some ss"
| "any_of_only _ = None"

fun lone_all_of :: "subschema_validation \<Rightarrow> schema option" where
  "lone_all_of (SubschemaValidation (Some [s]) None None None None None None) = Some s"
| "lone_all_of _ = None"

definition object_members :: "bool \<Rightarrow> object_validation option \<Rightarrow> struct_member list" where
  "object_members required ov =
    (case ov of
       None \<Rightarrow> []
     | Some obj \<Rightarrow>
         map (\<lambda>(name, s). let (desc, s') = schema_extract_description s in
               \<lparr> sm_name = name, sm_description = desc, sm_schema = s',
                 sm_required = required \<and> name \<in> set (ov_required obj) \<rparr>)
           (ov_properties obj))"

text \<open>The loop over subschemas; \<^verbatim>\<open>?\<close> and a panic leave it.\<close>

fun extend_members ::
  "(schema \<Rightarrow> members_result) \<Rightarrow> schema list \<Rightarrow> struct_member list \<Rightarrow> members_result" where
  "extend_members f [] results = Some (Inr (Inr results))"
| "extend_members f (s # ss) results =
    Option.bind (f s) (\<lambda>r.
      (case r of
         Inr (Inr ms) \<Rightarrow> extend_members f ss (results @ ms)
       | _ \<Rightarrow> Some r))"

definition subschema_members ::
  "(schema \<Rightarrow> bool \<Rightarrow> members_result) \<Rightarrow> bool \<Rightarrow> subschema_validation \<Rightarrow> struct_member list
    \<Rightarrow> members_result" where
  "subschema_members f required sub results =
    (case any_of_only sub of
       Some ss \<Rightarrow> extend_members (\<lambda>s. f s False) ss results
     | None \<Rightarrow>
         (case lone_all_of sub of
            Some s \<Rightarrow> extend_members (\<lambda>s. f s required) [s] results
          | None \<Rightarrow> Some (Inr (Inl (InvalidSubschema sub)))))"

text \<open>Monotonicity, for the recursion through these.\<close>

lemma mono_const_option [partial_function_mono]: "mono_option (\<lambda>f. c)"
  by (simp add: monotone_on_def fun_ord_def flat_ord_def)

lemma extend_members_mono [partial_function_mono]:
  assumes "\<And>s. mono_option (\<lambda>f. B f s)"
  shows "mono_option (\<lambda>f. extend_members (\<lambda>s. B f s) ss results)"
proof (induction ss arbitrary: results)
  case (Cons s ss)
  have "mono_option (\<lambda>f. case r of Inr (Inr ms) \<Rightarrow> extend_members (\<lambda>s. B f s) ss (results @ ms)
      | _ \<Rightarrow> Some r)" for r
  proof (cases r)
    case (Inr v)
    then show ?thesis using Cons by (cases v) (simp_all add: mono_const_option)
  qed (simp add: mono_const_option)
  then show ?case
    using assms by (auto intro!: bind_mono)
qed (simp add: mono_const_option)

lemma subschema_members_mono [partial_function_mono]:
  assumes "\<And>s b. mono_option (\<lambda>f. B f s b)"
  shows "mono_option (\<lambda>f. subschema_members (\<lambda>s b. B f s b) required sub results)"
  using extend_members_mono[of "\<lambda>f s. B f s False"] extend_members_mono[of "\<lambda>f s. B f s required"] assms
  by (cases "any_of_only sub"; cases "lone_all_of sub")
     (simp_all add: subschema_members_def mono_const_option del: extend_members.simps)

partial_function (option) schema2struct_impl ::
  "(schema \<Rightarrow> schema option) \<Rightarrow> schema \<Rightarrow> bool \<Rightarrow> members_result" where
  "schema2struct_impl dereference s required =
    (if pure_reference s \<noteq> None then
       (case dereference s of
          None \<Rightarrow> Some (Inl (Panic ''invalid reference''))
        | Some s' \<Rightarrow> schema2struct_impl dereference s' required)
     else
       (case struct_shape s of
          Some (None, ov) \<Rightarrow> Some (Inr (Inr (object_members required ov)))
        | Some (Some sub, ov) \<Rightarrow>
            subschema_members (\<lambda>s b. schema2struct_impl dereference s b) required sub
              (object_members required ov)
        | None \<Rightarrow>
            if enum_shape s \<or> pure_subschemas s \<noteq> None then Some (Inr (Inl (InvalidEnum s)))
            else Some (Inr (Inl (InvalidType s)))))"

declare schema2struct_impl.simps [code]

text \<open>The error texts; the JSON printers are parameters.\<close>

fun schema2struct_error_display ::
  "(schema \<Rightarrow> string) \<Rightarrow> (subschema_validation \<Rightarrow> string) \<Rightarrow> schema2struct_error \<Rightarrow> string" where
  "schema2struct_error_display show_schema show_sub (InvalidEnum s) =
    ''invalid type: '' @ show_schema s @ [CHR 0x0A]
      @ ''(hint: this appears to be an enum, which needs to be wrapped in a struct)''"
| "schema2struct_error_display show_schema show_sub (InvalidType s) = ''invalid type: '' @ show_schema s"
| "schema2struct_error_display show_schema show_sub (InvalidSubschema sub) =
    ''invalid subschema: '' @ show_sub sub"

text \<open>A type that derives \<^verbatim>\<open>JsonSchema\<close>: its name, and the schema and definitions that the
  generator makes for it (the argument tells whether options are nullable).\<close>

record schema_type =
  st_name :: string
  st_root_schema :: "bool \<Rightarrow> schema \<times> dependencies"

record schema_lib =
  sl_dereference :: "dependencies \<Rightarrow> schema \<Rightarrow> schema option"
  sl_show_schema :: "schema \<Rightarrow> string"
  sl_show_sub :: "subschema_validation \<Rightarrow> string"

definition schema2struct ::
  "schema_lib \<Rightarrow> string \<Rightarrow> string \<Rightarrow> schema \<Rightarrow> dependencies \<Rightarrow> bool \<Rightarrow> struct_member list outcome option" where
  "schema2struct L name kind s defs required =
    Option.bind (schema2struct_impl (sl_dereference L defs) s required) (\<lambda>r. Some (rbind r (\<lambda>v.
      case v of
        Inr results \<Rightarrow> Inr results
      | Inl e \<Rightarrow> Inl (Panic (''while generating schema for '' @ name @ '' ('' @ kind @ ''): ''
          @ schema2struct_error_display (sl_show_schema L) (sl_show_sub L) e)))))"

section \<open>Marks in the extensions of a schema\<close>

definition PAGINATION_PARAM_SENTINEL :: string where
  "PAGINATION_PARAM_SENTINEL = ''x-dropshot-pagination-param''"

definition WEBSOCKET_PARAM_SENTINEL :: string where
  "WEBSOCKET_PARAM_SENTINEL = ''x-dropshot-websocket-param''"

text \<open>The schema of \<^verbatim>\<open>PaginationParams\<close>: that of the derived \<^verbatim>\<open>SchemaPaginationParams\<close>, marked
  with the required members of the scan parameters.\<close>

definition sentinel_value :: "object_validation \<Rightarrow> json" where
  "sentinel_value obj = JObject [(''required'', JArray (map JString (ov_required obj)))]"

definition pagination_json_schema :: "schema_object \<Rightarrow> schema_object \<Rightarrow> schema outcome" where
  "pagination_json_schema params_schema first_page_schema =
    (case so_object first_page_schema of
       None \<Rightarrow> Inl (Panic ''ScanParams must be an object'')
     | Some obj \<Rightarrow>
         (case params_schema of
            SchemaObject md ty fmt ev cv sub nv sv av ov r ext \<Rightarrow>
              Inr (SObject (SchemaObject md ty fmt ev cv sub nv sv av ov r
                (AList.update PAGINATION_PARAM_SENTINEL (sentinel_value obj) ext)))))"

definition websocket_json_schema :: schema where
  "websocket_json_schema =
    SObject (SchemaObject None None None None None None None None None None None
      (AList.update WEBSOCKET_PARAM_SENTINEL (JBool True) []))"

section \<open>Metadata of extractors\<close>

definition extension_mode_of :: "schema \<Rightarrow> extension_mode outcome" where
  "extension_mode_of s =
    (case schema_extensions s of
       None \<Rightarrow> Inr ModeNone
     | Some extensions \<Rightarrow>
         (case (map_of extensions PAGINATION_PARAM_SENTINEL, map_of extensions WEBSOCKET_PARAM_SENTINEL) of
            (None, None) \<Rightarrow> Inr ModeNone
          | (None, Some _) \<Rightarrow> Inr Websocket
          | (Some first_page_schema, None) \<Rightarrow> Inr (Paginated first_page_schema)
          | (Some _, Some _) \<Rightarrow>
              Inl (Panic ''Cannot use websocket and pagination in the same endpoint!'')))"

text \<open>Headers cannot be null, so the generator is told not to make options nullable.\<close>

definition get_metadata ::
  "schema_lib \<Rightarrow> schema_type \<Rightarrow> api_endpoint_parameter_location \<Rightarrow> 'g extractor_metadata outcome option" where
  "get_metadata L T loc =
    (let (s, definitions) = st_root_schema T (loc \<noteq> LocHeader) in
     case extension_mode_of s of
       Inl p \<Rightarrow> Some (Inl p)
     | Inr mode \<Rightarrow>
         Option.bind (schema2struct L (st_name T) ''parameters'' s definitions True) (\<lambda>r.
           Some (rbind r (\<lambda>ms. Inr \<lparr> em_extension_mode = mode,
             em_parameters = map (\<lambda>m. new_named loc (sm_name m) (sm_description m) (sm_required m)
               (Static (sm_schema m) definitions) []) ms \<rparr>))))"

text \<open>The headers in the metadata of a response with headers.\<close>

definition headers_response_metadata ::
  "schema_lib \<Rightarrow> schema_type \<Rightarrow> 'g api_endpoint_response \<Rightarrow> 'g api_endpoint_response outcome option" where
  "headers_response_metadata L T base =
    (let (s, definitions) = st_root_schema T True in
     Option.bind (schema2struct L (st_name T) ''headers'' s definitions True) (\<lambda>r.
       Some (rbind r (\<lambda>ms. Inr (base\<lparr> response_headers :=
         map (\<lambda>m. \<lparr> header_name = sm_name m, header_description = sm_description m,
           header_schema = Static (sm_schema m) definitions, header_required = sm_required m \<rparr>) ms \<rparr>)))))"

section \<open>Steps of the recursion\<close>

lemma schema2struct_reference:
  "pure_reference s = Some r \<Longrightarrow> dereference s = Some s' \<Longrightarrow>
    schema2struct_impl dereference s req = schema2struct_impl dereference s' req"
  by (subst schema2struct_impl.simps) simp

lemma struct_shape_reference: "struct_shape s = Some x \<Longrightarrow> pure_reference s = None"
  by (cases s rule: struct_shape.cases) auto

lemma schema2struct_object:
  "struct_shape s = Some (None, ov) \<Longrightarrow>
    schema2struct_impl dereference s req = Some (Inr (Inr (object_members req ov)))"
  by (subst schema2struct_impl.simps) (simp add: struct_shape_reference)

lemma schema2struct_subschemas:
  "struct_shape s = Some (Some sub, ov) \<Longrightarrow>
    schema2struct_impl dereference s req =
      subschema_members (schema2struct_impl dereference) req sub (object_members req ov)"
  by (subst schema2struct_impl.simps) (simp add: struct_shape_reference)

lemma extend_members_Inr_iff:
  "extend_members f ss acc = Some (Inr (Inr ms)) \<longleftrightarrow>
    (\<exists>mss. list_all2 (\<lambda>s m. f s = Some (Inr (Inr m))) ss mss \<and> ms = acc @ concat mss)"
proof (induction ss arbitrary: acc)
  case (Cons s ss)
  show ?case
  proof (cases "\<exists>m. f s = Some (Inr (Inr m))")
    case True
    then show ?thesis using Cons by (auto simp: list_all2_Cons1) fastforce+
  next
    case False
    then show ?thesis
      by (auto simp: bind_eq_Some_conv list_all2_Cons1 split: sum.splits)
  qed
qed auto

section \<open>What the members mean\<close>

text \<open>The generator follows a reference to the schema that the reference means.\<close>

definition follows :: "meaning \<Rightarrow> (schema \<Rightarrow> schema option) \<Rightarrow> bool" where
  "follows E dereference \<longleftrightarrow>
    (\<forall>s r s'. pure_reference s = Some r \<longrightarrow> dereference s = Some s' \<longrightarrow> ref_holds E r = json_valid E s')"

definition members_accept :: "meaning \<Rightarrow> struct_member list \<Rightarrow> (string \<times> json) list \<Rightarrow> bool" where
  "members_accept E ms kvs \<longleftrightarrow>
    (\<forall>m \<in> set ms. (sm_required m \<longrightarrow> sm_name m \<in> fst ` set kvs)
      \<and> (\<forall>w. (sm_name m, w) \<in> set kvs \<longrightarrow> json_valid E (sm_schema m) w))"

lemma members_accept_append [simp]:
  "members_accept E (ms @ ms') kvs \<longleftrightarrow> members_accept E ms kvs \<and> members_accept E ms' kvs"
  by (auto simp: members_accept_def)

fun schema_nullable :: "schema \<Rightarrow> bool" where
  "schema_nullable (SBool b) = False"
| "schema_nullable (SObject obj) = (map_of (so_extensions obj) ''nullable'' = Some (JBool True))"

text \<open>Taking the description away drops the extensions beside a lone \<^verbatim>\<open>allOf\<close> member.\<close>

definition keeps_nullable :: "schema \<Rightarrow> bool" where
  "keeps_nullable s =
    (case pure_subschemas s of
       Some sub \<Rightarrow> lone_all_of sub = None \<or> \<not> schema_nullable s
     | None \<Rightarrow> True)"

lemma lone_all_of_iff: "lone_all_of sub = Some s \<longleftrightarrow> sub = SubschemaValidation (Some [s]) None None None None None None"
  by (cases sub rule: lone_all_of.cases) auto

lemma any_of_only_iff: "any_of_only sub = Some ss \<longleftrightarrow> sub = SubschemaValidation None (Some ss) None None None None None"
  by (cases sub rule: any_of_only.cases) auto

lemma extract_description_valid:
  assumes "keeps_nullable s"
  shows "json_valid E (snd (schema_extract_description s)) = json_valid E s"
proof (cases "\<exists>sub s'. pure_subschemas s = Some sub \<and> lone_all_of sub = Some s'")
  case True
  then obtain md s' ext where s: "s = SObject (SchemaObject md None None None None
      (Some (SubschemaValidation (Some [s']) None None None None None None)) None None None None None ext)"
    by (auto simp: pure_subschemas_iff lone_all_of_iff)
  then show ?thesis
    using assms by (auto simp: keeps_nullable_def schema_extract_description_def json_valid.simps intro!: ext)
next
  case False
  then have "snd (schema_extract_description s) = (case s of SBool _ \<Rightarrow> s | SObject obj \<Rightarrow> SObject (clear_metadata obj))"
    by (fastforce simp: schema_extract_description_def lone_all_of_iff
        split: schema.splits option.splits subschema_validation.splits list.splits)
  moreover have "object_valid E (clear_metadata obj) = object_valid E obj" for obj
    by (cases obj) (simp add: json_valid.simps)
  ultimately show ?thesis by (cases s) (simp_all add: json_valid.simps)
qed

fun plain_object :: "object_validation \<Rightarrow> bool" where
  "plain_object (ObjectValidation None None req props [] None None) =
    (distinct (map fst props) \<and> set req \<subseteq> fst ` set props \<and> list_all (\<lambda>(_, s). keeps_nullable s) props)"
| "plain_object _ = False"

lemma object_members_accept:
  assumes "plain_object obj"
  shows "properties_valid E obj (JObject kvs) \<longleftrightarrow> members_accept E (object_members True (Some obj)) kvs"
proof -
  obtain req props where obj: "obj = ObjectValidation None None req props [] None None"
    using assms by (cases obj rule: plain_object.cases) auto
  have props: "distinct (map fst props)" "set req \<subseteq> fst ` set props"
      "\<And>k s. (k, s) \<in> set props \<Longrightarrow> keeps_nullable s"
    using assms by (auto simp: obj list_all_iff)
  have members: "members_accept E (object_members True (Some obj)) kvs \<longleftrightarrow>
      (\<forall>(k, s) \<in> set props. (k \<in> set req \<longrightarrow> k \<in> fst ` set kvs) \<and> (\<forall>w. (k, w) \<in> set kvs \<longrightarrow> json_valid E s w))"
    unfolding members_accept_def object_members_def obj Let_def case_prod_beta option.case object_validation.sel
    by (auto simp: extract_description_valid props(3) intro!: ball_cong)
  have "set req \<subseteq> fst ` set kvs \<longleftrightarrow> (\<forall>(k, s) \<in> set props. k \<in> set req \<longrightarrow> k \<in> fst ` set kvs)"
    using props(2) by fastforce
  moreover have mapped:
    "map_of (map (map_prod id (json_valid E)) props) k = map_option (json_valid E) (map_of props k)" for k
    by (induction props) auto
  have in_props: "(k, s) \<in> set props \<longleftrightarrow> map_of props k = Some s" for k s
    using map_of_eq_Some_iff[OF props(1)] by blast
  have "opt_holds (\<lambda>p. p w) (map_of (map (map_prod id (json_valid E)) props) k)
      \<longleftrightarrow> (\<forall>s. (k, s) \<in> set props \<longrightarrow> json_valid E s w)" for k w
    unfolding in_props mapped by (cases "map_of props k") simp_all
  then have "(\<forall>(k, w) \<in> set kvs. opt_holds (\<lambda>p. p w) (map_of (map (map_prod id (json_valid E)) props) k))
      \<longleftrightarrow> (\<forall>(k, s) \<in> set props. \<forall>w. (k, w) \<in> set kvs \<longrightarrow> json_valid E s w)"
    by fastforce
  ultimately show ?thesis
    unfolding members by (auto simp: obj object_ok_def size_ok_def json_valid.simps)
qed

text \<open>Structures that their members describe completely: references, an object with properties
  alone, and such a structure in a lone \<^verbatim>\<open>allOf\<close> (a documented or flattened one).\<close>

fun object_typed :: "schema \<Rightarrow> bool" where
  "object_typed (SObject obj) = (so_instance_type obj = Some (Single TObject))"
| "object_typed (SBool b) = False"

inductive flat_struct :: "(schema \<Rightarrow> schema option) \<Rightarrow> schema \<Rightarrow> bool" for dereference where
  reference: "pure_reference s = Some r \<Longrightarrow> \<not> schema_nullable s \<Longrightarrow> dereference s = Some s' \<Longrightarrow>
    flat_struct dereference s' \<Longrightarrow> flat_struct dereference s"
| object: "struct_shape s = Some (None, ov) \<Longrightarrow> object_typed s \<Longrightarrow> \<not> schema_nullable s \<Longrightarrow>
    pred_option plain_object ov \<Longrightarrow> flat_struct dereference s"
| wrapped: "struct_shape s = Some (Some sub, ov) \<Longrightarrow> object_typed s \<Longrightarrow> \<not> schema_nullable s \<Longrightarrow>
    pred_option plain_object ov \<Longrightarrow> lone_all_of sub = Some s' \<Longrightarrow> flat_struct dereference s' \<Longrightarrow>
    flat_struct dereference s"

lemma struct_shape_iff:
  "struct_shape s = Some (sub, ov) \<longleftrightarrow> (\<exists>md t ext. s = SObject (SchemaObject md (Some (Single t)) None None
      None sub None None None ov None ext))"
  by (cases s rule: struct_shape.cases) auto

lemma struct_shape_valid:
  assumes "struct_shape s = Some (sub, ov)" "object_typed s" "\<not> schema_nullable s"
  shows "json_valid E s v \<longleftrightarrow> (\<exists>kvs. v = JObject kvs) \<and> opt_holds (\<lambda>x. subschemas_valid E x v) sub
    \<and> opt_holds (\<lambda>x. properties_valid E x v) ov"
  using assms by (auto simp: struct_shape_iff json_valid.simps type_accepts_def)

lemma option_members_accept:
  "pred_option plain_object ov \<Longrightarrow>
    opt_holds (\<lambda>x. properties_valid E x (JObject kvs)) ov \<longleftrightarrow> members_accept E (object_members True ov) kvs"
  using object_members_accept
  by (cases ov) (auto simp: members_accept_def object_members_def)

lemma flat_struct_members:
  assumes "flat_struct dereference s" "follows E dereference"
  shows "\<exists>ms. schema2struct_impl dereference s True = Some (Inr (Inr ms))
    \<and> (\<forall>v. json_valid E s v \<longleftrightarrow> (\<exists>kvs. v = JObject kvs \<and> members_accept E ms kvs))"
  using assms(1)
proof induction
  case (reference s r s')
  have "ref_holds E r = json_valid E s'"
    using reference(1,3) assms(2) unfolding follows_def by blast
  then have "json_valid E s v \<longleftrightarrow> json_valid E s' v" for v
    using reference(1,2) by (auto simp: pure_reference_iff json_valid.simps)
  then show ?case using reference(5) schema2struct_reference[of s r dereference s'] reference(1,3) by auto
next
  case (object s ov)
  have "json_valid E s v \<longleftrightarrow> (\<exists>kvs. v = JObject kvs \<and> members_accept E (object_members True ov) kvs)" for v
    using struct_shape_valid[OF object(1,2,3)] option_members_accept[OF object(4)] by auto
  then show ?case using schema2struct_object[OF object(1)] by auto
next
  case (wrapped s sub ov s')
  obtain ms where ms: "schema2struct_impl dereference s' True = Some (Inr (Inr ms))"
      "\<And>v. json_valid E s' v \<longleftrightarrow> (\<exists>kvs. v = JObject kvs \<and> members_accept E ms kvs)"
    using wrapped(7) by blast
  have "subschema_members (schema2struct_impl dereference) True sub (object_members True ov)
      = Some (Inr (Inr (object_members True ov @ ms)))"
    using wrapped(5) ms(1) by (auto simp: subschema_members_def lone_all_of_iff)
  moreover have "subschemas_valid E sub v = json_valid E s' v" for v
    using wrapped(5) by (simp add: lone_all_of_iff json_valid.simps)
  then have "json_valid E s v \<longleftrightarrow> (\<exists>kvs. v = JObject kvs \<and> members_accept E (object_members True ov @ ms) kvs)" for v
    using struct_shape_valid[OF wrapped(1,2,3)] option_members_accept[OF wrapped(4)] ms(2) by auto
  ultimately show ?case using schema2struct_subschemas[OF wrapped(1)] by auto
qed

text \<open>Members that are required, for every structure that is accepted.\<close>

lemma object_members_required:
  "m \<in> set (object_members req ov) \<Longrightarrow> sm_required m \<Longrightarrow>
    req \<and> (\<exists>obj. ov = Some obj \<and> sm_name m \<in> set (ov_required obj))"
  by (auto simp: object_members_def Let_def case_prod_beta split: option.splits)

lemma properties_required:
  "properties_valid E obj (JObject kvs) \<Longrightarrow> set (ov_required obj) \<subseteq> fst ` set kvs"
  by (cases obj) (simp add: json_valid.simps object_ok_def)

lemma json_valid_shape:
  assumes "struct_shape s = Some (sub, ov)" "json_valid E s (JObject kvs)"
  shows "opt_holds (\<lambda>x. subschemas_valid E x (JObject kvs)) sub"
    and "opt_holds (\<lambda>x. properties_valid E x (JObject kvs)) ov"
  using assms by (auto simp: struct_shape_iff json_valid.simps)

lemma extend_members_required:
  assumes "extend_members f ss acc = Some (Inr (Inr ms))" "m \<in> set ms"
  obtains "m \<in> set acc" | s ms' where "s \<in> set ss" "f s = Some (Inr (Inr ms'))" "m \<in> set ms'"
proof -
  obtain mss where mss: "list_all2 (\<lambda>s m. f s = Some (Inr (Inr m))) ss mss" "ms = acc @ concat mss"
    using assms(1) by (auto simp: extend_members_Inr_iff)
  then consider "m \<in> set acc" | ms' where "ms' \<in> set mss" "m \<in> set ms'"
    using assms(2) by auto
  then show thesis
  proof cases
    case 2
    then obtain i where i: "i < length mss" "mss ! i = ms'" by (auto simp: in_set_conv_nth)
    then have "ss ! i \<in> set ss" "f (ss ! i) = Some (Inr (Inr ms'))"
      using mss(1) by (auto simp: list_all2_conv_all_nth)
    then show thesis using that(2) 2(2) by blast
  qed (rule that(1))
qed

lemma schema2struct_required:
  assumes "schema2struct_impl dereference s req = Some y" "y = Inr (Inr ms)" "m \<in> set ms" "sm_required m"
  shows "req \<and> (\<forall>E kvs. follows E dereference \<longrightarrow> json_valid E s (JObject kvs) \<longrightarrow> sm_name m \<in> fst ` set kvs)"
proof -
  have "\<forall>ms. y = Inr (Inr ms) \<longrightarrow> (\<forall>m \<in> set ms. sm_required m \<longrightarrow>
      req \<and> (\<forall>E kvs. follows E dereference \<longrightarrow> json_valid E s (JObject kvs) \<longrightarrow> sm_name m \<in> fst ` set kvs))"
  proof (rule schema2struct_impl.raw_induct[OF _ assms(1)], goal_cases)
    case (1 rec dereference s req y)
    show ?case
    proof (intro allI impI ballI)
      fix ms m assume y: "y = Inr (Inr ms)" and m: "m \<in> set ms" "sm_required m"
      consider (ref) r s' where "pure_reference s = Some r" "dereference s = Some s'" "rec dereference s' req = Some y"
        | (object) ov where "struct_shape s = Some (None, ov)" "ms = object_members req ov"
        | (subs) sub ov where "struct_shape s = Some (Some sub, ov)"
            "subschema_members (rec dereference) req sub (object_members req ov) = Some y"
        using 1(2) y by (auto split: if_splits option.splits)
      then show "req \<and> (\<forall>E kvs. follows E dereference \<longrightarrow> json_valid E s (JObject kvs) \<longrightarrow> sm_name m \<in> fst ` set kvs)"
      proof cases
        case ref
        have "json_valid E s (JObject kvs) \<Longrightarrow> follows E dereference \<Longrightarrow> json_valid E s' (JObject kvs)" for E kvs
        proof -
          assume valid: "json_valid E s (JObject kvs)" "follows E dereference"
          have "ref_holds E r = json_valid E s'" using valid(2) ref(1,2) unfolding follows_def by blast
          then show ?thesis using valid(1) ref(1) by (auto simp: pure_reference_iff json_valid.simps)
        qed
        then show ?thesis using 1(1)[OF ref(3)] y m by blast
      next
        case object
        then show ?thesis
          using object_members_required[of m req ov] m json_valid_shape(2) properties_required by fastforce
      next
        case subs
        consider (own) "m \<in> set (object_members req ov)"
          | (any_of) ss s' ms' where "any_of_only sub = Some ss" "rec dereference s' False = Some (Inr (Inr ms'))" "m \<in> set ms'"
          | (all_of) s' ms' where "lone_all_of sub = Some s'" "rec dereference s' req = Some (Inr (Inr ms'))" "m \<in> set ms'"
          using subs(2) y m(1)
          by (auto simp: subschema_members_def simp del: extend_members.simps split: option.splits
              elim!: extend_members_required)
        then show ?thesis
        proof cases
          case own
          then show ?thesis
            using object_members_required[of m req ov] m json_valid_shape(2)[OF subs(1)] properties_required by fastforce
        next
          case any_of
          then show ?thesis using 1(1)[OF any_of(2)] m by blast
        next
          case all_of
          have "json_valid E s (JObject kvs) \<Longrightarrow> json_valid E s' (JObject kvs)" for E kvs
            using json_valid_shape(1)[OF subs(1)] all_of(1) by (fastforce simp: lone_all_of_iff json_valid.simps)
          then show ?thesis using 1(1)[OF all_of(2)] all_of(3) m by blast
        qed
      qed
    qed
  qed
  then show ?thesis using assms(2-4) by blast
qed

text \<open>The schemas that are looked at directly below a schema.\<close>

inductive struct_child :: "(schema \<Rightarrow> schema option) \<Rightarrow> schema \<Rightarrow> schema \<Rightarrow> bool" for dereference where
  "pure_reference s = Some r \<Longrightarrow> dereference s = Some s' \<Longrightarrow> struct_child dereference s' s"
| "struct_shape s = Some (Some sub, ov) \<Longrightarrow> any_of_only sub = Some ss \<Longrightarrow> s' \<in> set ss \<Longrightarrow>
    struct_child dereference s' s"
| "struct_shape s = Some (Some sub, ov) \<Longrightarrow> lone_all_of sub = Some s' \<Longrightarrow> struct_child dereference s' s"

lemma extend_members_returns:
  "(\<And>s. s \<in> set ss \<Longrightarrow> \<exists>r. f s = Some r) \<Longrightarrow> \<exists>r. extend_members f ss acc = Some r"
proof (induction ss arbitrary: acc)
  case (Cons s ss)
  obtain r where r: "f s = Some r" using Cons(2) by auto
  have rest: "\<exists>r. extend_members f ss acc' = Some r" for acc' using Cons by simp
  show ?case
  proof (cases r)
    case (Inr v)
    then show ?thesis using r rest by (cases v) simp_all
  qed (simp add: r)
qed simp

lemma schema2struct_impl_returns:
  assumes "Wellfounded.accp (struct_child dereference) s"
  shows "\<exists>r. schema2struct_impl dereference s req = Some r"
  using assms
proof (induction arbitrary: req rule: accp_induct_rule)
  case (1 s)
  have "\<exists>r. subschema_members (schema2struct_impl dereference) req sub acc = Some r"
    if "struct_shape s = Some (Some sub, ov)" for sub ov acc
  proof -
    have "\<exists>r. extend_members (\<lambda>s. schema2struct_impl dereference s b) ss acc = Some r"
      if "\<And>s'. s' \<in> set ss \<Longrightarrow> struct_child dereference s' s" for ss b
      using 1(2) that by (intro extend_members_returns) blast
    note loop = this
    show ?thesis
    proof (cases "any_of_only sub")
      case None
      show ?thesis
      proof (cases "lone_all_of sub")
        case (Some s')
        then show ?thesis
          using None loop[of "[s']" req] struct_child.intros(3)[OF that Some]
          by (simp add: subschema_members_def del: extend_members.simps)
      qed (simp add: subschema_members_def None)
    next
      case (Some ss)
      then show ?thesis
        using loop[of ss False] struct_child.intros(2)[OF that Some] by (simp add: subschema_members_def)
    qed
  qed
  moreover have "\<exists>r. schema2struct_impl dereference s' req = Some r" if "pure_reference s = Some r" "dereference s = Some s'" for r s'
    using 1(2) struct_child.intros(1)[of s r dereference s'] that by blast
  ultimately show ?case
    by (subst schema2struct_impl.simps) (auto split: option.splits)
qed

section \<open>Properties\<close>

text \<open>C21. A structure made of references, objects with properties alone and lone \<^verbatim>\<open>allOf\<close> wrappers
  is turned into members that describe it completely: a JSON value is accepted by its schema
  exactly when it is an object with all required members whose members are accepted by theirs.\<close>

theorem struct_members_faithful:
  assumes "flat_struct dereference s" "follows E dereference"
  shows "\<exists>ms. schema2struct_impl dereference s True = Some (Inr (Inr ms))
    \<and> (\<forall>v. json_valid E s v = (\<exists>kvs. v = JObject kvs \<and> members_accept E ms kvs))"
  by (rule flat_struct_members[OF assms])

text \<open>A structure \<^verbatim>\<open>Page\<close> with a limit that flattens the structure \<^verbatim>\<open>Base\<close>.\<close>

definition base_struct :: schema where
  "base_struct = SObject (SchemaObject None (Some (Single TObject)) None None None None None None None
     (Some (ObjectValidation None None [''id''] [(''id'', string_schema), (''note'', SBool True)] [] None None)) None [])"

definition page_struct :: schema where
  "page_struct = SObject (SchemaObject None (Some (Single TObject)) None None None
     (Some (SubschemaValidation (Some [ref_schema_to ''Base'']) None None None None None None)) None None None
     (Some (ObjectValidation None None [''limit''] [(''limit'', string_schema)] [] None None)) None [])"

definition find_base :: "schema \<Rightarrow> schema option" where
  "find_base s = (if pure_reference s = Some (SCHEMA_PREFIX @ ''Base'') then Some base_struct else None)"

definition base_meaning :: meaning where
  "base_meaning = \<lparr> ref_holds = (\<lambda>r. json_valid sample_meaning base_struct),
     pattern_matches = (=), str_length = length \<rparr>"

lemma follows_base: "follows base_meaning find_base"
proof -
  have "json_valid base_meaning base_struct v = json_valid sample_meaning base_struct v" for v
    by (cases v) (simp_all add: base_struct_def string_schema_def json_valid.simps object_ok_def)
  then have "ref_holds base_meaning r = json_valid base_meaning base_struct" for r
    by (auto simp: base_meaning_def)
  then show ?thesis by (simp add: follows_def find_base_def)
qed

lemma flat_page: "flat_struct find_base page_struct"
proof (rule flat_struct.wrapped)
  show "flat_struct find_base (ref_schema_to ''Base'')"
  proof (rule flat_struct.reference)
    show "flat_struct find_base base_struct"
      by (rule flat_struct.object) (simp add: base_struct_def, simp_all add: base_struct_def keeps_nullable_def string_schema_def)
  qed (simp_all add: find_base_def ref_schema_to_def)
qed (simp add: page_struct_def, simp_all add: page_struct_def keeps_nullable_def string_schema_def)

theorem struct_members_faithful_witness:
  "\<exists>ms. schema2struct_impl find_base page_struct True = Some (Inr (Inr ms))
    \<and> (\<forall>v. json_valid base_meaning page_struct v = (\<exists>kvs. v = JObject kvs \<and> members_accept base_meaning ms kvs))"
  by (rule struct_members_faithful[OF flat_page follows_base])

text \<open>Whatever structure is accepted, flattened enumerations included: a member is called
  required only if every object of the type has it, and nothing is required below an
  \<^verbatim>\<open>anyOf\<close> or in a structure that is itself optional.\<close>

theorem required_members_present:
  assumes "schema2struct_impl dereference s req = Some (Inr (Inr ms))" "m \<in> set ms" "sm_required m"
    and "follows E dereference" "json_valid E s (JObject kvs)"
  shows "req \<and> sm_name m \<in> fst ` set kvs"
  using schema2struct_required[OF assms(1) refl assms(2,3)] assms(4,5) by blast

lemma page_members:
  "schema2struct_impl find_base page_struct True = Some (Inr (Inr
     [\<lparr> sm_name = ''limit'', sm_description = None, sm_schema = string_schema, sm_required = True \<rparr>,
      \<lparr> sm_name = ''id'', sm_description = None, sm_schema = string_schema, sm_required = True \<rparr>,
      \<lparr> sm_name = ''note'', sm_description = None, sm_schema = SBool True, sm_required = False \<rparr>]))"
  by code_simp

theorem required_members_present_witness:
  "True \<and> sm_name \<lparr> sm_name = ''id'', sm_description = None, sm_schema = string_schema, sm_required = True \<rparr>
     \<in> fst ` set [(''limit'', JString ''5''), (''id'', JString ''x'')]"
  by (rule required_members_present[OF page_members _ _ follows_base])
     (simp_all add: page_struct_def base_struct_def base_meaning_def string_schema_def ref_schema_to_def
       json_valid.simps type_accepts_def object_ok_def size_ok_def)


definition find_base_lib :: schema_lib where
  "find_base_lib = \<lparr> sl_dereference = (\<lambda>_. find_base), sl_show_schema = (\<lambda>_. ''schema''),
     sl_show_sub = (\<lambda>_. ''subschemas'') \<rparr>"


section \<open>From the type to the document\<close>

text \<open>Query parameters of a paginated endpoint: the mark that \<^verbatim>\<open>PaginationParams\<close> leaves in its
  schema becomes the pagination extension of the operation, which lists what the first page
  requires.\<close>

lemma pagination_mark:
  assumes "pagination_json_schema params first_page = Inr s"
    and "map_of (so_extensions params) WEBSOCKET_PARAM_SENTINEL = None"
  shows "\<exists>obj. so_object first_page = Some obj \<and> extension_mode_of s = Inr (Paginated (sentinel_value obj))"
  using assms
  by (cases params)
     (auto simp: pagination_json_schema_def extension_mode_of_def update_conv'
        PAGINATION_PARAM_SENTINEL_def WEBSOCKET_PARAM_SENTINEL_def split: option.splits)

lemma paginated_operation:
  fixes md :: "'g extractor_metadata"
  assumes "get_metadata L T LocQuery = Some (Inr md)" "st_root_schema T True = (s, definitions)"
    and "pagination_json_schema params first_page = Inr s"
    and "map_of (so_extensions params) WEBSOCKET_PARAM_SENTINEL = None"
    and "extension_mode e = em_extension_mode md"
  shows "\<exists>obj. so_object first_page = Some obj
    \<and> opn_extensions (operation_of e ps body rs d) =
        [(PAGINATION_EXTENSION, JObject [(''required'', JArray (map JString (ov_required obj)))])]"
proof -
  obtain obj where obj: "so_object first_page = Some obj" "extension_mode_of s = Inr (Paginated (sentinel_value obj))"
    using pagination_mark[OF assms(3,4)] by blast
  then have "em_extension_mode md = Paginated (sentinel_value obj)"
    using assms(1,2) by (auto simp: get_metadata_def bind_eq_Some_conv rbind_simps)
  then show ?thesis
    using obj(1) assms(5) by (simp add: operation_of_def sentinel_value_def)
qed

text \<open>The documented parameters are the members, in their order.\<close>

lemma schema2struct_Inr_iff:
  "schema2struct L name kind s definitions req = Some (Inr ms) \<longleftrightarrow>
    schema2struct_impl (sl_dereference L definitions) s req = Some (Inr (Inr ms))"
proof (cases "schema2struct_impl (sl_dereference L definitions) s req")
  case (Some r)
  then show ?thesis by (cases r; cases "projr r") (auto simp: schema2struct_def)
qed (simp add: schema2struct_def)

lemma get_metadata_parameters:
  fixes md :: "'g extractor_metadata"
  assumes "get_metadata L T loc = Some (Inr md)" "st_root_schema T (loc \<noteq> LocHeader) = (s, definitions)"
  shows "\<exists>ms. schema2struct_impl (sl_dereference L definitions) s True = Some (Inr (Inr ms))
    \<and> map (\<lambda>p. (param_metadata p, param_required p)) (em_parameters md)
      = map (\<lambda>m. (located loc (sm_name m), sm_required m)) ms"
  using assms
  by (auto simp: get_metadata_def new_named_def bind_eq_Some_conv rbind_simps o_def schema2struct_Inr_iff
      split: sum.splits)

end
