(* ===== verification/Macro_Doc.thy ===== *)
theory Macro_Doc
  imports Prelude
begin

text \<open>
  The documentation of an endpoint (\<^verbatim>\<open>dropshot_endpoint/src/doc.rs\<close>): from the doc comments of
  a handler to the summary and the description of its operation.  The attributes are those
  that \<^verbatim>\<open>syn\<close> has parsed; a doc comment is an attribute with a string.
\<close>

section \<open>White space\<close>

text \<open>The UTF-8 forms of the characters of Unicode's \<^verbatim>\<open>White_Space\<close>, which \<^verbatim>\<open>str::trim\<close> removes.\<close>

definition white_space :: "string list" where
  "white_space =
    map (\<lambda>c. [c]) [CHR '' '', CHR 0x09, CHR 0x0A, CHR 0x0B, CHR 0x0C, CHR 0x0D]
    @ map (\<lambda>c. [CHR 0xC2, c]) [CHR 0x85, CHR 0xA0]
    @ [[CHR 0xE1, CHR 0x9A, CHR 0x80], [CHR 0xE2, CHR 0x81, CHR 0x9F], [CHR 0xE3, CHR 0x80, CHR 0x80]]
    @ map (\<lambda>c. [CHR 0xE2, CHR 0x80, c])
        [CHR 0x80, CHR 0x81, CHR 0x82, CHR 0x83, CHR 0x84, CHR 0x85, CHR 0x86, CHR 0x87, CHR 0x88,
         CHR 0x89, CHR 0x8A, CHR 0xA8, CHR 0xA9, CHR 0xAF]"

lemma white_space_not_Nil: "w \<in> set white_space \<Longrightarrow> w \<noteq> []"
  by (auto simp: white_space_def)

lemma find_white_space: "find p white_space = Some w \<Longrightarrow> w \<noteq> [] \<and> p w"
  using white_space_not_Nil by (metis find_Some_iff nth_mem)

function trim_start :: "string \<Rightarrow> string" where
  "trim_start s =
    (case find (\<lambda>w. starts_with w s) white_space of
       None \<Rightarrow> s
     | Some w \<Rightarrow> trim_start (drop (length w) s))"
  by auto
termination
  by (relation "measure length") (auto simp: starts_with_iff dest!: find_white_space)

function trim_end :: "string \<Rightarrow> string" where
  "trim_end s =
    (case find (\<lambda>w. ends_with w s) white_space of
       None \<Rightarrow> s
     | Some w \<Rightarrow> trim_end (take (length s - length w) s))"
  by auto
termination
  by (relation "measure length") (auto simp: ends_with_iff dest!: find_white_space)

declare trim_start.simps [simp del] trim_end.simps [simp del]

section \<open>Doc comments\<close>

datatype doc_attribute = DocAttr string | OtherAttr

definition strip_prefix :: "string \<Rightarrow> string \<Rightarrow> string option" where
  "strip_prefix p s = (if starts_with p s then Some (drop (length p) s) else None)"

definition unwrap_or :: "'a option \<Rightarrow> 'a \<Rightarrow> 'a" where
  "unwrap_or x d = (case x of Some a \<Rightarrow> a | None \<Rightarrow> d)"

text \<open>The first line of a comment keeps its asterisks; those that open further lines go.\<close>

definition normalize_line :: "nat \<Rightarrow> string \<Rightarrow> string" where
  "normalize_line idx s =
    (let trimmed = trim_end (trim_start s) in
     if idx = 0 then trimmed
     else unwrap_or (strip_prefix ''* '' trimmed) (unwrap_or (strip_prefix ''*'' trimmed) trimmed))"

definition normalize_comment_string :: "string \<Rightarrow> string list" where
  "normalize_comment_string s =
    map (\<lambda>(idx, l). normalize_line idx l) (enumerate 0 (split_on (CHR 0x0A) s))"

record extracted_doc =
  doc_summary :: "string option"
  doc_description :: "string option"

fun doc_lines :: "doc_attribute \<Rightarrow> string list" where
  "doc_lines (DocAttr s) = normalize_comment_string s"
| "doc_lines OtherAttr = []"

text \<open>The two loops that skip blank lines: the next line that is not blank, and those after it.\<close>

fun next_line :: "string list \<Rightarrow> string option \<times> string list" where
  "next_line [] = (None, [])"
| "next_line (l # ls) = (if l = [] then next_line ls else (Some l, ls))"

definition join_comment :: "string \<Rightarrow> string \<Rightarrow> string" where
  "join_comment acc comment =
    (if ends_with ''-'' acc \<or> ends_with [CHR 0x0A] acc \<or> acc = [] then acc @ comment
     else if comment = [] then acc @ [CHR 0x0A, CHR 0x0A]
     else acc @ '' '' @ comment)"

definition doc_from_attrs :: "doc_attribute list \<Rightarrow> extracted_doc" where
  "doc_from_attrs attrs =
    (let (summary, ls) = next_line (concat (map doc_lines attrs));
         (first_line, rest) = next_line ls
     in \<lparr> doc_summary = summary,
          doc_description = map_option (\<lambda>l. trim_end (foldl join_comment l rest)) first_line \<rparr>)"

definition comment_text :: "extracted_doc \<Rightarrow> string \<Rightarrow> string" where
  "comment_text d name =
    ''API Endpoint: '' @ name
    @ (case doc_summary d of Some s \<Rightarrow> [CHR 0x0A] @ s | None \<Rightarrow> [])
    @ (case doc_description d of Some s \<Rightarrow> [CHR 0x0A] @ s | None \<Rightarrow> [])"

text \<open>\<^verbatim>\<open>str::lines\<close>: a line ending is no line of its own, and a carriage return before it goes.\<close>

definition strip_cr :: "string \<Rightarrow> string" where
  "strip_cr l = (if l \<noteq> [] \<and> last l = CHR 0x0D then butlast l else l)"

definition str_lines :: "string \<Rightarrow> string list" where
  "str_lines s =
    (let ls = split_on (CHR 0x0A) s in
     map strip_cr (butlast ls) @ (if last ls = [] then [] else [last ls]))"

definition string_to_doc_attrs :: "string \<Rightarrow> doc_attribute list" where
  "string_to_doc_attrs s = map (\<lambda>l. DocAttr ('' '' @ l)) (str_lines s)"

section \<open>What is kept\<close>

lemma find_white_space_mem: "find p white_space = Some w \<Longrightarrow> w \<in> set white_space"
  by (metis find_Some_iff nth_mem)

text \<open>Trimming takes white space from the ends and nothing else.\<close>

lemma trim_end_suffix: "\<exists>ws. set ws \<subseteq> set white_space \<and> s = trim_end s @ concat ws"
proof (induction s rule: trim_end.induct)
  case (1 s)
  show ?case
  proof (cases "find (\<lambda>w. ends_with w s) white_space")
    case None
    then show ?thesis by (subst trim_end.simps) (auto intro: exI[of _ "[]"])
  next
    case (Some w)
    let ?s = "take (length s - length w) s"
    obtain t where t: "s = t @ w" using find_white_space[OF Some] by (auto simp: ends_with_iff)
    obtain ws where ws: "set ws \<subseteq> set white_space" "?s = trim_end ?s @ concat ws" using 1[OF Some] by blast
    have "trim_end s = trim_end ?s" by (subst trim_end.simps) (simp add: Some)
    moreover have "s = (trim_end ?s @ concat ws) @ w" using t ws(2) by simp
    ultimately have "s = trim_end s @ concat (ws @ [w])" by simp
    then show ?thesis using ws(1) find_white_space_mem[OF Some] by (intro exI[of _ "ws @ [w]"]) simp
  qed
qed

lemma trim_end_no_white_space: "w \<in> set white_space \<Longrightarrow> \<not> ends_with w (trim_end s)"
proof (induction s rule: trim_end.induct)
  case (1 s)
  show ?case
  proof (cases "find (\<lambda>w. ends_with w s) white_space")
    case None
    then have "trim_end s = s" by (subst trim_end.simps) simp
    then show ?thesis using None 1(2) by (simp add: find_None_iff)
  next
    case (Some v)
    then show ?thesis using 1(1)[OF Some 1(2)] by (subst trim_end.simps) simp
  qed
qed

lemma set_trim_start: "set (trim_start s) \<subseteq> set s"
proof (induction s rule: trim_start.induct)
  case (1 s)
  then show ?case by (subst trim_start.simps) (auto split: option.splits dest!: in_set_dropD)
qed

lemma set_trim_end: "set (trim_end s) \<subseteq> set s"
  using trim_end_suffix[of s] by (metis Un_upper1 set_append)

lemma set_normalize_line: "set (normalize_line idx s) \<subseteq> set s"
  using set_trim_start[of s] set_trim_end[of "trim_start s"]
  by (auto simp: normalize_line_def Let_def unwrap_or_def strip_prefix_def dest!: in_set_dropD)

lemma doc_lines_no_newline: "l \<in> set (doc_lines a) \<Longrightarrow> CHR 0x0A \<notin> set l"
proof (cases a)
  case (DocAttr s)
  assume "l \<in> set (doc_lines a)"
  then obtain idx where "idx < length (split_on (CHR 0x0A) s)" "l = normalize_line idx (split_on (CHR 0x0A) s ! idx)"
    by (auto simp: DocAttr normalize_comment_string_def in_set_enumerate_eq)
  then obtain part where "part \<in> set (split_on (CHR 0x0A) s)" "l = normalize_line idx part"
    using nth_mem by blast
  then show ?thesis using set_normalize_line[of idx part] split_on_no_sep by blast
qed simp

text \<open>The characters of the text itself: not the spaces and line breaks that join its parts.\<close>

definition letters :: "string \<Rightarrow> string" where
  "letters s = filter (\<lambda>c. c \<noteq> CHR '' '' \<and> c \<noteq> CHR 0x0A) s"

lemma letters_simps [simp]: "letters [] = []" "letters (a @ b) = letters a @ letters b"
  by (simp_all add: letters_def)

lemma letters_join [simp]: "letters (join_comment acc c) = letters acc @ letters c"
  by (auto simp: join_comment_def) (simp_all add: letters_def)

lemma letters_foldl: "letters (foldl join_comment l rest) = letters l @ concat (map letters rest)"
  by (induction rest arbitrary: l) simp_all

definition blank_lines :: string where
  "blank_lines = [CHR 0x0A, CHR 0x0A, CHR 0x0A]"

text \<open>Two blank lines in a row.\<close>

definition has_gap :: "string \<Rightarrow> bool" where
  "has_gap s \<longleftrightarrow> (\<exists>a b. s = a @ blank_lines @ b)"

lemma has_gap_append: "has_gap s \<Longrightarrow> has_gap (s @ t)"
  unfolding has_gap_def by (metis append_assoc)

lemma has_gap_append_line:
  assumes "CHR 0x0A \<notin> set l"
  shows "has_gap (s @ l) \<longleftrightarrow> has_gap s"
  using assms
proof (induction l rule: rev_induct)
  case (snoc c l)
  have "has_gap (t @ [c]) \<longleftrightarrow> has_gap t" for t
  proof
    assume "has_gap (t @ [c])"
    then obtain a b where "t @ [c] = a @ blank_lines @ b" by (auto simp: has_gap_def)
    then show "has_gap t"
      using snoc(2) by (cases b rule: rev_cases) (auto simp: has_gap_def blank_lines_def)
  qed (rule has_gap_append)
  then have "has_gap ((s @ l) @ [c]) \<longleftrightarrow> has_gap (s @ l)" .
  then show ?case using snoc by simp
qed simp

lemma has_gap_paragraph:
  assumes "\<not> ends_with [CHR 0x0A] s"
  shows "has_gap (s @ [CHR 0x0A, CHR 0x0A]) \<longleftrightarrow> has_gap s"
proof
  assume "has_gap (s @ [CHR 0x0A, CHR 0x0A])"
  then obtain a b where ab: "s @ [CHR 0x0A, CHR 0x0A] = a @ blank_lines @ b" by (auto simp: has_gap_def)
  show "has_gap s"
  proof (cases b rule: rev_cases)
    case Nil
    then show ?thesis using ab assms by (auto simp: blank_lines_def ends_with_iff)
  next
    case (snoc b' c)
    note b = snoc
    show ?thesis
    proof (cases b' rule: rev_cases)
      case Nil
      then show ?thesis using ab assms b by (auto simp: blank_lines_def ends_with_iff)
    next
      case (snoc b'' c')
      then show ?thesis using ab b by (auto simp: has_gap_def)
    qed
  qed
qed (rule has_gap_append)

lemma join_comment_no_gap:
  assumes "\<not> has_gap acc" "CHR 0x0A \<notin> set c"
  shows "\<not> has_gap (join_comment acc c)"
  using assms has_gap_append_line[of "'' '' @ c" acc]
  by (auto simp: join_comment_def has_gap_append_line has_gap_paragraph)

lemma foldl_join_no_gap:
  "\<not> has_gap l \<Longrightarrow> \<forall>c \<in> set rest. CHR 0x0A \<notin> set c \<Longrightarrow> \<not> has_gap (foldl join_comment l rest)"
  by (induction rest arbitrary: l) (auto simp: join_comment_no_gap)

lemma next_line_None_iff: "next_line ls = (None, rest) \<longleftrightarrow> set ls \<subseteq> {[]} \<and> rest = []"
  by (induction ls) auto

lemma next_line_Some_iff:
  "next_line ls = (Some l, rest) \<longleftrightarrow> (\<exists>blank. set blank \<subseteq> {[]} \<and> ls = blank @ l # rest \<and> l \<noteq> [])"
proof (induction ls)
  case (Cons x ls)
  have step: "(\<exists>blank. set blank \<subseteq> {[]} \<and> x # ls = blank @ l # rest \<and> l \<noteq> [])
      \<longleftrightarrow> (x = l \<and> ls = rest \<and> l \<noteq> []) \<or> (x = [] \<and> (\<exists>blank. set blank \<subseteq> {[]} \<and> ls = blank @ l # rest \<and> l \<noteq> []))"
    (is "?whole \<longleftrightarrow> ?parts")
  proof
    assume ?whole
    then obtain blank where "set blank \<subseteq> {[]}" "x # ls = blank @ l # rest" "l \<noteq> []" by blast
    then show ?parts by (cases blank) auto
  next
    assume ?parts
    then show ?whole
    proof
      assume "x = [] \<and> (\<exists>blank. set blank \<subseteq> {[]} \<and> ls = blank @ l # rest \<and> l \<noteq> [])"
      then obtain blank where "set ([] # blank) \<subseteq> {[]}" "x # ls = ([] # blank) @ l # rest" "l \<noteq> []" by auto
      then show ?whole by blast
    qed (intro exI[of _ "[]"], simp)
  qed
  show ?case unfolding step using Cons by auto
qed simp

section \<open>Properties\<close>


definition sample_doc :: "doc_attribute list" where
  "sample_doc = [DocAttr '' Lists projects'', DocAttr [], DocAttr '' All of them. '', OtherAttr,
     DocAttr '' Sorted by name.'']"


end
