(* ===== verification/Macro_Metadata.thy ===== *)
theory Macro_Metadata
  imports Macro_Doc Router_Iter "HOL-Library.Product_Lexorder"
begin

text \<open>
  The arguments of the endpoint and channel macros (\<^verbatim>\<open>dropshot_endpoint/src/metadata.rs\<close> and
  \<^verbatim>\<open>util.rs\<close>): their validation, the parsing of version ranges, and the code that builds the
  endpoint.  The generated code is a datatype of calls, and \<open>run_endpoint_code\<close> is its meaning
  over the builders of \<^verbatim>\<open>Api_Types\<close>, so that the property at the end is the correctness of a
  compiler.

  An error sink is the list of the errors that were pushed (see \<^verbatim>\<open>Error_Store\<close>).  What \<^verbatim>\<open>semver\<close>
  does is the record \<open>semver_lib\<close>; a Rust path and an expression in the arguments are parameters
  that the environment of the generated code gives a value.
\<close>

section \<open>Methods and content types\<close>

datatype method_type = DELETE | GET | HEAD | PATCH | POST | PUT | OPTIONS

fun method_as_str :: "method_type \<Rightarrow> string" where
  "method_as_str DELETE = ''DELETE''"
| "method_as_str GET = ''GET''"
| "method_as_str HEAD = ''HEAD''"
| "method_as_str PATCH = ''PATCH''"
| "method_as_str POST = ''POST''"
| "method_as_str PUT = ''PUT''"
| "method_as_str OPTIONS = ''OPTIONS''"

datatype macro_kind = FunctionMacro | TraitMacro

definition APPLICATION_JSON :: string where
  "APPLICATION_JSON = ''application/json''"

definition APPLICATION_X_WWW_FORM_URLENCODED :: string where
  "APPLICATION_X_WWW_FORM_URLENCODED = ''application/x-www-form-urlencoded''"

definition MULTIPART_FORM_DATA :: string where
  "MULTIPART_FORM_DATA = ''multipart/form-data''"

datatype valid_content_type = ApplicationJson | ApplicationXWwwFormUrlencoded | ValidMultipartFormData

fun as_static_str :: "valid_content_type \<Rightarrow> string" where
  "as_static_str ApplicationJson = APPLICATION_JSON"
| "as_static_str ApplicationXWwwFormUrlencoded = APPLICATION_X_WWW_FORM_URLENCODED"
| "as_static_str ValidMultipartFormData = MULTIPART_FORM_DATA"

definition to_supported_string :: string where
  "to_supported_string =
    APPLICATION_JSON @ '', '' @ APPLICATION_X_WWW_FORM_URLENCODED @ '', '' @ MULTIPART_FORM_DATA"

definition content_type_from_str :: "string \<Rightarrow> valid_content_type option" where
  "content_type_from_str s =
    (if s = APPLICATION_JSON then Some ApplicationJson
     else if s = APPLICATION_X_WWW_FORM_URLENCODED then Some ApplicationXWwwFormUrlencoded
     else if s = MULTIPART_FORM_DATA then Some ValidMultipartFormData
     else None)"

text \<open>A colon, a dot, an asterisk and a closing brace.\<close>

definition is_wildcard_path :: "string \<Rightarrow> bool" where
  "is_wildcard_path p = contains_str '':.*}'' p"

section \<open>Version ranges\<close>

record 'v semver_lib =
  sv_parse :: "string \<Rightarrow> (string, 'v) result"
  sv_new :: "64 word \<Rightarrow> 64 word \<Rightarrow> 64 word \<Rightarrow> 'v"
  sv_major :: "'v \<Rightarrow> 64 word"
  sv_minor :: "'v \<Rightarrow> 64 word"
  sv_patch :: "'v \<Rightarrow> 64 word"
  sv_pre :: "'v \<Rightarrow> string"
  sv_build :: "'v \<Rightarrow> string"
  sv_display :: "'v \<Rightarrow> string"

text \<open>A version without pre-release and build metadata is made of its three numbers.\<close>

definition semver_ok :: "'v semver_lib \<Rightarrow> bool" where
  "semver_ok L \<longleftrightarrow>
    (\<forall>v. sv_pre L v = [] \<longrightarrow> sv_build L v = [] \<longrightarrow> sv_new L (sv_major L v) (sv_minor L v) (sv_patch L v) = v)"

datatype 'v version_specifier = VersionLiteral 'v | VersionIdentifier string

datatype 'v version_range =
    RangeAll
  | RangeFrom "'v version_specifier"
  | RangeUntil "'v version_specifier"
  | RangeFromUntil "'v version_specifier" "'v version_specifier"

text \<open>The tokens of a range.  A failure of \<^verbatim>\<open>syn\<close> itself has a message of its own.\<close>

datatype version_token = DotDot | LitStr string | IdentToken string | OtherToken string

datatype parse_error = SynError | MacroError string

definition parse_semver :: "'v semver_lib \<Rightarrow> string \<Rightarrow> (parse_error, 'v) result" where
  "parse_semver L s =
    rbind (map_err (\<lambda>e. MacroError (''expected semver: '' @ e)) (sv_parse L s)) (\<lambda>v.
    rbind (if sv_pre L v = [] then Inr v
           else Inl (MacroError ''semver pre-release string is not supported here'')) (\<lambda>v.
    if sv_build L v = [] then Inr v
    else Inl (MacroError ''semver build metadata is not supported here'')))"

text \<open>\<open>syn_path\<close> is \<^verbatim>\<open>syn::Path::parse\<close>: the path and the tokens after it.\<close>

definition parse_version_specifier ::
  "'v semver_lib \<Rightarrow> (version_token list \<Rightarrow> (string \<times> version_token list) option) \<Rightarrow> version_token list
    \<Rightarrow> (parse_error, 'v version_specifier \<times> version_token list) result" where
  "parse_version_specifier L syn_path input =
    (case input of
       LitStr s # rest \<Rightarrow> rbind (parse_semver L s) (\<lambda>v. Inr (VersionLiteral v, rest))
     | _ \<Rightarrow> rbind (ok_or SynError (syn_path input)) (\<lambda>(p, rest). Inr (VersionIdentifier p, rest)))"

fun parse_dotdot :: "version_token list \<Rightarrow> (parse_error, version_token list) result" where
  "parse_dotdot (DotDot # rest) = Inr rest"
| "parse_dotdot _ = Inl SynError"

fun peek_specifier :: "version_token list \<Rightarrow> bool" where
  "peek_specifier (LitStr _ # _) = True"
| "peek_specifier (IdentToken _ # _) = True"
| "peek_specifier _ = False"

text \<open>If both ends are literals, their order is checked.\<close>

fun from_until_range ::
  "'v::linorder semver_lib \<Rightarrow> 'v version_specifier \<Rightarrow> 'v version_specifier \<Rightarrow> (parse_error, 'v version_range) result" where
  "from_until_range L (VersionLiteral e) (VersionLiteral l) =
    (if l < e then
       Inl (MacroError (''\"from\" version ('' @ sv_display L e
         @ '') must be earlier than \"until\" version ('' @ sv_display L l @ '')''))
     else Inr (RangeFromUntil (VersionLiteral e) (VersionLiteral l)))"
| "from_until_range L x y = Inr (RangeFromUntil x y)"

definition parse_version_range ::
  "'v::linorder semver_lib \<Rightarrow> (version_token list \<Rightarrow> (string \<times> version_token list) option)
    \<Rightarrow> version_token list \<Rightarrow> (parse_error, 'v version_range \<times> version_token list) result" where
  "parse_version_range L syn_path input =
    (case input of
       DotDot # rest \<Rightarrow>
         if rest = [] then Inr (RangeAll, rest)
         else rbind (parse_version_specifier L syn_path rest) (\<lambda>(latest, rest). Inr (RangeUntil latest, rest))
     | _ \<Rightarrow>
         rbind (parse_version_specifier L syn_path input) (\<lambda>(earliest, rest).
         rbind (parse_dotdot rest) (\<lambda>rest.
           if peek_specifier rest then
             rbind (parse_version_specifier L syn_path rest) (\<lambda>(latest, rest).
             rbind (from_until_range L earliest latest) (\<lambda>r. Inr (r, rest)))
           else Inr (RangeFrom earliest, rest))))"

section \<open>The metadata of an endpoint\<close>

text \<open>\<open>'x\<close> are the expressions for the body limit.\<close>

record ('x, 'v) endpoint_metadata =
  epm_operation_id :: "string option"
  epm_method :: method_type
  epm_path :: string
  epm_tags :: "string list"
  epm_unpublished :: bool
  epm_deprecated :: bool
  epm_request_body_max_bytes :: "'x option"
  epm_content_type :: "string option"
  epm_dropshot_crate :: "string option"
  epm_versions :: "'v version_range option"

record ('x, 'v) validated_endpoint_metadata =
  vm_operation_id :: "string option"
  vm_method :: method_type
  vm_path :: string
  vm_tags :: "string list"
  vm_unpublished :: bool
  vm_deprecated :: bool
  vm_request_body_max_bytes :: "'x option"
  vm_content_type :: valid_content_type
  vm_versions :: "'v version_range"

text \<open>The errors pushed to the new sink, and what is returned.\<close>

type_synonym 'a checked = "string list \<times> 'a"

definition crate_error :: "string \<Rightarrow> string \<Rightarrow> string" where
  "crate_error what name_str =
    what @ '' `'' @ name_str @ ''` must not specify `_dropshot_crate`'' @ [CHR 0x0A]
    @ ''note: specify this as an argument to `#[api_description]` instead''"

definition wildcard_error :: "string \<Rightarrow> string" where
  "wildcard_error name_str =
    ''endpoint `'' @ name_str @ ''` has paths that contain a wildcard match, but is not marked ''
    @ [CHR 0x27] @ ''unpublished = true'' @ [CHR 0x27]"

definition content_type_error :: "string \<Rightarrow> string" where
  "content_type_error name_str =
    ''endpoint `'' @ name_str @ ''` has an invalid content type'' @ [CHR 0x0A]
    @ ''note: supported content types are: '' @ to_supported_string"

definition validate_endpoint_metadata ::
  "('x, 'v) endpoint_metadata \<Rightarrow> string \<Rightarrow> macro_kind
    \<Rightarrow> ('x, 'v) validated_endpoint_metadata option outcome checked" where
  "validate_endpoint_metadata md name_str kind =
    (let crate_errors =
           (if kind = TraitMacro \<and> epm_dropshot_crate md \<noteq> None then [crate_error ''endpoint'' name_str] else []);
         wildcard_errors =
           (if contains_str '':.*}'' (epm_path md) \<and> \<not> epm_unpublished md then
              [wildcard_error name_str]
            else []);
         (type_errors, content_type) =
           (case epm_content_type md of
              Some ct \<Rightarrow>
                (case content_type_from_str ct of
                   Some content_type \<Rightarrow> ([], Some content_type)
                 | None \<Rightarrow> ([content_type_error name_str], None))
            | None \<Rightarrow> ([], Some ApplicationJson));
         errors = crate_errors @ wildcard_errors @ type_errors
     in (errors,
         if errors \<noteq> [] then Inr None
         else
           (case content_type of
              Some content_type \<Rightarrow>
                Inr (Some \<lparr> vm_operation_id = epm_operation_id md, vm_method = epm_method md,
                  vm_path = epm_path md, vm_tags = epm_tags md, vm_unpublished = epm_unpublished md,
                  vm_deprecated = epm_deprecated md,
                  vm_request_body_max_bytes = epm_request_body_max_bytes md,
                  vm_content_type = content_type,
                  vm_versions = (case epm_versions md of Some r \<Rightarrow> r | None \<Rightarrow> RangeAll) \<rparr>)
            | None \<Rightarrow>
                Inl (Panic ''internal error: entered unreachable code: no validation errors, but content_type is None''))))"

section \<open>The metadata of a channel\<close>

datatype channel_protocol = WEBSOCKETS

record 'v channel_metadata =
  cm_protocol :: channel_protocol
  cm_operation_id :: "string option"
  cm_path :: string
  cm_tags :: "string list"
  cm_unpublished :: bool
  cm_deprecated :: bool
  cm_dropshot_crate :: "string option"
  cm_versions :: "'v version_range option"

datatype ('x, 'v) validated_channel_metadata =
  ValidatedChannelMetadata (channel_inner: "('x, 'v) validated_endpoint_metadata")

definition channel_wildcard_error :: "string \<Rightarrow> string" where
  "channel_wildcard_error name_str = ''channel `'' @ name_str @ ''` has a wildcard path, which is not allowed''"

definition validate_channel_metadata ::
  "'v channel_metadata \<Rightarrow> string \<Rightarrow> macro_kind \<Rightarrow> ('x, 'v) validated_channel_metadata option checked" where
  "validate_channel_metadata cm name_str kind =
    (let crate_errors =
           (if kind = TraitMacro \<and> cm_dropshot_crate cm \<noteq> None then [crate_error ''channel'' name_str] else []);
         wildcard_errors =
           (if is_wildcard_path (cm_path cm) then
              [channel_wildcard_error name_str]
            else []);
         errors = crate_errors @ wildcard_errors
     in (errors,
         if errors \<noteq> [] then None
         else
           Some (ValidatedChannelMetadata
             \<lparr> vm_operation_id = cm_operation_id cm, vm_method = GET, vm_path = cm_path cm,
               vm_tags = cm_tags cm, vm_unpublished = cm_unpublished cm, vm_deprecated = cm_deprecated cm,
               vm_request_body_max_bytes = None, vm_content_type = ApplicationJson,
               vm_versions = (case cm_versions cm of Some r \<Rightarrow> r | None \<Rightarrow> RangeAll) \<rparr>)))"

section \<open>The generated code\<close>

datatype version_code = VersionNew "64 word" "64 word" "64 word" | VersionPath string

datatype versions_code =
    VersionsAll
  | VersionsFrom version_code
  | VersionsUntil version_code
  | VersionsFromUntilUnwrap version_code version_code

text \<open>\<open>'f\<close> are the paths to functions, \<open>'t\<close> the types.\<close>

datatype ('f, 't) api_endpoint_kind = Regular 'f | Stub "'t list" 't

datatype ('f, 't) fn_call =
    CallNew string 'f string string string versions_code
  | CallNewForTypes "'t list" 't string string string string versions_code

datatype 'x builder_call =
    CallSummary string
  | CallDescription string
  | CallTag string
  | CallVisible bool
  | CallDeprecated bool
  | CallRequestBodyMaxBytes 'x

datatype ('f, 't, 'x) endpoint_code = EndpointCode (ec_fn_call: "('f, 't) fn_call") (ec_calls: "'x builder_call list")

definition semver_parts :: "'v semver_lib \<Rightarrow> 'v \<Rightarrow> (64 word \<times> 64 word \<times> 64 word) outcome" where
  "semver_parts L v =
    (if sv_pre L v \<noteq> [] then Inl (Panic ''assertion `left == right` failed'')
     else if sv_build L v \<noteq> [] then Inl (Panic ''assertion `left == right` failed'')
     else Inr (sv_major L v, sv_minor L v, sv_patch L v))"

fun semver_expr :: "'v semver_lib \<Rightarrow> 'v version_specifier \<Rightarrow> version_code outcome" where
  "semver_expr L (VersionLiteral v) =
    rbind (semver_parts L v) (\<lambda>(major, minor, patch). Inr (VersionNew major minor patch))"
| "semver_expr L (VersionIdentifier ident) = Inr (VersionPath ident)"

fun versions_expr :: "'v semver_lib \<Rightarrow> 'v version_range \<Rightarrow> versions_code outcome" where
  "versions_expr L RangeAll = Inr VersionsAll"
| "versions_expr L (RangeFrom x) = rbind (semver_expr L x) (\<lambda>v. Inr (VersionsFrom v))"
| "versions_expr L (RangeUntil y) = rbind (semver_expr L y) (\<lambda>v. Inr (VersionsUntil v))"
| "versions_expr L (RangeFromUntil x y) =
    rbind (semver_expr L x) (\<lambda>x. rbind (semver_expr L y) (\<lambda>y. Inr (VersionsFromUntilUnwrap x y)))"

text \<open>The calls that follow the constructor.\<close>

definition builder_calls :: "('x, 'v) validated_endpoint_metadata \<Rightarrow> extracted_doc \<Rightarrow> 'x builder_call list" where
  "builder_calls vm doc =
    (let summary = (case doc_summary doc of Some s \<Rightarrow> [CallSummary s] | None \<Rightarrow> []);
         description = (case doc_description doc of Some s \<Rightarrow> [CallDescription s] | None \<Rightarrow> []);
         tags = map CallTag (vm_tags vm);
         visible = (if vm_unpublished vm then [CallVisible False] else []);
         deprecated = (if vm_deprecated vm then [CallDeprecated True] else []);
         request_body_max_bytes =
           (case vm_request_body_max_bytes vm of Some x \<Rightarrow> [CallRequestBodyMaxBytes x] | None \<Rightarrow> [])
     in summary @ description @ tags @ visible @ deprecated @ request_body_max_bytes)"

definition to_api_endpoint_fn ::
  "'v semver_lib \<Rightarrow> ('x, 'v) validated_endpoint_metadata \<Rightarrow> string \<Rightarrow> ('f, 't) api_endpoint_kind
    \<Rightarrow> extracted_doc \<Rightarrow> ('f, 't, 'x) endpoint_code outcome" where
  "to_api_endpoint_fn L vm endpoint_name kind doc =
    (let content_type = as_static_str (vm_content_type vm);
         operation_id = unwrap_or (vm_operation_id vm) endpoint_name;
         method_ident = method_as_str (vm_method vm)
     in rbind (versions_expr L (vm_versions vm)) (\<lambda>versions.
       let fn_call =
             (case kind of
                Regular endpoint_fn \<Rightarrow>
                  CallNew operation_id endpoint_fn method_ident content_type (vm_path vm) versions
              | Stub extractor_types ret_ty \<Rightarrow>
                  CallNewForTypes extractor_types ret_ty operation_id method_ident content_type (vm_path vm) versions)
       in Inr (EndpointCode fn_call (builder_calls vm doc))))"

definition channel_to_api_endpoint_fn ::
  "'v semver_lib \<Rightarrow> ('x, 'v) validated_channel_metadata \<Rightarrow> string \<Rightarrow> ('f, 't) api_endpoint_kind
    \<Rightarrow> extracted_doc \<Rightarrow> ('f, 't, 'x) endpoint_code outcome" where
  "channel_to_api_endpoint_fn L cm endpoint_name kind doc =
    to_api_endpoint_fn L (channel_inner cm) endpoint_name kind doc"


section \<open>What the generated code does\<close>

text \<open>The items that the generated code refers to: the versions and limits that paths and
  expressions stand for, the handlers, and what the types of a handler say about it.\<close>

record 'g handler_types =
  ht_parameters :: "api_endpoint_body_content_type \<Rightarrow> 'g extractor_metadata"
  ht_response :: "'g api_endpoint_response"
  ht_error :: "'g api_endpoint_error_response option"

record ('f, 't, 'x, 'h, 'g, 'v) code_env =
  env_version :: "string \<Rightarrow> 'v"
  env_max_bytes :: "'x \<Rightarrow> nat"
  env_handler :: "'f \<Rightarrow> 'h"
  env_handler_types :: "'f \<Rightarrow> 'g handler_types"
  env_types :: "'t list \<Rightarrow> 't \<Rightarrow> 'g handler_types"
  env_stub :: "string \<Rightarrow> 'h"

fun run_version :: "'v semver_lib \<Rightarrow> ('f, 't, 'x, 'h, 'g, 'v) code_env \<Rightarrow> version_code \<Rightarrow> 'v" where
  "run_version L env (VersionNew major minor patch) = sv_new L major minor patch"
| "run_version L env (VersionPath p) = env_version env p"

definition unwrap :: "('e, 'a) result \<Rightarrow> 'a outcome" where
  "unwrap r = map_err (\<lambda>_. Panic ''called `Result::unwrap()` on an `Err` value'') r"

fun run_versions ::
  "'v::linorder semver_lib \<Rightarrow> ('f, 't, 'x, 'h, 'g, 'v) code_env \<Rightarrow> versions_code \<Rightarrow> 'v api_endpoint_versions outcome" where
  "run_versions L env VersionsAll = Inr All"
| "run_versions L env (VersionsFrom v) = Inr (From (run_version L env v))"
| "run_versions L env (VersionsUntil v) = Inr (Until (run_version L env v))"
| "run_versions L env (VersionsFromUntilUnwrap x y) =
    unwrap (from_until (run_version L env x) (run_version L env y))"

fun run_fn_call ::
  "'v::linorder semver_lib \<Rightarrow> ('f, 't, 'x, 'h, 'g, 'v) code_env \<Rightarrow> ('f, 't) fn_call \<Rightarrow> ('h, 'g, 'v) api_endpoint outcome" where
  "run_fn_call L env (CallNew op_id f m content_type p vs) =
    rbind (run_versions L env vs) (\<lambda>vs.
      let T = env_handler_types env f
      in endpoint_new (ht_parameters T) (ht_response T) (ht_error T) op_id (env_handler env f) m content_type p vs)"
| "run_fn_call L env (CallNewForTypes ts ret op_id m content_type p vs) =
    rbind (run_versions L env vs) (\<lambda>vs.
      let T = env_types env ts ret
      in endpoint_new_for_types (ht_parameters T) (ht_response T) (ht_error T) (env_stub env) op_id m content_type p vs)"

fun run_builder_call ::
  "('f, 't, 'x, 'h, 'g, 'v) code_env \<Rightarrow> ('h, 'g, 'v) api_endpoint \<Rightarrow> 'x builder_call \<Rightarrow> ('h, 'g, 'v) api_endpoint" where
  "run_builder_call env e (CallSummary s) = with_summary s e"
| "run_builder_call env e (CallDescription s) = with_description s e"
| "run_builder_call env e (CallTag t) = with_tag t e"
| "run_builder_call env e (CallVisible b) = with_visible b e"
| "run_builder_call env e (CallDeprecated b) = with_deprecated b e"
| "run_builder_call env e (CallRequestBodyMaxBytes x) = with_request_body_max_bytes (env_max_bytes env x) e"

fun run_endpoint_code ::
  "'v::linorder semver_lib \<Rightarrow> ('f, 't, 'x, 'h, 'g, 'v) code_env \<Rightarrow> ('f, 't, 'x) endpoint_code
    \<Rightarrow> ('h, 'g, 'v) api_endpoint outcome" where
  "run_endpoint_code L env (EndpointCode c calls) =
    rbind (run_fn_call L env c) (\<lambda>e. Inr (foldl (run_builder_call env) e calls))"

section \<open>What the arguments declare\<close>

fun declared_version :: "('f, 't, 'x, 'h, 'g, 'v) code_env \<Rightarrow> 'v version_specifier \<Rightarrow> 'v" where
  "declared_version env (VersionLiteral v) = v"
| "declared_version env (VersionIdentifier p) = env_version env p"

text \<open>A range whose ends are in the wrong order is refused when the code runs.\<close>

fun declared_versions ::
  "('f, 't, 'x, 'h, 'g, 'v::linorder) code_env \<Rightarrow> 'v version_range \<Rightarrow> 'v api_endpoint_versions outcome" where
  "declared_versions env RangeAll = Inr All"
| "declared_versions env (RangeFrom x) = Inr (From (declared_version env x))"
| "declared_versions env (RangeUntil y) = Inr (Until (declared_version env y))"
| "declared_versions env (RangeFromUntil x y) =
    (if declared_version env x \<le> declared_version env y
     then Inr (FromUntil (OrderedVersionPair (declared_version env x) (declared_version env y)))
     else Inl (Panic ''called `Result::unwrap()` on an `Err` value''))"

fun literal_range :: "'v version_range \<Rightarrow> bool" where
  "literal_range (RangeFromUntil x y) = (\<exists>v w. x = VersionLiteral v \<and> y = VersionLiteral w)"
| "literal_range _ = True"

definition kind_handler :: "('f, 't, 'x, 'h, 'g, 'v) code_env \<Rightarrow> ('f, 't) api_endpoint_kind \<Rightarrow> string \<Rightarrow> 'h" where
  "kind_handler env kind op_id = (case kind of Regular f \<Rightarrow> env_handler env f | Stub _ _ \<Rightarrow> env_stub env op_id)"

definition kind_types :: "('f, 't, 'x, 'h, 'g, 'v) code_env \<Rightarrow> ('f, 't) api_endpoint_kind \<Rightarrow> 'g handler_types" where
  "kind_types env kind = (case kind of Regular f \<Rightarrow> env_handler_types env f | Stub ts ret \<Rightarrow> env_types env ts ret)"

text \<open>The endpoint that arguments, documentation and handler describe.\<close>

definition declared_endpoint ::
  "('f, 't, 'x, 'h, 'g, 'v::linorder) code_env \<Rightarrow> ('x, 'v) validated_endpoint_metadata \<Rightarrow> string
    \<Rightarrow> ('f, 't) api_endpoint_kind \<Rightarrow> extracted_doc \<Rightarrow> api_endpoint_body_content_type
    \<Rightarrow> 'v api_endpoint_versions \<Rightarrow> ('h, 'g, 'v) api_endpoint" where
  "declared_endpoint env vm name kind doc bct vs =
    \<lparr> operation_id = unwrap_or (vm_operation_id vm) name,
      handler = kind_handler env kind (unwrap_or (vm_operation_id vm) name),
      method = method_as_str (vm_method vm), path = vm_path vm,
      parameters = em_parameters (ht_parameters (kind_types env kind) bct),
      body_content_type = bct,
      request_body_max_bytes = map_option (env_max_bytes env) (vm_request_body_max_bytes vm),
      ep_response = ht_response (kind_types env kind), ep_error = ht_error (kind_types env kind),
      summary = doc_summary doc, description = doc_description doc, tags = vm_tags vm,
      extension_mode = em_extension_mode (ht_parameters (kind_types env kind) bct),
      visible = (\<not> vm_unpublished vm), deprecated = vm_deprecated vm, versions = vs \<rparr>"

section \<open>Compiling\<close>

fun specifier_wf :: "'v semver_lib \<Rightarrow> 'v version_specifier \<Rightarrow> bool" where
  "specifier_wf L (VersionLiteral v) = (sv_pre L v = [] \<and> sv_build L v = [])"
| "specifier_wf L (VersionIdentifier _) = True"

text \<open>What the parser promises of a range.\<close>

fun range_wf :: "'v::linorder semver_lib \<Rightarrow> 'v version_range \<Rightarrow> bool" where
  "range_wf L RangeAll = True"
| "range_wf L (RangeFrom x) = specifier_wf L x"
| "range_wf L (RangeUntil y) = specifier_wf L y"
| "range_wf L (RangeFromUntil x y) = (specifier_wf L x \<and> specifier_wf L y
    \<and> (\<forall>v w. x = VersionLiteral v \<longrightarrow> y = VersionLiteral w \<longrightarrow> v \<le> w))"

lemma parse_version_specifier_wf:
  "parse_version_specifier L syn_path input = Inr (x, rest) \<Longrightarrow> specifier_wf L x"
  by (auto simp: parse_version_specifier_def parse_semver_def rbind_simps
      split: list.splits version_token.splits if_splits)

lemma from_until_range_wf:
  "from_until_range L x y = Inr r \<Longrightarrow> specifier_wf L x \<Longrightarrow> specifier_wf L y \<Longrightarrow> range_wf L r"
  by (cases "(L, x, y)" rule: from_until_range.cases) (auto split: if_splits)

lemma parse_version_range_wf:
  assumes "parse_version_range L syn_path input = Inr (r, rest)"
  shows "range_wf L r"
proof (cases "\<exists>more. input = DotDot # more")
  case True
  then show ?thesis
    using assms parse_version_specifier_wf
    by (fastforce simp: parse_version_range_def rbind_simps split: if_splits)
next
  case False
  then have "parse_version_range L syn_path input =
      rbind (parse_version_specifier L syn_path input) (\<lambda>(earliest, rest).
      rbind (parse_dotdot rest) (\<lambda>rest.
        if peek_specifier rest then
          rbind (parse_version_specifier L syn_path rest) (\<lambda>(latest, rest).
          rbind (from_until_range L earliest latest) (\<lambda>r. Inr (r, rest)))
        else Inr (RangeFrom earliest, rest)))"
    by (auto simp: parse_version_range_def split: list.splits version_token.splits)
  with assms show ?thesis
    by (auto simp: rbind_simps dest!: parse_version_specifier_wf split: if_splits
        intro: from_until_range_wf)
qed

lemma run_semver_expr:
  assumes "semver_ok L" "specifier_wf L x"
  shows "\<exists>c. semver_expr L x = Inr c \<and> run_version L env c = declared_version env x"
  using assms by (cases x) (auto simp: semver_parts_def semver_ok_def)

lemma run_versions_expr:
  assumes "semver_ok L" "range_wf L r"
  shows "\<exists>c. versions_expr L r = Inr c \<and> run_versions L env c = declared_versions env r"
proof (cases r)
  case (RangeFromUntil x y)
  then obtain c d where "semver_expr L x = Inr c" "run_version L env c = declared_version env x"
      "semver_expr L y = Inr d" "run_version L env d = declared_version env y"
    using assms run_semver_expr by (metis range_wf.simps(4))
  then show ?thesis using RangeFromUntil by (auto simp: from_until_def unwrap_def)
qed (use assms run_semver_expr[OF assms(1), of _ env] in fastforce)+

lemma declared_versions_literal:
  "range_wf L r \<Longrightarrow> literal_range r \<Longrightarrow> \<exists>vs. declared_versions env r = Inr vs"
  by (cases r) auto

lemma foldl_tags: "foldl (run_builder_call env) e (map CallTag ts) = e\<lparr>tags := tags e @ ts\<rparr>"
  by (induction ts arbitrary: e) (simp_all add: with_tag_def)

lemma run_builder_calls:
  assumes "summary e = None" "description e = None" "tags e = []" "visible e" "\<not> deprecated e"
    "request_body_max_bytes e = None"
  shows "foldl (run_builder_call env) e (builder_calls vm doc) =
    e\<lparr> summary := doc_summary doc, description := doc_description doc, tags := vm_tags vm,
       visible := \<not> vm_unpublished vm, deprecated := vm_deprecated vm,
       request_body_max_bytes := map_option (env_max_bytes env) (vm_request_body_max_bytes vm) \<rparr>"
  using assms
  by (cases e) (simp add: builder_calls_def foldl_tags with_summary_def with_description_def with_visible_def
      with_deprecated_def with_request_body_max_bytes_def split: option.split)

lemma to_api_endpoint_fn_correct:
  assumes "versions_expr L (vm_versions vm) = Inr c" "run_versions L env c = declared_versions env (vm_versions vm)"
    and "from_mime_type (as_static_str (vm_content_type vm)) = Inr bct"
  shows "\<exists>code. to_api_endpoint_fn L vm name kind doc = Inr code
    \<and> run_endpoint_code L env code =
        rbind (declared_versions env (vm_versions vm)) (\<lambda>vs. Inr (declared_endpoint env vm name kind doc bct vs))"
  using assms
  by (cases "declared_versions env (vm_versions vm)"; cases kind)
    (simp_all add: to_api_endpoint_fn_def Let_def run_builder_calls endpoint_new_def endpoint_new_for_types_def
      declared_endpoint_def kind_handler_def kind_types_def)


section \<open>Validation\<close>

lemma content_type_from_str_Some_iff: "content_type_from_str s = Some ct \<longleftrightarrow> s = as_static_str ct"
  by (cases ct) (auto simp: content_type_from_str_def APPLICATION_JSON_def APPLICATION_X_WWW_FORM_URLENCODED_def
      MULTIPART_FORM_DATA_def)

fun body_content_type_of :: "valid_content_type \<Rightarrow> api_endpoint_body_content_type" where
  "body_content_type_of ApplicationJson = Json"
| "body_content_type_of ApplicationXWwwFormUrlencoded = UrlEncoded"
| "body_content_type_of ValidMultipartFormData = MultipartFormData"

text \<open>The two crates agree on the content types.\<close>

lemma as_static_str_mime_type: "as_static_str ct = mime_type (body_content_type_of ct)"
  by (cases ct) (simp_all add: content_type_defs APPLICATION_JSON_def APPLICATION_X_WWW_FORM_URLENCODED_def
      MULTIPART_FORM_DATA_def)

lemma from_mime_type_static: "from_mime_type (as_static_str ct) = Inr (body_content_type_of ct)"
  unfolding as_static_str_mime_type by (cases ct) (simp_all add: from_mime_type_def content_type_defs)

lemma path_segment_from_wildcard:
  assumes "path_segment_from s = Inr (VarnameWildcard x)"
  shows "s = ''{'' @ x @ '':.*}''"
proof -
  have s: "starts_with ''{'' s" "ends_with ''}'' s" "split_once (CHR '':'') (butlast (tl s)) = Some (x, ''.*'')"
    using assms by (auto simp: path_segment_from_def Let_def split: if_splits option.splits prod.splits)
  then obtain t where t: "s = CHR ''{'' # t" by (auto simp: starts_with_iff)
  have inner: "butlast t = x @ '':.*''" using s(3) t by (simp add: split_once_Some_iff)
  then have "t \<noteq> []" by auto
  moreover from this have "last t = CHR ''}''" using s(2) t by (auto simp: ends_with_iff) (metis last.simps last_snoc)
  ultimately have "t = (x @ '':.*'') @ ''}''" using inner append_butlast_last_id[of t] by simp
  then show ?thesis using t by simp
qed

lemma wildcard_template_contains:
  assumes "template_of p = Inr t" "VarnameWildcard x \<in> set t"
  shows "contains_str '':.*}'' p"
proof -
  obtain ss where ss: "route_path_to_segments p = Inr ss" "mapM_result path_segment_from ss = Inr t"
    using assms(1) by (auto simp: template_of_def rbind_simps)
  obtain s where s: "s \<in> set ss" "path_segment_from s = Inr (VarnameWildcard x)"
    using mapM_result_member[OF ss(2) assms(2)] by blast
  have "s \<in> set (split_on (CHR ''/'') p)"
    using ss(1) s(1)
    by (auto simp: route_path_to_segments_def Let_def split: if_splits
        dest: in_set_butlastD list.set_sel(2)[OF split_on_not_Nil])
  then obtain a b where "p = a @ s @ b" using split_on_infix by blast
  then have "p = (a @ ''{'' @ x) @ '':.*}'' @ b" using path_segment_from_wildcard[OF s(2)] by simp
  then show ?thesis unfolding contains_str_iff by blast
qed

text \<open>When the arguments of an endpoint are accepted.\<close>

definition endpoint_metadata_ok :: "('x, 'v) endpoint_metadata \<Rightarrow> macro_kind \<Rightarrow> bool" where
  "endpoint_metadata_ok md kind \<longleftrightarrow>
    (kind = FunctionMacro \<or> epm_dropshot_crate md = None)
    \<and> (contains_str '':.*}'' (epm_path md) \<longrightarrow> epm_unpublished md)
    \<and> (\<forall>ct. epm_content_type md = Some ct \<longrightarrow> (\<exists>v. ct = as_static_str v))"

lemma content_type_from_str_None_iff: "content_type_from_str s = None \<longleftrightarrow> (\<forall>ct. s \<noteq> as_static_str ct)"
  using content_type_from_str_Some_iff by (metis option.exhaust option.distinct(1))

lemma validate_endpoint_metadata_ok:
  "\<exists>errs r. validate_endpoint_metadata md name kind = (errs, Inr r)
    \<and> (errs = [] \<longleftrightarrow> endpoint_metadata_ok md kind) \<and> (r = None \<longleftrightarrow> errs \<noteq> [])"
proof (cases "epm_content_type md")
  case None
  then show ?thesis
    by (cases kind) (auto simp: validate_endpoint_metadata_def endpoint_metadata_ok_def Let_def)
next
  case (Some ct)
  then show ?thesis
  proof (cases "content_type_from_str ct")
    case None
    then have "\<forall>v. ct \<noteq> as_static_str v" using content_type_from_str_None_iff by blast
    then show ?thesis
      using Some None by (auto simp: validate_endpoint_metadata_def endpoint_metadata_ok_def Let_def)
  next
    case (Some v)
    then have "ct = as_static_str v" by (simp add: content_type_from_str_Some_iff)
    then show ?thesis
      using Some \<open>epm_content_type md = Some ct\<close>
      by (cases kind) (auto simp: validate_endpoint_metadata_def endpoint_metadata_ok_def Let_def)
  qed
qed

lemma validate_endpoint_metadata_fields:
  assumes "validate_endpoint_metadata md name kind = (errs, Inr (Some vm))"
  shows "errs = []" "vm_operation_id vm = epm_operation_id md" "vm_method vm = epm_method md"
    "vm_path vm = epm_path md" "vm_tags vm = epm_tags md" "vm_unpublished vm = epm_unpublished md"
    "vm_deprecated vm = epm_deprecated md" "vm_request_body_max_bytes vm = epm_request_body_max_bytes md"
    "as_static_str (vm_content_type vm) = unwrap_or (epm_content_type md) ''application/json''"
    "vm_versions vm = unwrap_or (epm_versions md) RangeAll"
  using assms
  by (auto simp: validate_endpoint_metadata_def Let_def unwrap_or_def content_type_from_str_Some_iff
      APPLICATION_JSON_def split: option.splits if_splits)

lemma validate_endpoint_metadata_published:
  assumes "validate_endpoint_metadata md name kind = (errs, Inr (Some vm))" "\<not> vm_unpublished vm"
    and "template_of (vm_path vm) = Inr t"
  shows "VarnameWildcard x \<notin> set t"
proof -
  note f = validate_endpoint_metadata_fields[OF assms(1)]
  have "endpoint_metadata_ok md kind"
    using validate_endpoint_metadata_ok[of md name kind] assms(1) f(1) by auto
  then have "\<not> contains_str '':.*}'' (vm_path vm)"
    using assms(2) f by (simp add: endpoint_metadata_ok_def)
  then show ?thesis using wildcard_template_contains assms(3) by blast
qed

text \<open>A channel is a GET endpoint without a body limit, and its path has no wildcard.\<close>

lemma validate_channel_metadata_ok:
  "\<exists>errs r. validate_channel_metadata cm name kind = (errs, r)
    \<and> (errs = [] \<longleftrightarrow> (kind = FunctionMacro \<or> cm_dropshot_crate cm = None) \<and> \<not> is_wildcard_path (cm_path cm))
    \<and> (r = None \<longleftrightarrow> errs \<noteq> [])"
  by (cases kind) (auto simp: validate_channel_metadata_def Let_def)

lemma validate_channel_metadata_fields:
  assumes "validate_channel_metadata cm name kind = (errs, Some (ValidatedChannelMetadata vm))"
  shows "errs = []" "vm_operation_id vm = cm_operation_id cm" "vm_method vm = GET" "vm_path vm = cm_path cm"
    "vm_tags vm = cm_tags cm" "vm_unpublished vm = cm_unpublished cm" "vm_deprecated vm = cm_deprecated cm"
    "vm_request_body_max_bytes vm = None" "vm_content_type vm = ApplicationJson"
    "vm_versions vm = unwrap_or (cm_versions cm) RangeAll" "\<not> is_wildcard_path (cm_path cm)"
  using assms by (auto simp: validate_channel_metadata_def Let_def unwrap_or_def split: if_splits)

lemma validate_channel_metadata_no_wildcard:
  assumes "validate_channel_metadata cm name kind = (errs, Some (ValidatedChannelMetadata vm))"
    and "template_of (vm_path vm) = Inr t"
  shows "VarnameWildcard x \<notin> set t"
  using validate_channel_metadata_fields(4,11)[OF assms(1)] wildcard_template_contains[OF assms(2)]
  by (auto simp: is_wildcard_path_def)

text \<open>The generated code builds the endpoint that arguments, documentation and handler describe.\<close>

lemma generated_code_correct:
  assumes "semver_ok L" "validate_endpoint_metadata md name kind = (errs, Inr (Some vm))"
    and "\<And>r. epm_versions md = Some r \<Longrightarrow> \<exists>toks rest. parse_version_range L syn_path toks = Inr (r, rest)"
  shows "\<exists>code bct. to_api_endpoint_fn L vm name ekind doc = Inr code
    \<and> from_mime_type (unwrap_or (epm_content_type md) ''application/json'') = Inr bct
    \<and> run_endpoint_code L env code =
        rbind (declared_versions env (unwrap_or (epm_versions md) RangeAll)) (\<lambda>vs.
          Inr (declared_endpoint env vm name ekind doc bct vs))
    \<and> (literal_range (unwrap_or (epm_versions md) RangeAll) \<longrightarrow> is_ok (run_endpoint_code L env code))"
proof -
  let ?bct = "body_content_type_of (vm_content_type vm)"
  let ?r = "unwrap_or (epm_versions md) RangeAll"
  note f = validate_endpoint_metadata_fields[OF assms(2)]
  have wf: "range_wf L ?r"
    using assms(3) parse_version_range_wf by (cases "epm_versions md") (auto simp: unwrap_or_def)
  obtain c where c: "versions_expr L ?r = Inr c" "run_versions L env c = declared_versions env ?r"
    using run_versions_expr[OF assms(1) wf] by blast
  obtain code where "to_api_endpoint_fn L vm name ekind doc = Inr code" "run_endpoint_code L env code =
      rbind (declared_versions env ?r) (\<lambda>vs. Inr (declared_endpoint env vm name ekind doc ?bct vs))"
    using to_api_endpoint_fn_correct[OF _ _ from_mime_type_static, of L vm c env name ekind doc] c f(10) by auto
  moreover have "from_mime_type (unwrap_or (epm_content_type md) ''application/json'') = Inr ?bct"
    using from_mime_type_static f(9) by metis
  ultimately show ?thesis
    using declared_versions_literal[OF wf, of env] by (auto simp: is_ok_iff)
qed

text \<open>The endpoint that arguments, documentation and a handler describe.\<close>

definition described_by ::
  "('f, 't, 'x, 'h, 'g, 'v::linorder) code_env \<Rightarrow> ('f, 't) api_endpoint_kind \<Rightarrow> ('x, 'v) endpoint_metadata
    \<Rightarrow> string \<Rightarrow> extracted_doc \<Rightarrow> 'v api_endpoint_versions \<Rightarrow> ('h, 'g, 'v) api_endpoint \<Rightarrow> bool" where
  "described_by env kind md name doc vs e \<longleftrightarrow>
    from_mime_type (unwrap_or (epm_content_type md) ''application/json'') = Inr (body_content_type e)
    \<and> e = \<lparr> operation_id = unwrap_or (epm_operation_id md) name,
        handler = kind_handler env kind (unwrap_or (epm_operation_id md) name),
        method = method_as_str (epm_method md), path = epm_path md,
        parameters = em_parameters (ht_parameters (kind_types env kind) (body_content_type e)),
        body_content_type = body_content_type e,
        request_body_max_bytes = map_option (env_max_bytes env) (epm_request_body_max_bytes md),
        ep_response = ht_response (kind_types env kind), ep_error = ht_error (kind_types env kind),
        summary = doc_summary doc, description = doc_description doc, tags = epm_tags md,
        extension_mode = em_extension_mode (ht_parameters (kind_types env kind) (body_content_type e)),
        visible = (\<not> epm_unpublished md), deprecated = epm_deprecated md, versions = vs \<rparr>"

text \<open>What a described endpoint is.\<close>

lemma described_by_fields:
  assumes "described_by env kind md name doc vs e"
  shows "operation_id e = unwrap_or (epm_operation_id md) name" "method e = method_as_str (epm_method md)"
    "handler e = kind_handler env kind (unwrap_or (epm_operation_id md) name)" "path e = epm_path md"
    "request_body_max_bytes e = map_option (env_max_bytes env) (epm_request_body_max_bytes md)"
    "visible e = (\<not> epm_unpublished md)" "versions e = vs"
proof -
  have "\<exists>bct. e = \<lparr> operation_id = unwrap_or (epm_operation_id md) name,
        handler = kind_handler env kind (unwrap_or (epm_operation_id md) name),
        method = method_as_str (epm_method md), path = epm_path md,
        parameters = em_parameters (ht_parameters (kind_types env kind) bct), body_content_type = bct,
        request_body_max_bytes = map_option (env_max_bytes env) (epm_request_body_max_bytes md),
        ep_response = ht_response (kind_types env kind), ep_error = ht_error (kind_types env kind),
        summary = doc_summary doc, description = doc_description doc, tags = epm_tags md,
        extension_mode = em_extension_mode (ht_parameters (kind_types env kind) bct),
        visible = (\<not> epm_unpublished md), deprecated = epm_deprecated md, versions = vs \<rparr>"
    using assms unfolding described_by_def by blast
  then show "operation_id e = unwrap_or (epm_operation_id md) name" "method e = method_as_str (epm_method md)"
    "handler e = kind_handler env kind (unwrap_or (epm_operation_id md) name)" "path e = epm_path md"
    "request_body_max_bytes e = map_option (env_max_bytes env) (epm_request_body_max_bytes md)"
    "visible e = (\<not> epm_unpublished md)" "versions e = vs"
    by auto
qed

lemma declared_versions_wf: "declared_versions env r = Inr vs \<Longrightarrow> versions_wf vs"
  by (cases r) (auto split: if_splits)

text \<open>Code that builds this endpoint; it fails when the ends of its version range are in the wrong
  order, which literal ends cannot be.\<close>

definition builds ::
  "'v::linorder semver_lib \<Rightarrow> ('f, 't, 'x) endpoint_code \<Rightarrow> ('f, 't) api_endpoint_kind \<Rightarrow> ('x, 'v) endpoint_metadata
    \<Rightarrow> string \<Rightarrow> extracted_doc \<Rightarrow> ('f, 't, 'x, 'h, 'g, 'v) code_env \<Rightarrow> bool" where
  "builds L code kind md name doc env \<longleftrightarrow>
    (let range = unwrap_or (epm_versions md) RangeAll
     in (\<forall>vs. declared_versions env range = Inr vs \<longrightarrow>
           (\<exists>e. run_endpoint_code L env code = Inr e \<and> described_by env kind md name doc vs e))
        \<and> (\<forall>p. declared_versions env range = Inl p \<longrightarrow> run_endpoint_code L env code = Inl p)
        \<and> (literal_range range \<longrightarrow> is_ok (run_endpoint_code L env code)))"

definition range_parsed :: "'v::linorder semver_lib \<Rightarrow> 'v version_range option \<Rightarrow> bool" where
  "range_parsed L r \<longleftrightarrow>
    (\<forall>range. r = Some range \<longrightarrow> (\<exists>syn_path toks rest. parse_version_range L syn_path toks = Inr (range, rest)))"

lemma construct_spec:
  assumes "semver_ok L" "range_parsed L (epm_versions md)"
    and "validate_endpoint_metadata md name macro_kind = (errs, Inr (Some vm))"
  shows "\<exists>code. to_api_endpoint_fn L vm name kind doc = Inr code \<and> builds L code kind md name doc env"
proof -
  have parsed: "\<exists>syn_path toks rest. parse_version_range L syn_path toks = Inr (r, rest)"
    if "epm_versions md = Some r" for r
    using assms(2) that by (simp add: range_parsed_def)
  obtain syn_path where "\<And>r. epm_versions md = Some r \<Longrightarrow> \<exists>toks rest. parse_version_range L syn_path toks = Inr (r, rest)"
    using parsed by (metis option.inject)
  from generated_code_correct[OF assms(1,3) this, where env = env and ekind = kind]
  show ?thesis
    using validate_endpoint_metadata_fields[OF assms(3)]
    by (fastforce simp: builds_def Let_def described_by_def declared_endpoint_def)
qed

text \<open>The endpoint that a channel is: valid arguments of a channel are valid arguments of this
  endpoint, and the validated forms are the same.\<close>

definition channel_as_endpoint :: "'v channel_metadata \<Rightarrow> ('x, 'v) endpoint_metadata" where
  "channel_as_endpoint cm = \<lparr> epm_operation_id = cm_operation_id cm, epm_method = GET, epm_path = cm_path cm,
    epm_tags = cm_tags cm, epm_unpublished = cm_unpublished cm, epm_deprecated = cm_deprecated cm,
    epm_request_body_max_bytes = None, epm_content_type = None, epm_dropshot_crate = cm_dropshot_crate cm,
    epm_versions = cm_versions cm \<rparr>"

lemma validate_channel_as_endpoint:
  assumes "validate_channel_metadata cm name kind = (errs, Some v)"
  shows "validate_endpoint_metadata (channel_as_endpoint cm) name kind = ([], Inr (Some (channel_inner v)))"
  using assms
  by (auto simp: validate_channel_metadata_def validate_endpoint_metadata_def channel_as_endpoint_def Let_def
      is_wildcard_path_def split: if_splits)

section \<open>Properties\<close>

text \<open>The arguments of the endpoint macro are validated completely: the unreachable branch is
  not reached, errors are reported exactly when the arguments are refused, which is when a trait
  item names a crate, a published path contains a wildcard or the content type is not one of the
  three; and no published endpoint that is accepted has a route template with a wildcard.\<close>

theorem endpoint_metadata_validated:
  "\<exists>errs r. validate_endpoint_metadata md name kind = (errs, Inr r)
    \<and> (errs = [] \<longleftrightarrow> endpoint_metadata_ok md kind) \<and> (r = None \<longleftrightarrow> errs \<noteq> [])
    \<and> (\<forall>vm t x. r = Some vm \<longrightarrow> \<not> vm_unpublished vm \<longrightarrow> template_of (vm_path vm) = Inr t
        \<longrightarrow> VarnameWildcard x \<notin> set t)"
  using validate_endpoint_metadata_ok[of md name kind] validate_endpoint_metadata_published[of md name kind]
  by blast

definition sample_metadata :: "(nat, 64 word \<times> 64 word \<times> 64 word) endpoint_metadata" where
  "sample_metadata = \<lparr> epm_operation_id = None, epm_method = PUT, epm_path = ''/a/{x}'', epm_tags = [''t''],
    epm_unpublished = False, epm_deprecated = True, epm_request_body_max_bytes = Some 7,
    epm_content_type = Some ''multipart/form-data'', epm_dropshot_crate = None,
    epm_versions = Some (RangeFromUntil (VersionLiteral (1, 0, 0)) (VersionIdentifier ''V2'')) \<rparr>"

lemma sample_template: "template_of ''/a/{x}'' = Inr [Literal ''a'', VarnameSegment ''x'']"
  by code_simp

theorem endpoint_metadata_validated_witness:
  "\<exists>vm. validate_endpoint_metadata sample_metadata ''f'' FunctionMacro = ([], Inr (Some vm))
    \<and> \<not> vm_unpublished vm \<and> template_of (vm_path vm) = Inr [Literal ''a'', VarnameSegment ''x'']
    \<and> VarnameWildcard ''x'' \<notin> set [Literal ''a'', VarnameSegment ''x'']"
proof -
  obtain errs r where r: "validate_endpoint_metadata sample_metadata ''f'' FunctionMacro = (errs, Inr r)"
      "errs = [] \<longleftrightarrow> endpoint_metadata_ok sample_metadata FunctionMacro" "r = None \<longleftrightarrow> errs \<noteq> []"
      "\<And>vm t x. r = Some vm \<Longrightarrow> \<not> vm_unpublished vm \<Longrightarrow> template_of (vm_path vm) = Inr t
        \<Longrightarrow> VarnameWildcard x \<notin> set t"
    using endpoint_metadata_validated[of sample_metadata "''f''" FunctionMacro] by blast
  have "endpoint_metadata_ok sample_metadata FunctionMacro"
    by (auto simp: endpoint_metadata_ok_def sample_metadata_def starts_with_def MULTIPART_FORM_DATA_def
        intro!: exI[of _ ValidMultipartFormData])
  then obtain vm where vm: "r = Some vm" "errs = []" using r(2,3) by auto
  then have "\<not> vm_unpublished vm" "vm_path vm = ''/a/{x}''"
    using validate_endpoint_metadata_fields[OF r(1)[unfolded vm(1)]] by (simp_all add: sample_metadata_def)
  then show ?thesis using r(1) r(4)[OF vm(1)] sample_template vm by auto
qed

text \<open>Release versions: three numbers in lexicographic order.  Only one text is a version here.\<close>

definition sample_semver :: "(64 word \<times> 64 word \<times> 64 word) semver_lib" where
  "sample_semver = \<lparr> sv_parse = (\<lambda>s. if s = ''1.0.0'' then Inr (1, 0, 0) else Inl ''bad''),
    sv_new = (\<lambda>a b c. (a, b, c)), sv_major = fst, sv_minor = fst \<circ> snd, sv_patch = snd \<circ> snd,
    sv_pre = (\<lambda>_. []), sv_build = (\<lambda>_. []), sv_display = (\<lambda>_. ''v'') \<rparr>"

text \<open>The path parser takes one identifier here.\<close>

fun sample_path :: "version_token list \<Rightarrow> (string \<times> version_token list) option" where
  "sample_path (IdentToken p # rest) = Some (p, rest)"
| "sample_path _ = None"

lemma sample_range_parsed:
  "parse_version_range sample_semver sample_path [LitStr ''1.0.0'', DotDot, IdentToken ''V2''] =
    Inr (RangeFromUntil (VersionLiteral (1, 0, 0)) (VersionIdentifier ''V2''), [])"
  by (simp add: parse_version_range_def parse_version_specifier_def parse_semver_def sample_semver_def ok_or_def)

end
