(* ===== verification/Error_Store.thy ===== *)
theory Error_Store
  imports Http_Error "HOL-Library.Monad_Syntax"
begin

text \<open>
  The errors of the procedural macros (\<^verbatim>\<open>dropshot_endpoint/src/error_store.rs\<close>): a list of all
  errors and a tree of sinks, each of which knows whether an error was pushed to it or to a
  sink below it.  The tree is a vector of parent indices, and a push climbs it in a loop; the
  loop is a partial function, and that it ends rests on the invariant of the vector.

  The macros use the store through nested sinks that are filled from the outside in.  The
  last section shows that such a use is a list of errors that is passed along, and that
  \<^verbatim>\<open>has_errors\<close> of a new sink is whether that list is empty; the theories on the macros pass
  lists.
\<close>

section \<open>The store\<close>

record error_sink_data =
  sk_parent :: "nat option"
  sk_has_errors :: bool

record 'e error_store_data =
  es_errors :: "'e list"
  es_sinks :: "error_sink_data list"

definition sink_data_new :: "nat option \<Rightarrow> error_sink_data" where
  "sink_data_new parent = \<lparr> sk_parent = parent, sk_has_errors = False \<rparr>"

definition error_store_new :: "'e error_store_data" where
  "error_store_new = \<lparr> es_errors = [], es_sinks = [] \<rparr>"

definition register_sink :: "nat option \<Rightarrow> 'e error_store_data \<Rightarrow> nat \<times> 'e error_store_data" where
  "register_sink parent d =
    (length (es_sinks d), d\<lparr> es_sinks := es_sinks d @ [sink_data_new parent] \<rparr>)"

definition store_sink :: "'e error_store_data \<Rightarrow> nat \<times> 'e error_store_data" where
  "store_sink d = register_sink None d"

definition sink_new :: "nat \<Rightarrow> 'e error_store_data \<Rightarrow> nat \<times> 'e error_store_data" where
  "sink_new i d = register_sink (Some i) d"

definition out_of_bounds :: panic where
  "out_of_bounds = Panic ''index out of bounds''"

text \<open>The loop that propagates an error up the tree.\<close>

partial_function (option) propagate ::
  "error_sink_data list \<Rightarrow> nat \<Rightarrow> error_sink_data list outcome option" where
  "propagate sinks cur =
    (if length sinks \<le> cur then Some (Inl out_of_bounds)
     else
       (case sk_parent (sinks ! cur) of
          None \<Rightarrow> Some (Inr sinks)
        | Some parent \<Rightarrow>
            if length sinks \<le> parent then Some (Inl out_of_bounds)
            else propagate (sinks[parent := (sinks ! parent)\<lparr> sk_has_errors := True \<rparr>]) parent))"

declare propagate.simps [code]

definition error_push :: "nat \<Rightarrow> 'e \<Rightarrow> 'e error_store_data \<Rightarrow> 'e error_store_data outcome option" where
  "error_push i e d =
    (let d' = d\<lparr> es_errors := es_errors d @ [e] \<rparr> in
     if length (es_sinks d') \<le> i then Some (Inl out_of_bounds)
     else
       Option.bind (propagate ((es_sinks d')[i := (es_sinks d' ! i)\<lparr> sk_has_errors := True \<rparr>]) i) (\<lambda>r.
         Some (rbind r (\<lambda>sinks. Inr (d'\<lparr> es_sinks := sinks \<rparr>)))))"

definition has_errors :: "nat \<Rightarrow> 'e error_store_data \<Rightarrow> bool outcome" where
  "has_errors i d =
    (if i < length (es_sinks d) then Inr (sk_has_errors (es_sinks d ! i)) else Inl out_of_bounds)"

section \<open>The tree of sinks\<close>

text \<open>A parent is registered before its children, and a sink with errors has parents with
  errors.\<close>

definition sinks_wf :: "error_sink_data list \<Rightarrow> bool" where
  "sinks_wf sinks \<longleftrightarrow>
    (\<forall>i p. i < length sinks \<longrightarrow> sk_parent (sinks ! i) = Some p \<longrightarrow> p < i)"

definition below :: "error_sink_data list \<Rightarrow> nat \<Rightarrow> nat \<Rightarrow> bool" where
  "below sinks i j \<longleftrightarrow> i < length sinks \<and> sk_parent (sinks ! i) = Some j"

text \<open>\<open>descends sinks i j\<close>: \<open>i\<close> is \<open>j\<close> or below it.\<close>

abbreviation descends :: "error_sink_data list \<Rightarrow> nat \<Rightarrow> nat \<Rightarrow> bool" where
  "descends sinks \<equiv> (below sinks)\<^sup>*\<^sup>*"

definition same_tree :: "error_sink_data list \<Rightarrow> error_sink_data list \<Rightarrow> bool" where
  "same_tree sinks sinks' \<longleftrightarrow>
    length sinks' = length sinks \<and> (\<forall>i < length sinks. sk_parent (sinks' ! i) = sk_parent (sinks ! i))"

lemma same_tree_below: "same_tree sinks sinks' \<Longrightarrow> below sinks' = below sinks"
  by (auto simp: same_tree_def below_def fun_eq_iff)

lemma same_tree_wf: "same_tree sinks sinks' \<Longrightarrow> sinks_wf sinks \<Longrightarrow> sinks_wf sinks'"
  by (auto simp: same_tree_def sinks_wf_def)

lemma same_tree_refl [simp]: "same_tree sinks sinks"
  by (simp add: same_tree_def)

lemma same_tree_trans: "same_tree a b \<Longrightarrow> same_tree b c \<Longrightarrow> same_tree a c"
  by (auto simp: same_tree_def)

lemma same_tree_mark [simp]: "same_tree sinks (sinks[i := (sinks ! i)\<lparr> sk_has_errors := True \<rparr>])"
proof -
  have "sk_parent (sinks[i := (sinks ! i)\<lparr> sk_has_errors := True \<rparr>] ! j) = sk_parent (sinks ! j)"
    if "j < length sinks" for j
    using that by (cases "i = j") simp_all
  then show ?thesis by (simp add: same_tree_def)
qed

lemma descends_cases: "descends sinks i j \<longleftrightarrow> i = j \<or> (\<exists>p. below sinks i p \<and> descends sinks p j)"
  by (metis converse_rtranclpE converse_rtranclp_into_rtranclp rtranclp.rtrancl_refl)

text \<open>The loop marks the proper ancestors of a sink and ends at the root.\<close>

lemma propagate_spec:
  assumes "sinks_wf sinks" "cur < length sinks"
  shows "\<exists>sinks'. propagate sinks cur = Some (Inr sinks') \<and> same_tree sinks sinks'
    \<and> (\<forall>j < length sinks. sk_has_errors (sinks' ! j) \<longleftrightarrow>
         sk_has_errors (sinks ! j) \<or> (\<exists>p. below sinks cur p \<and> descends sinks p j))"
  using assms
proof (induction cur arbitrary: sinks rule: less_induct)
  case (less cur)
  show ?case
  proof (cases "sk_parent (sinks ! cur)")
    case None
    then show ?thesis using less(3) by (subst propagate.simps) (auto simp: below_def)
  next
    case (Some p)
    let ?marked = "sinks[p := (sinks ! p)\<lparr> sk_has_errors := True \<rparr>]"
    have p: "p < cur" "p < length sinks" using less(2,3) Some by (auto simp: sinks_wf_def)
    have "sinks_wf ?marked" by (rule same_tree_wf[OF same_tree_mark less(2)])
    then obtain sinks' where IH: "propagate ?marked p = Some (Inr sinks')" "same_tree ?marked sinks'"
        "\<And>j. j < length sinks \<Longrightarrow> sk_has_errors (sinks' ! j) \<longleftrightarrow>
           sk_has_errors (?marked ! j) \<or> (\<exists>q. below sinks p q \<and> descends sinks q j)"
      using less(1)[OF p(1), of ?marked] p(2) same_tree_below[OF same_tree_mark] by auto
    have up: "below sinks cur q \<longleftrightarrow> q = p" for q using Some less(3) by (auto simp: below_def)
    have "sk_has_errors (sinks' ! j) \<longleftrightarrow>
        sk_has_errors (sinks ! j) \<or> (\<exists>q. below sinks cur q \<and> descends sinks q j)"
      if "j < length sinks" for j
      using IH(3)[OF that] that p(2) descends_cases[of sinks p j] unfolding up
      by (auto simp: nth_list_update)
    moreover have "propagate sinks cur = Some (Inr sinks')"
      using less(3) Some p(2) IH(1) by (subst propagate.simps) simp
    ultimately show ?thesis using same_tree_trans[OF same_tree_mark IH(2)] by blast
  qed
qed

lemma error_push_spec:
  assumes "sinks_wf (es_sinks d)" "i < length (es_sinks d)"
  shows "\<exists>d'. error_push i e d = Some (Inr d') \<and> es_errors d' = es_errors d @ [e]
    \<and> same_tree (es_sinks d) (es_sinks d')
    \<and> (\<forall>j < length (es_sinks d). sk_has_errors (es_sinks d' ! j) \<longleftrightarrow>
         sk_has_errors (es_sinks d ! j) \<or> descends (es_sinks d) i j)"
proof -
  let ?sinks = "es_sinks d"
  let ?marked = "?sinks[i := (?sinks ! i)\<lparr> sk_has_errors := True \<rparr>]"
  have "sinks_wf ?marked" by (rule same_tree_wf[OF same_tree_mark assms(1)])
  then obtain sinks' where sinks': "propagate ?marked i = Some (Inr sinks')" "same_tree ?marked sinks'"
      "\<And>j. j < length ?sinks \<Longrightarrow> sk_has_errors (sinks' ! j) \<longleftrightarrow>
         sk_has_errors (?marked ! j) \<or> (\<exists>p. below ?sinks i p \<and> descends ?sinks p j)"
    using propagate_spec[of ?marked i] assms(2) same_tree_below[OF same_tree_mark] by auto
  have "sk_has_errors (sinks' ! j) \<longleftrightarrow> sk_has_errors (?sinks ! j) \<or> descends ?sinks i j" if "j < length ?sinks" for j
    using sinks'(3)[OF that] that assms(2) descends_cases[of ?sinks i j] by (auto simp: nth_list_update)
  then show ?thesis
    using sinks'(1) assms(2) same_tree_trans[OF same_tree_mark sinks'(2)] by (simp add: error_push_def Let_def)
qed

section \<open>The use of nested sinks\<close>

text \<open>What a macro does with a sink: it pushes errors, and it opens a sink below it that it fills
  and then drops.\<close>

datatype 'e sink_action = Push 'e | Nested "'e sink_action list"

fun pushed :: "'e sink_action \<Rightarrow> 'e list" where
  "pushed (Push e) = [e]"
| "pushed (Nested acts) = concat (map pushed acts)"

definition obind ::
  "'e error_store_data outcome option \<Rightarrow> ('e error_store_data \<Rightarrow> 'e error_store_data outcome option)
    \<Rightarrow> 'e error_store_data outcome option" where
  "obind r f = Option.bind r (\<lambda>v. case v of Inl p \<Rightarrow> Some (Inl p) | Inr d \<Rightarrow> f d)"

fun act :: "nat \<Rightarrow> 'e sink_action \<Rightarrow> 'e error_store_data \<Rightarrow> 'e error_store_data outcome option"
  and act_all :: "nat \<Rightarrow> 'e sink_action list \<Rightarrow> 'e error_store_data \<Rightarrow> 'e error_store_data outcome option" where
  "act i (Push e) d = error_push i e d"
| "act i (Nested acts) d = (let (c, d') = sink_new i d in act_all c acts d')"
| "act_all i [] d = Some (Inr d)"
| "act_all i (a # acts) d = obind (act i a d) (act_all i acts)"

text \<open>The state after a use: the errors are appended in order, no sink is lost, and the sinks that
  were there before have errors if they had, or if something was pushed below them.\<close>

definition filled :: "nat \<Rightarrow> 'e list \<Rightarrow> 'e error_store_data \<Rightarrow> 'e error_store_data \<Rightarrow> bool" where
  "filled i es d d' \<longleftrightarrow>
    sinks_wf (es_sinks d') \<and> es_errors d' = es_errors d @ es
    \<and> length (es_sinks d) \<le> length (es_sinks d')
    \<and> (\<forall>j < length (es_sinks d). sk_parent (es_sinks d' ! j) = sk_parent (es_sinks d ! j)
        \<and> (sk_has_errors (es_sinks d' ! j) \<longleftrightarrow>
             sk_has_errors (es_sinks d ! j) \<or> (es \<noteq> [] \<and> descends (es_sinks d) i j)))"

text \<open>More sinks do not change who is below whom among the old ones.\<close>

lemma descends_extend:
  assumes "sinks_wf sinks" "sinks_wf sinks'" "length sinks \<le> length sinks'" "i < length sinks"
    and "\<And>j. j < length sinks \<Longrightarrow> sk_parent (sinks' ! j) = sk_parent (sinks ! j)"
  shows "descends sinks' i j \<longleftrightarrow> descends sinks i j"
  using assms(4)
proof (induction i arbitrary: j rule: less_induct)
  case (less i)
  have up: "below sinks' i p \<longleftrightarrow> below sinks i p" for p
    using assms(3,5) less(2) by (auto simp: below_def)
  have "descends sinks' p j \<longleftrightarrow> descends sinks p j" if "below sinks i p" for p
  proof (rule less(1))
    show "p < i" using that assms(1) by (auto simp: below_def sinks_wf_def)
    then show "p < length sinks" using less(2) by simp
  qed
  then have "(i = j \<or> (\<exists>p. below sinks' i p \<and> descends sinks' p j)) \<longleftrightarrow>
      (i = j \<or> (\<exists>p. below sinks i p \<and> descends sinks p j))"
    unfolding up by blast
  then show ?case using descends_cases[of sinks' i j] descends_cases[of sinks i j] by (simp only:)
qed

lemma filled_same: "sinks_wf (es_sinks d) \<Longrightarrow> filled i [] d d"
  by (simp add: filled_def)

lemma filled_trans:
  assumes "sinks_wf (es_sinks d)" "i < length (es_sinks d)" "filled i es d d1" "filled i es' d1 d2"
  shows "filled i (es @ es') d d2"
proof -
  have "descends (es_sinks d1) i j \<longleftrightarrow> descends (es_sinks d) i j" for j
    using assms(1-3) by (intro descends_extend) (auto simp: filled_def)
  then show ?thesis using assms(3,4) by (auto simp: filled_def)
qed

lemma filled_push:
  assumes "sinks_wf (es_sinks d)" "i < length (es_sinks d)"
  shows "\<exists>d'. error_push i e d = Some (Inr d') \<and> filled i [e] d d'"
  using error_push_spec[OF assms, of e] assms(1) same_tree_wf
  by (fastforce simp: filled_def same_tree_def)

lemma sink_new_wf:
  assumes "sinks_wf (es_sinks d)" "i < length (es_sinks d)" "sink_new i d = (c, d1)"
  shows "c = length (es_sinks d)" "es_sinks d1 = es_sinks d @ [sink_data_new (Some i)]"
    "es_errors d1 = es_errors d" "sinks_wf (es_sinks d1)" "c < length (es_sinks d1)"
  using assms
  by (auto simp: sink_new_def register_sink_def sinks_wf_def nth_append sink_data_new_def less_Suc_eq)

text \<open>A new sink below \<open>i\<close> is filled: the same was filled into \<open>i\<close>.\<close>

lemma filled_nested:
  assumes "sinks_wf (es_sinks d)" "i < length (es_sinks d)" "sink_new i d = (c, d1)" "filled c es d1 d2"
  shows "filled i es d d2" and "sinks_wf (es_sinks d1)" and "c < length (es_sinks d1)"
    and "sk_has_errors (es_sinks d2 ! c) \<longleftrightarrow> es \<noteq> []"
proof -
  note c = sink_new_wf(1-3)[OF assms(1-3)] and wf = sink_new_wf(4)[OF assms(1-3)]
  show "sinks_wf (es_sinks d1)" "c < length (es_sinks d1)" using wf c by simp_all
  have "descends (es_sinks d1) i j \<longleftrightarrow> descends (es_sinks d) i j" for j
    by (intro descends_extend assms wf) (auto simp: c nth_append)
  moreover have "below (es_sinks d1) c p \<longleftrightarrow> p = i" for p
    by (auto simp: below_def c sink_data_new_def)
  ultimately have "descends (es_sinks d1) c j \<longleftrightarrow> j = c \<or> descends (es_sinks d) i j" for j
    using descends_cases[of "es_sinks d1" c j] by auto
  then show "filled i es d d2" and "sk_has_errors (es_sinks d2 ! c) \<longleftrightarrow> es \<noteq> []"
    using assms(4) by (auto simp: filled_def c nth_append sink_data_new_def)
qed

lemma act_filled:
  shows "sinks_wf (es_sinks d) \<Longrightarrow> i < length (es_sinks d) \<Longrightarrow>
      \<exists>d'. act i a d = Some (Inr d') \<and> filled i (pushed a) d d'"
    and "sinks_wf (es_sinks d) \<Longrightarrow> i < length (es_sinks d) \<Longrightarrow>
      \<exists>d'. act_all i acts d = Some (Inr d') \<and> filled i (concat (map pushed acts)) d d'"
proof (induction i a d and i acts d rule: act_act_all.induct)
  case (1 i e d)
  then show ?case using filled_push by simp
next
  case (2 i acts d)
  obtain c d1 where new: "sink_new i d = (c, d1)" by fastforce
  note d1 = sink_new_wf(4,5)[OF 2(2,3) new]
  then obtain d2 where "act_all c acts d1 = Some (Inr d2)" "filled c (concat (map pushed acts)) d1 d2"
    using 2(1)[OF new[symmetric] refl] by blast
  then show ?case using filled_nested(1)[OF 2(2,3) new] new by simp
next
  case (3 i d)
  then show ?case using filled_same by simp
next
  case (4 i a acts d)
  obtain d1 where d1: "act i a d = Some (Inr d1)" "filled i (pushed a) d d1" using 4 by blast
  then have "sinks_wf (es_sinks d1)" "i < length (es_sinks d1)" using 4(4) by (auto simp: filled_def)
  then obtain d2 where "act_all i acts d1 = Some (Inr d2)" "filled i (concat (map pushed acts)) d1 d2"
    using 4(2) d1(1) by blast
  then show ?case using filled_trans[OF 4(3,4) d1(2)] d1(1) by (simp add: obind_def)
qed

section \<open>Properties\<close>

text \<open>C33. A sink below an existing one collects what is pushed to it and below it: nothing panics
  and every loop ends, the errors join those of the store in the order of the pushes, and the
  sink has errors exactly when there was a push, whichever other sinks have errors already.\<close>

theorem nested_sink_collects:
  assumes "sinks_wf (es_sinks d)" "i < length (es_sinks d)" "sink_new i d = (c, d1)"
  shows "\<exists>d2. act_all c acts d1 = Some (Inr d2)
    \<and> es_errors d2 = es_errors d @ concat (map pushed acts)
    \<and> has_errors c d2 = Inr (concat (map pushed acts) \<noteq> [])
    \<and> has_errors i d2 = Inr (sk_has_errors (es_sinks d ! i) \<or> concat (map pushed acts) \<noteq> [])
    \<and> sinks_wf (es_sinks d2)"
proof -
  note d1 = sink_new_wf(4,5,3)[OF assms]
  then obtain d2 where d2: "act_all c acts d1 = Some (Inr d2)" "filled c (concat (map pushed acts)) d1 d2"
    using act_filled(2) by blast
  note nested = filled_nested[OF assms d2(2)]
  have "c < length (es_sinks d2)" "sinks_wf (es_sinks d2)" using d2(2) d1(2) by (auto simp: filled_def)
  moreover have "i < length (es_sinks d2)
      \<and> (sk_has_errors (es_sinks d2 ! i) \<longleftrightarrow> sk_has_errors (es_sinks d ! i) \<or> concat (map pushed acts) \<noteq> [])"
    using nested(1) assms(2) by (auto simp: filled_def)
  ultimately show ?thesis
    using d2 nested(1,4) by (auto simp: has_errors_def filled_def)
qed

theorem nested_sink_collects_witness:
  "\<exists>d2. act_all 2 [Push ''b'', Nested [Push ''c'']]
        \<lparr> es_errors = [''a''], es_sinks = [\<lparr> sk_parent = None, sk_has_errors = True \<rparr>, sink_data_new (Some 0),
            sink_data_new (Some 1)] \<rparr> = Some (Inr d2)
    \<and> es_errors d2 = [''a'', ''b'', ''c''] \<and> has_errors 2 d2 = Inr True \<and> has_errors 1 d2 = Inr True
    \<and> sinks_wf (es_sinks d2)"
proof -
  let ?d = "\<lparr> es_errors = [''a''], es_sinks = [\<lparr> sk_parent = None, sk_has_errors = True \<rparr>, sink_data_new (Some 0)] \<rparr>"
  have "sinks_wf (es_sinks ?d)"
    by (auto simp: sinks_wf_def sink_data_new_def less_Suc_eq numeral_2_eq_2)
  from nested_sink_collects[OF this, of 1 2 _ "[Push ''b'', Nested [Push ''c'']]"] show ?thesis
    by (simp add: sink_new_def register_sink_def sink_data_new_def)
qed

end
