(* ===== verification/Macro_Params.thy ===== *)
theory Macro_Params
  imports Macro_Metadata Error_Store
begin

text \<open>
  Signatures of handlers (\<^verbatim>\<open>dropshot_endpoint/src/params.rs\<close>, and \<^verbatim>\<open>EndpointParams\<close> of \<^verbatim>\<open>endpoint.rs\<close>):
  which functions the macros accept, the request context, extractors and result that they find
  in the signature, and the types and arguments of the code that is generated from it.

  The syntax tree is the part of \<^verbatim>\<open>syn\<close>'s that the code looks into: paths with their qualified
  self type and their generic arguments.  Every other type, argument or bound is given by the
  nodes below it in the order of \<^verbatim>\<open>syn\<close>'s traversal; attributes of types are left out.  As in
  \<^verbatim>\<open>Macro_Metadata\<close>, an error sink is the list of the errors pushed to it.
\<close>

section \<open>Syntax\<close>

datatype syn_type =
    TypePath syn_qself bool "syn_segment list"
  | TypeImplTrait string
  | TypeOther string "syn_node list"
and syn_qself = NoQself | Qself syn_type nat
and syn_segment = SynSegment string path_arguments
and path_arguments =
    ArgumentsNone
  | AngleBracketed "generic_argument list"
  | Parenthesized "syn_node list"
and generic_argument = ArgType syn_type | ArgOther string "syn_node list"
and syn_node =
    NodeType syn_type
  | NodeIdent string
  | NodeLifetime string
  | NodeBoundLifetimes string

datatype fn_arg = Receiver | Typed syn_type

datatype return_type = ReturnDefault | ReturnType syn_type

datatype safety = SafetySafe | SafetyUnsafe | SafetyDefault

record signature =
  sig_constness :: bool
  sig_asyncness :: bool
  sig_safety :: safety
  sig_abi :: "string option"
  sig_ident :: string
  sig_generics :: "string list"
  sig_where_clause :: "string list option"
  sig_inputs :: "fn_arg list"
  sig_variadic :: bool
  sig_output :: return_type

text \<open>The nodes directly below a node, in the order in which \<^verbatim>\<open>syn\<close> visits them.\<close>

fun qself_nodes :: "syn_qself \<Rightarrow> syn_node list" where
  "qself_nodes NoQself = []"
| "qself_nodes (Qself ty _) = [NodeType ty]"

fun generic_argument_nodes :: "generic_argument \<Rightarrow> syn_node list" where
  "generic_argument_nodes (ArgType ty) = [NodeType ty]"
| "generic_argument_nodes (ArgOther _ ns) = ns"

fun arguments_nodes :: "path_arguments \<Rightarrow> syn_node list" where
  "arguments_nodes ArgumentsNone = []"
| "arguments_nodes (AngleBracketed args) = concat (map generic_argument_nodes args)"
| "arguments_nodes (Parenthesized ns) = ns"

fun segment_nodes :: "syn_segment \<Rightarrow> syn_node list" where
  "segment_nodes (SynSegment ident args) = NodeIdent ident # arguments_nodes args"

fun children :: "syn_node \<Rightarrow> syn_node list" where
  "children (NodeType (TypePath q _ segs)) = qself_nodes q @ concat (map segment_nodes segs)"
| "children (NodeType (TypeImplTrait _)) = []"
| "children (NodeType (TypeOther _ ns)) = ns"
| "children _ = []"

lemma qself_nodes_size: "n \<in> set (qself_nodes q) \<Longrightarrow> size n \<le> Suc (size q)"
  by (cases q) auto

lemma generic_argument_nodes_size: "n \<in> set (generic_argument_nodes a) \<Longrightarrow> size n \<le> Suc (size a)"
  by (cases a) (auto dest!: size_list_estimation'[where f = size, OF _ order_refl])

lemma arguments_nodes_size: "n \<in> set (arguments_nodes args) \<Longrightarrow> size n \<le> size args"
proof (cases args)
  case (AngleBracketed as)
  assume "n \<in> set (arguments_nodes args)"
  then obtain a where a: "a \<in> set as" "n \<in> set (generic_argument_nodes a)" using AngleBracketed by auto
  then show ?thesis
    using generic_argument_nodes_size[OF a(2)] size_list_estimation'[OF a(1), of "size a" size] AngleBracketed by simp
qed (auto dest: size_list_estimation'[where f = size, OF _ order_refl])

lemma segment_nodes_size: "n \<in> set (segment_nodes s) \<Longrightarrow> size n \<le> Suc (size s)"
  by (cases s) (auto dest: arguments_nodes_size)

lemma children_size: "m \<in> set (children n) \<Longrightarrow> size m < size n"
proof (induction n rule: children.induct)
  case (1 q l segs)
  show ?case
  proof (cases "m \<in> set (qself_nodes q)")
    case True
    then show ?thesis using qself_nodes_size[OF True] by simp
  next
    case False
    then obtain s where s: "s \<in> set segs" "m \<in> set (segment_nodes s)" using 1 by auto
    then show ?thesis
      using segment_nodes_size[OF s(2)] size_list_estimation'[OF s(1), of "size s" size] by simp
  qed
qed (auto dest: size_list_estimation'[where f = size, OF _ order_refl])

section \<open>The visitor\<close>

datatype param_ty_kind = ParamRequestContext | ParamExtractor | ParamReturn | ParamWebsocketConn

fun param_ty_kind_display :: "param_ty_kind \<Rightarrow> string" where
  "param_ty_kind_display ParamRequestContext = ''RequestContext''"
| "param_ty_kind_display ParamExtractor = ''extractor''"
| "param_ty_kind_display ParamReturn = ''return type''"
| "param_ty_kind_display ParamWebsocketConn = ''WebsocketConnection''"

definition must_not :: "string \<Rightarrow> string \<Rightarrow> param_ty_kind \<Rightarrow> string" where
  "must_not what name_str kind =
    ''endpoint `'' @ name_str @ ''` must not have '' @ what @ '' in '' @ param_ty_kind_display kind"

text \<open>The overridden methods of the visitor; every other node is visited by visiting what is below
  it, and nothing below an overridden node is visited.\<close>

function visit_node :: "param_ty_kind \<Rightarrow> string \<Rightarrow> syn_node \<Rightarrow> string list" where
  "visit_node kind name_str n =
    (case n of
       NodeBoundLifetimes _ \<Rightarrow> [must_not ''lifetime bounds'' name_str kind]
     | NodeLifetime ident \<Rightarrow>
         if ident \<noteq> ''static'' then [must_not ''lifetime parameters'' name_str kind] else []
     | NodeIdent ident \<Rightarrow> if ident = ''Self'' then [must_not ''`Self`'' name_str kind] else []
     | NodeType ty \<Rightarrow>
         (case ty of
            TypeImplTrait _ \<Rightarrow> [must_not ''impl Trait'' name_str kind]
          | _ \<Rightarrow> concat (map (visit_node kind name_str) (children n))))"
  by pat_completeness auto
termination by (relation "measure (\<lambda>(_, _, n). size n)") (auto dest!: children_size simp del: children.simps)

declare visit_node.simps [simp del]

definition validate_param_ty :: "syn_type \<Rightarrow> param_ty_kind \<Rightarrow> string \<Rightarrow> syn_type option checked" where
  "validate_param_ty ty kind name_str =
    (let errors = visit_node kind name_str (NodeType ty)
     in (errors, if errors = [] then Some ty else None))"

section \<open>The request context\<close>

datatype rqctx_kind = RqctxFunctionKind | RqctxTraitKind (trait_ident: string) (context_ident: string)

fun to_error_message :: "rqctx_kind \<Rightarrow> string \<Rightarrow> string" where
  "to_error_message RqctxFunctionKind name_str =
    ''endpoint `'' @ name_str @ ''` must accept a RequestContext<T> as its first argument''"
| "to_error_message (RqctxTraitKind _ ctx) name_str =
    ''endpoint `'' @ name_str @ ''` must accept RequestContext<Self::'' @ ctx @ ''> as its first argument''"

datatype rqctx_ty_error =
    NotTypePath
  | NoPathSegments
  | ArgsNotAngleBracketed
  | IncorrectTypeArgCount nat
  | ArgNotType

definition extract_rqctx_param :: "syn_type \<Rightarrow> (rqctx_ty_error, syn_type option) result" where
  "extract_rqctx_param ty =
    (case ty of
       TypePath _ _ segments \<Rightarrow>
         if segments = [] then Inl NoPathSegments
         else
           (case last segments of
              SynSegment _ arguments \<Rightarrow>
                (case arguments of
                   ArgumentsNone \<Rightarrow> Inr None
                 | AngleBracketed args \<Rightarrow>
                     if length args \<noteq> 1 then Inl (IncorrectTypeArgCount (length args))
                     else (case hd args of ArgType tp \<Rightarrow> Inr (Some tp) | ArgOther _ _ \<Rightarrow> Inl ArgNotType)
                 | Parenthesized _ \<Rightarrow> Inl ArgsNotAngleBracketed))
     | _ \<Rightarrow> Inl NotTypePath)"

text \<open>A mutable reference is what it refers to, and the type after writing through it.\<close>

definition extract_rqctx_param_mut ::
  "syn_type \<Rightarrow> (rqctx_ty_error, (syn_type \<times> (syn_type \<Rightarrow> syn_type)) option) result" where
  "extract_rqctx_param_mut ty =
    (case ty of
       TypePath q leading segments \<Rightarrow>
         if segments = [] then Inl NoPathSegments
         else
           (case last segments of
              SynSegment ident arguments \<Rightarrow>
                (case arguments of
                   ArgumentsNone \<Rightarrow> Inr None
                 | AngleBracketed args \<Rightarrow>
                     if length args \<noteq> 1 then Inl (IncorrectTypeArgCount (length args))
                     else
                       (case hd args of
                          ArgType tp \<Rightarrow>
                            Inr (Some (tp, \<lambda>t. TypePath q leading
                              (butlast segments @ [SynSegment ident (AngleBracketed [ArgType t])])))
                        | ArgOther _ _ \<Rightarrow> Inl ArgNotType)
                 | Parenthesized _ \<Rightarrow> Inl ArgsNotAngleBracketed))
     | _ \<Rightarrow> Inl NotTypePath)"

datatype rqctx_ty =
    RqctxFunction syn_type
  | RqctxTrait (rqctx_orig: syn_type) (transformed_unit: syn_type) (transformed_server_impl: syn_type)

abbreviation plain_segment :: "string \<Rightarrow> syn_segment" where
  "plain_segment ident \<equiv> SynSegment ident ArgumentsNone"

definition ident_type :: "string \<Rightarrow> syn_type" where
  "ident_type ident = TypePath NoQself False [plain_segment ident]"

definition self_context :: "string \<Rightarrow> syn_type" where
  "self_context ctx = TypePath NoQself False [plain_segment ''Self'', plain_segment ctx]"

text \<open>\<^verbatim>\<open><T as trait>::context\<close>\<close>

definition as_trait_context :: "string \<Rightarrow> string \<Rightarrow> string \<Rightarrow> syn_type" where
  "as_trait_context self_ident tr ctx =
    TypePath (Qself (ident_type self_ident) 1) False [plain_segment tr, plain_segment ctx]"

definition unit_type :: syn_type where
  "unit_type = TypeOther ''()'' []"

definition rqctx_ty_new :: "string \<Rightarrow> rqctx_kind \<Rightarrow> syn_type \<Rightarrow> rqctx_ty option outcome checked" where
  "rqctx_ty_new name_str kind ty =
    (case kind of
       RqctxFunctionKind \<Rightarrow>
         (case extract_rqctx_param ty of
            Inr (Some param) \<Rightarrow>
              (let (errors, r) = validate_param_ty param ParamRequestContext name_str
               in (errors, Inr (map_option (\<lambda>_. RqctxFunction ty) r)))
          | Inr None \<Rightarrow> ([], Inr (Some (RqctxFunction ty)))
          | Inl _ \<Rightarrow> ([to_error_message kind name_str], Inr None))
     | RqctxTraitKind tr ctx \<Rightarrow>
         (case extract_rqctx_param_mut ty of
            Inr (Some (param, write_unit)) \<Rightarrow>
              if param \<noteq> self_context ctx \<and> param \<noteq> as_trait_context ''Self'' tr ctx then
                ([to_error_message kind name_str], Inr None)
              else
                (case extract_rqctx_param_mut ty of
                   Inr (Some (_, write_server_impl)) \<Rightarrow>
                     ([], Inr (Some (RqctxTrait ty (write_unit unit_type)
                       (write_server_impl (as_trait_context ''ServerImpl'' tr ctx)))))
                 | _ \<Rightarrow> ([], Inl (Panic ''internal error: entered unreachable code: other cases already bailed above'')))
          | _ \<Rightarrow> ([to_error_message kind name_str], Inr None)))"

fun transformed_unit_type :: "rqctx_ty \<Rightarrow> syn_type" where
  "transformed_unit_type (RqctxFunction ty) = ty"
| "transformed_unit_type (RqctxTrait _ u _) = u"

fun transformed_server_impl_type :: "rqctx_ty \<Rightarrow> syn_type" where
  "transformed_server_impl_type (RqctxFunction ty) = ty"
| "transformed_server_impl_type (RqctxTrait _ _ s) = s"

text \<open>\<^verbatim>\<open><transformed as dropshot::RequestContextArgument>::Context\<close>\<close>

datatype context_code = ContextOf (context_crate: string) (context_of: syn_type)

definition to_context :: "string \<Rightarrow> rqctx_ty \<Rightarrow> context_code" where
  "to_context dropshot r = ContextOf dropshot (transformed_unit_type r)"

section \<open>Validation of signatures\<close>

abbreviation fn_error :: "string \<Rightarrow> string \<Rightarrow> string" where
  "fn_error name_str what \<equiv> ''endpoint `'' @ name_str @ ''` must '' @ what"

definition validate_fn_ast :: "signature \<Rightarrow> string \<Rightarrow> string list" where
  "validate_fn_ast sig name_str =
    (if sig_constness sig then [fn_error name_str ''not be a const fn''] else [])
    @ (if \<not> sig_asyncness sig then [fn_error name_str ''be async''] else [])
    @ (case sig_safety sig of
         SafetySafe \<Rightarrow> [fn_error name_str ''not be marked safe'']
       | SafetyUnsafe \<Rightarrow> [fn_error name_str ''not be unsafe'']
       | SafetyDefault \<Rightarrow> [])
    @ (if sig_abi sig \<noteq> None then [fn_error name_str ''not use an alternate ABI''] else [])
    @ (if sig_generics sig \<noteq> [] then [fn_error name_str ''not have generics''] else [])
    @ (case sig_where_clause sig of
         Some predicates \<Rightarrow> if predicates \<noteq> [] then [fn_error name_str ''not have a where clause''] else []
       | None \<Rightarrow> [])
    @ (if sig_variadic sig then [fn_error name_str ''not have a variadic argument''] else [])"

text \<open>The iterator of a \<^verbatim>\<open>ParamValidator\<close> is the list of the inputs that are left.\<close>

record param_validator =
  pv_sig :: signature
  pv_inputs :: "fn_arg list"
  pv_name_str :: string

definition param_validator_new :: "signature \<Rightarrow> string \<Rightarrow> param_validator" where
  "param_validator_new sig name_str = \<lparr> pv_sig = sig, pv_inputs = sig_inputs sig, pv_name_str = name_str \<rparr>"

definition maybe_discard_self_arg :: "param_validator \<Rightarrow> string list \<times> param_validator" where
  "maybe_discard_self_arg pv =
    (case pv_inputs pv of
       Receiver # rest \<Rightarrow> ([fn_error (pv_name_str pv) ''not have a `self` argument''], pv\<lparr> pv_inputs := rest \<rparr>)
     | _ \<Rightarrow> ([], pv))"

definition next_rqctx_arg :: "rqctx_kind \<Rightarrow> param_validator \<Rightarrow> rqctx_ty option outcome checked \<times> param_validator" where
  "next_rqctx_arg kind pv =
    (let pv' = pv\<lparr> pv_inputs := tl (pv_inputs pv) \<rparr> in
     case pv_inputs pv of
       Typed ty # _ \<Rightarrow> (rqctx_ty_new (pv_name_str pv) kind ty, pv')
     | _ \<Rightarrow> (([fn_error (pv_name_str pv) ''have at least one RequestContext argument''], Inr None), pv'))"

datatype unvalidated_websocket_ty = UnvalidatedWebsocketTy (websocket_ty: syn_type)

definition validate_websocket_ty :: "unvalidated_websocket_ty \<Rightarrow> string \<Rightarrow> syn_type option checked" where
  "validate_websocket_ty u name_str = validate_param_ty (websocket_ty u) ParamWebsocketConn name_str"

definition next_rqctx_and_last_websocket_args ::
  "rqctx_kind \<Rightarrow> param_validator
    \<Rightarrow> (rqctx_ty option outcome \<times> unvalidated_websocket_ty option) checked \<times> param_validator" where
  "next_rqctx_and_last_websocket_args kind pv =
    (let rest = tl (pv_inputs pv);
         pv' = pv\<lparr> pv_inputs := butlast rest \<rparr>
     in case (pv_inputs pv, rest) of
          (Typed rqctx # _, _ # _) \<Rightarrow>
            (case last rest of
               Typed websocket \<Rightarrow>
                 (let (errors, r) = rqctx_ty_new (pv_name_str pv) kind rqctx
                  in ((errors, r, Some (UnvalidatedWebsocketTy websocket)), pv'))
             | Receiver \<Rightarrow>
                 (([fn_error (pv_name_str pv) ''have at least two arguments: RequestContext and WebsocketConnection''],
                   Inr None, None), pv'))
        | _ \<Rightarrow>
            (([fn_error (pv_name_str pv) ''have at least two arguments: RequestContext and WebsocketConnection''],
              Inr None, None), pv'))"

text \<open>The loop stops at an argument that is not typed.\<close>

fun rest_extractor_args :: "string \<Rightarrow> fn_arg list \<Rightarrow> syn_type list checked" where
  "rest_extractor_args name_str (Typed ty # rest) =
    (let (errors, r) = validate_param_ty ty ParamExtractor name_str;
         (more, extractors) = rest_extractor_args name_str rest
     in (errors @ more, (case r of Some t \<Rightarrow> t # extractors | None \<Rightarrow> extractors)))"
| "rest_extractor_args name_str _ = ([], [])"

definition return_type_of :: "param_validator \<Rightarrow> syn_type option checked" where
  "return_type_of pv =
    (case sig_output (pv_sig pv) of
       ReturnDefault \<Rightarrow> ([fn_error (pv_name_str pv) ''return a Result''], None)
     | ReturnType ty \<Rightarrow> validate_param_ty ty ParamReturn (pv_name_str pv))"

section \<open>Parameters of an endpoint\<close>

record endpoint_params =
  ep_dropshot :: string
  ep_rqctx_ty :: rqctx_ty
  ep_shared_extractors :: "syn_type list"
  ep_exclusive_extractor :: "syn_type option"
  ep_ret_ty :: syn_type

text \<open>\<^verbatim>\<open>Vec::pop\<close>: what is left, and the last element.\<close>

definition vec_pop :: "'a list \<Rightarrow> 'a list \<times> 'a option" where
  "vec_pop xs = (if xs = [] then ([], None) else (butlast xs, Some (last xs)))"

definition endpoint_params_new ::
  "string \<Rightarrow> signature \<Rightarrow> rqctx_kind \<Rightarrow> endpoint_params option outcome checked" where
  "endpoint_params_new dropshot sig kind =
    (let name_str = sig_ident sig;
         fn_errors = validate_fn_ast sig name_str;
         (self_errors, pv) = maybe_discard_self_arg (param_validator_new sig name_str);
         ((rqctx_errors, rqctx), pv) = next_rqctx_arg kind pv;
         (extractor_errors, extractors) = rest_extractor_args name_str (pv_inputs pv);
         (shared_extractors, exclusive_extractor) = vec_pop extractors;
         (ret_errors, ret) = return_type_of pv;
         errors = fn_errors @ self_errors @ rqctx_errors @ extractor_errors @ ret_errors
     in (errors,
         rbind rqctx (\<lambda>rqctx_ty.
           if errors \<noteq> [] then Inr None
           else
             (case (rqctx_ty, ret) of
                (Some rqctx_ty, Some ret_ty) \<Rightarrow>
                  Inr (Some \<lparr> ep_dropshot = dropshot, ep_rqctx_ty = rqctx_ty,
                    ep_shared_extractors = shared_extractors,
                    ep_exclusive_extractor = exclusive_extractor, ep_ret_ty = ret_ty \<rparr>)
              | _ \<Rightarrow>
                  Inl (Panic ''internal error: entered unreachable code: no param errors, but rqctx_ty or ret_ty is None'')))))"

definition rqctx_context :: "endpoint_params \<Rightarrow> context_code" where
  "rqctx_context ps = to_context (ep_dropshot ps) (ep_rqctx_ty ps)"

definition generated_arg :: "nat \<Rightarrow> string" where
  "generated_arg i = ''arg'' @ show_nat i"

definition arg_names :: "endpoint_params \<Rightarrow> string list" where
  "arg_names ps =
    (let arg_count = 1 + length (ep_shared_extractors ps)
           + (case ep_exclusive_extractor ps of None \<Rightarrow> 0 | Some _ \<Rightarrow> 1)
     in map generated_arg [0..<arg_count])"

definition option_list :: "'a option \<Rightarrow> 'a list" where
  "option_list x = (case x of None \<Rightarrow> [] | Some a \<Rightarrow> [a])"

definition extractor_types :: "endpoint_params \<Rightarrow> syn_type list" where
  "extractor_types ps = ep_shared_extractors ps @ option_list (ep_exclusive_extractor ps)"

definition arg_types :: "endpoint_params \<Rightarrow> syn_type list" where
  "arg_types ps = transformed_unit_type (ep_rqctx_ty ps) # extractor_types ps"

text \<open>The checks that are generated: constants whose code compiles only if the types have
  certain traits, and a function that calls the handler with arguments of the given types.\<close>

datatype type_check =
    NeedRequestContext context_code
  | NeedSharedExtractor string syn_type
  | NeedExclusiveExtractor string syn_type
  | ValidateResult string syn_type
  | ValidateWebsocketConnection string syn_type

record impl_check =
  ic_params :: "(string \<times> syn_type) list"
  ic_function :: string
  ic_args :: "string list"

definition to_type_checks :: "endpoint_params \<Rightarrow> type_check list" where
  "to_type_checks ps =
    NeedRequestContext (rqctx_context ps)
    # map (NeedSharedExtractor (ep_dropshot ps)) (ep_shared_extractors ps)
    @ option_list (map_option (NeedExclusiveExtractor (ep_dropshot ps)) (ep_exclusive_extractor ps))
    @ [ValidateResult (ep_dropshot ps) (ep_ret_ty ps)]"

definition to_impl_checks :: "endpoint_params \<Rightarrow> string \<Rightarrow> impl_check" where
  "to_impl_checks ps name =
    \<lparr> ic_params = zip (arg_names ps) (arg_types ps), ic_function = name, ic_args = arg_names ps \<rparr>"

section \<open>Parameters of a channel\<close>

record channel_params =
  cp_dropshot :: string
  cp_sig :: signature
  cp_rqctx_ty :: rqctx_ty
  cp_shared_extractors :: "syn_type list"
  cp_websocket_conn :: syn_type
  cp_ret_ty :: syn_type
  cp_adapter_name :: string
  cp_websocket_upgrade_ty :: syn_type
  cp_endpoint_result_ty :: syn_type

text \<open>\<open>parse_type\<close> is \<^verbatim>\<open>parse_quote!\<close> of the name of a crate and of an item of the crate.\<close>

definition channel_params_new ::
  "(string \<Rightarrow> string \<Rightarrow> syn_type) \<Rightarrow> string \<Rightarrow> signature \<Rightarrow> rqctx_kind \<Rightarrow> channel_params option outcome checked" where
  "channel_params_new parse_type dropshot sig kind =
    (let name_str = sig_ident sig;
         fn_errors = validate_fn_ast sig name_str;
         (self_errors, pv) = maybe_discard_self_arg (param_validator_new sig name_str);
         ((rqctx_errors, rqctx, websocket_conn_ty), pv) = next_rqctx_and_last_websocket_args kind pv;
         (extractor_errors, shared_extractors) = rest_extractor_args name_str (pv_inputs pv);
         (websocket_errors, websocket_conn) =
           (case websocket_conn_ty of Some ty \<Rightarrow> validate_websocket_ty ty name_str | None \<Rightarrow> ([], None));
         (ret_errors, ret) = return_type_of pv;
         errors = fn_errors @ self_errors @ rqctx_errors @ extractor_errors @ websocket_errors @ ret_errors
     in (errors,
         rbind rqctx (\<lambda>rqctx_ty.
           if errors \<noteq> [] then Inr None
           else
             (case (rqctx_ty, websocket_conn, ret) of
                (Some rqctx_ty, Some websocket_conn, Some ret_ty) \<Rightarrow>
                  Inr (Some \<lparr> cp_dropshot = dropshot, cp_sig = sig, cp_rqctx_ty = rqctx_ty,
                    cp_shared_extractors = shared_extractors, cp_websocket_conn = websocket_conn,
                    cp_ret_ty = ret_ty, cp_adapter_name = sig_ident sig @ ''_adapter'',
                    cp_websocket_upgrade_ty = parse_type dropshot ''WebsocketUpgrade'',
                    cp_endpoint_result_ty = parse_type dropshot ''WebsocketEndpointResult'' \<rparr>)
              | _ \<Rightarrow>
                  Inl (Panic ''internal error: entered unreachable code: no param errors, but rqctx_ty, websocket_upgrade or ret_ty is None'')))))"

definition websocket_arg :: string where
  "websocket_arg = ''__dropshot_websocket''"

definition channel_rqctx_context :: "channel_params \<Rightarrow> context_code" where
  "channel_rqctx_context ps = to_context (cp_dropshot ps) (cp_rqctx_ty ps)"

definition channel_arg_names :: "channel_params \<Rightarrow> string list" where
  "channel_arg_names ps = map generated_arg [0..<1 + length (cp_shared_extractors ps)] @ [websocket_arg]"

definition channel_arg_types :: "channel_params \<Rightarrow> syn_type list" where
  "channel_arg_types ps =
    transformed_unit_type (cp_rqctx_ty ps) # cp_shared_extractors ps @ [cp_websocket_conn ps]"

definition channel_extractor_types :: "channel_params \<Rightarrow> syn_type list" where
  "channel_extractor_types ps = cp_shared_extractors ps @ [cp_websocket_upgrade_ty ps]"

definition adapter_arg_types :: "channel_params \<Rightarrow> syn_type list" where
  "adapter_arg_types ps = transformed_server_impl_type (cp_rqctx_ty ps) # channel_extractor_types ps"

definition to_trait_type_checks :: "channel_params \<Rightarrow> type_check list" where
  "to_trait_type_checks ps = [ValidateWebsocketConnection (cp_dropshot ps) (cp_websocket_conn ps)]"

definition channel_to_type_checks :: "channel_params \<Rightarrow> type_check list" where
  "channel_to_type_checks ps =
    NeedRequestContext (channel_rqctx_context ps)
    # map (NeedSharedExtractor (cp_dropshot ps)) (cp_shared_extractors ps)
    @ to_trait_type_checks ps"

definition channel_to_impl_checks :: "channel_params \<Rightarrow> string \<Rightarrow> impl_check" where
  "channel_to_impl_checks ps name =
    \<lparr> ic_params = zip (channel_arg_names ps) (channel_arg_types ps), ic_function = name,
      ic_args = channel_arg_names ps \<rparr>"

text \<open>The adapter: an async function that hands a closure to \<^verbatim>\<open>handle\<close> of its upgrade argument.
  The closure binds the connection and calls the user's function.\<close>

datatype adapter_target = PlainFunction string | TraitFunction string string

record adapter_fn =
  af_name :: string
  af_server_impl_bound :: "string option"
  af_params :: "(string \<times> syn_type) list"
  af_result :: syn_type
  af_receiver :: string
  af_closure_param :: "string \<times> syn_type"
  af_call :: adapter_target
  af_call_args :: "string list"

definition to_adapter_fn :: "channel_params \<Rightarrow> adapter_fn" where
  "to_adapter_fn ps =
    \<lparr> af_name = cp_adapter_name ps, af_server_impl_bound = None,
      af_params = zip (channel_arg_names ps) (adapter_arg_types ps), af_result = cp_endpoint_result_ty ps,
      af_receiver = websocket_arg, af_closure_param = (websocket_arg, cp_websocket_conn ps),
      af_call = PlainFunction (sig_ident (cp_sig ps)), af_call_args = channel_arg_names ps \<rparr>"

definition to_trait_adapter_fn :: "channel_params \<Rightarrow> string \<Rightarrow> adapter_fn" where
  "to_trait_adapter_fn ps tr =
    \<lparr> af_name = cp_adapter_name ps, af_server_impl_bound = Some tr,
      af_params = zip (channel_arg_names ps) (adapter_arg_types ps), af_result = cp_endpoint_result_ty ps,
      af_receiver = websocket_arg, af_closure_param = (websocket_arg, cp_websocket_conn ps),
      af_call = TraitFunction tr (sig_ident (cp_sig ps)), af_call_args = channel_arg_names ps \<rparr>"

section \<open>Which types are accepted\<close>

definition is_child :: "syn_node \<Rightarrow> syn_node \<Rightarrow> bool" where
  "is_child n m \<longleftrightarrow> m \<in> set (children n)"

text \<open>\<open>m\<close> is \<open>n\<close> or occurs in it, at any depth.\<close>

abbreviation occurs_in :: "syn_node \<Rightarrow> syn_node \<Rightarrow> bool" where
  "occurs_in m n \<equiv> is_child\<^sup>*\<^sup>* n m"

fun allowed_node :: "syn_node \<Rightarrow> bool" where
  "allowed_node (NodeBoundLifetimes _) = False"
| "allowed_node (NodeLifetime l) = (l = ''static'')"
| "allowed_node (NodeIdent i) = (i \<noteq> ''Self'')"
| "allowed_node (NodeType (TypeImplTrait _)) = False"
| "allowed_node (NodeType _) = True"

text \<open>No binder of lifetimes, no lifetime but the static one, no \<^verbatim>\<open>Self\<close>, no \<^verbatim>\<open>impl Trait\<close>.\<close>

definition plain_type :: "syn_type \<Rightarrow> bool" where
  "plain_type ty \<longleftrightarrow> (\<forall>n. occurs_in n (NodeType ty) \<longrightarrow> allowed_node n)"

lemma visit_node_allowed:
  "visit_node kind name_str n = [] \<longleftrightarrow> allowed_node n \<and> (\<forall>m \<in> set (children n). visit_node kind name_str m = [])"
  by (subst visit_node.simps) (auto split: syn_node.split syn_type.split)

lemma visit_node_Nil_iff: "visit_node kind name_str n = [] \<longleftrightarrow> (\<forall>m. occurs_in m n \<longrightarrow> allowed_node m)"
proof (induction "size n" arbitrary: n rule: less_induct)
  case less
  have "(\<forall>m. occurs_in m n \<longrightarrow> allowed_node m) \<longleftrightarrow>
      allowed_node n \<and> (\<forall>k. is_child n k \<longrightarrow> (\<forall>m. occurs_in m k \<longrightarrow> allowed_node m))"
    by (metis converse_rtranclpE converse_rtranclp_into_rtranclp rtranclp.rtrancl_refl)
  also have "\<dots> \<longleftrightarrow> allowed_node n \<and> (\<forall>k. is_child n k \<longrightarrow> visit_node kind name_str k = [])"
    using less children_size by (auto simp: is_child_def)
  finally show ?case using visit_node_allowed[of kind name_str n] by (simp add: is_child_def Ball_def)
qed

lemma validate_param_ty_iff:
  "validate_param_ty ty kind name_str = ([], r) \<longleftrightarrow> plain_type ty \<and> r = Some ty"
  "snd (validate_param_ty ty kind name_str) = (if plain_type ty then Some ty else None)"
  "fst (validate_param_ty ty kind name_str) = [] \<longleftrightarrow> plain_type ty"
  by (auto simp: validate_param_ty_def Let_def visit_node_Nil_iff plain_type_def)

text \<open>A path whose last segment has one argument, a type; and one without arguments.\<close>

definition applied_to :: "syn_type \<Rightarrow> syn_type \<Rightarrow> bool" where
  "applied_to ty p \<longleftrightarrow> (\<exists>q l segs i. ty = TypePath q l (segs @ [SynSegment i (AngleBracketed [ArgType p])]))"

definition unapplied :: "syn_type \<Rightarrow> bool" where
  "unapplied ty \<longleftrightarrow> (\<exists>q l segs i. ty = TypePath q l (segs @ [plain_segment i]))"

text \<open>The same path, applied to another type.\<close>

definition reapplied :: "syn_type \<Rightarrow> syn_type \<Rightarrow> syn_type \<Rightarrow> bool" where
  "reapplied ty t ty' \<longleftrightarrow> (\<exists>q l segs i p. ty = TypePath q l (segs @ [SynSegment i (AngleBracketed [ArgType p])])
    \<and> ty' = TypePath q l (segs @ [SynSegment i (AngleBracketed [ArgType t])]))"

lemma extract_rqctx_param_Some_iff: "extract_rqctx_param ty = Inr (Some p) \<longleftrightarrow> applied_to ty p"
proof (cases ty)
  case (TypePath q l segs)
  then show ?thesis
  proof (cases segs rule: rev_cases)
    case (snoc init s)
    then show ?thesis using TypePath
      by (cases s) (auto simp: extract_rqctx_param_def applied_to_def length_Suc_conv
          split: path_arguments.split generic_argument.split)
  qed (auto simp: extract_rqctx_param_def applied_to_def)
qed (auto simp: extract_rqctx_param_def applied_to_def)

lemma extract_rqctx_param_None_iff: "extract_rqctx_param ty = Inr None \<longleftrightarrow> unapplied ty"
proof (cases ty)
  case (TypePath q l segs)
  then show ?thesis
  proof (cases segs rule: rev_cases)
    case (snoc init s)
    then show ?thesis using TypePath
      by (cases s) (auto simp: extract_rqctx_param_def unapplied_def length_Suc_conv
          split: path_arguments.split generic_argument.split)
  qed (auto simp: extract_rqctx_param_def unapplied_def)
qed (auto simp: extract_rqctx_param_def unapplied_def)

text \<open>The variant on mutable references finds the same type.\<close>

lemma extract_rqctx_param_mut_same:
  "extract_rqctx_param ty = map_sum id (map_option fst) (extract_rqctx_param_mut ty)"
  by (auto simp: extract_rqctx_param_def extract_rqctx_param_mut_def
      split: syn_type.split syn_segment.split path_arguments.split generic_argument.split)

lemma extract_rqctx_param_mut_write:
  assumes "extract_rqctx_param_mut ty = Inr (Some (p, write))"
  shows "reapplied ty t (write t)"
proof -
  obtain q l segs where ty: "ty = TypePath q l segs" "segs \<noteq> []"
    using assms by (cases ty) (auto simp: extract_rqctx_param_mut_def split: if_splits)
  then obtain init i args where segs: "segs = init @ [SynSegment i args]"
    by (metis rev_exhaust syn_segment.exhaust)
  then show ?thesis
    using assms ty
    by (auto simp: extract_rqctx_param_mut_def reapplied_def length_Suc_conv
        split: path_arguments.splits generic_argument.splits if_splits)
qed

fun rqctx_ok :: "rqctx_kind \<Rightarrow> syn_type \<Rightarrow> bool" where
  "rqctx_ok RqctxFunctionKind ty = (unapplied ty \<or> (\<exists>p. applied_to ty p \<and> plain_type p))"
| "rqctx_ok (RqctxTraitKind tr ctx) ty =
    (applied_to ty (self_context ctx) \<or> applied_to ty (as_trait_context ''Self'' tr ctx))"

text \<open>What the request context stands for: in a trait, the types in which the context parameter
  is the unit type, and in which it is the context of an implementation.\<close>

fun rqctx_for :: "rqctx_kind \<Rightarrow> syn_type \<Rightarrow> rqctx_ty \<Rightarrow> bool" where
  "rqctx_for RqctxFunctionKind ty r = (r = RqctxFunction ty)"
| "rqctx_for (RqctxTraitKind tr ctx) ty r =
    (\<exists>u s. r = RqctxTrait ty u s \<and> reapplied ty unit_type u \<and> reapplied ty (as_trait_context ''ServerImpl'' tr ctx) s)"

lemma applied_to_unique: "applied_to ty p \<Longrightarrow> applied_to ty p' \<Longrightarrow> p = p'"
  by (auto simp: applied_to_def)

lemma applied_not_unapplied: "applied_to ty p \<Longrightarrow> \<not> unapplied ty"
  by (auto simp: applied_to_def unapplied_def)

lemma rqctx_ty_new_spec:
  "\<exists>errs r. rqctx_ty_new name_str kind ty = (errs, Inr r) \<and> (errs = [] \<longleftrightarrow> rqctx_ok kind ty)
    \<and> (r = None \<longleftrightarrow> errs \<noteq> []) \<and> (\<forall>x. r = Some x \<longrightarrow> rqctx_for kind ty x)"
proof (cases kind)
  case RqctxFunctionKind
  show ?thesis
  proof (cases "extract_rqctx_param ty")
    case (Inl e)
    then have "\<not> unapplied ty" "\<nexists>p. applied_to ty p"
      using extract_rqctx_param_None_iff[of ty] extract_rqctx_param_Some_iff[of ty] by auto
    then show ?thesis using Inl RqctxFunctionKind by (simp add: rqctx_ty_new_def)
  next
    case (Inr x)
    show ?thesis
    proof (cases x)
      case None
      then show ?thesis
        using Inr RqctxFunctionKind extract_rqctx_param_None_iff[of ty] by (simp add: rqctx_ty_new_def)
    next
      case (Some p)
      then have p: "applied_to ty p" using Inr by (simp add: extract_rqctx_param_Some_iff)
      then have "(\<exists>q. applied_to ty q \<and> plain_type q) \<longleftrightarrow> plain_type p" using applied_to_unique by blast
      then have ok: "rqctx_ok kind ty \<longleftrightarrow> plain_type p"
        using applied_not_unapplied[OF p] RqctxFunctionKind by simp
      obtain errs r where v: "validate_param_ty p ParamRequestContext name_str = (errs, r)" by fastforce
      then have r: "errs = [] \<longleftrightarrow> plain_type p" "r = (if plain_type p then Some p else None)"
        using validate_param_ty_iff(2,3)[of p ParamRequestContext name_str] by simp_all
      have "rqctx_ty_new name_str kind ty = (errs, Inr (map_option (\<lambda>_. RqctxFunction ty) r))"
        using Inr Some RqctxFunctionKind v by (simp add: rqctx_ty_new_def)
      moreover have "rqctx_for kind ty (RqctxFunction ty)" using RqctxFunctionKind by simp
      ultimately show ?thesis unfolding ok using r by simp
    qed
  qed
next
  case (RqctxTraitKind tr ctx)
  note kind = RqctxTraitKind
  show ?thesis
  proof (cases "\<exists>p wr. extract_rqctx_param_mut ty = Inr (Some (p, wr))")
    case True
    then obtain p wr where p: "extract_rqctx_param_mut ty = Inr (Some (p, wr))" by blast
    then have ap: "applied_to ty p"
      using extract_rqctx_param_mut_same[of ty] by (simp add: extract_rqctx_param_Some_iff[symmetric])
    show ?thesis
    proof (cases "p = self_context ctx \<or> p = as_trait_context ''Self'' tr ctx")
      case True
      then show ?thesis
        using p ap extract_rqctx_param_mut_write[OF p] kind by (auto simp: rqctx_ty_new_def)
    next
      case False
      then have "\<not> rqctx_ok kind ty" using applied_to_unique[OF ap] kind by auto
      then show ?thesis using p False kind by (simp add: rqctx_ty_new_def)
    qed
  next
    case False
    then have "\<nexists>p. applied_to ty p"
      using extract_rqctx_param_mut_same[of ty] extract_rqctx_param_Some_iff[of ty]
      by (cases "extract_rqctx_param_mut ty") (auto split: option.splits)
    moreover have "rqctx_ty_new name_str kind ty = ([to_error_message kind name_str], Inr None)"
      using False kind by (auto simp: rqctx_ty_new_def split: sum.split option.split)
    ultimately show ?thesis using kind by simp
  qed
qed

section \<open>Which signatures are accepted\<close>

definition fn_ok :: "signature \<Rightarrow> bool" where
  "fn_ok sig \<longleftrightarrow> \<not> sig_constness sig \<and> sig_asyncness sig \<and> sig_safety sig = SafetyDefault \<and> sig_abi sig = None
    \<and> sig_generics sig = [] \<and> (sig_where_clause sig = None \<or> sig_where_clause sig = Some []) \<and> \<not> sig_variadic sig"

lemma validate_fn_ast_Nil_iff: "validate_fn_ast sig name_str = [] \<longleftrightarrow> fn_ok sig"
  by (auto simp: validate_fn_ast_def fn_ok_def split: safety.split option.split)

text \<open>A self argument comes first, as the parser of signatures makes sure.\<close>

definition parsed_signature :: "signature \<Rightarrow> bool" where
  "parsed_signature sig \<longleftrightarrow> Receiver \<notin> set (tl (sig_inputs sig))"

lemma all_typed: "Receiver \<notin> set as \<longleftrightarrow> (\<exists>tys. as = map Typed tys)"
proof (induction as)
  case (Cons a as)
  then show ?case by (cases a) (auto simp: Cons_eq_map_conv)
qed simp

lemma map_Typed_inj [simp]: "map Typed xs = map Typed ys \<longleftrightarrow> xs = ys"
  by (intro inj_map_eq_map injI) simp

lemma rest_extractor_args_typed:
  "rest_extractor_args name_str (map Typed tys) =
    (concat (map (visit_node ParamExtractor name_str \<circ> NodeType) tys), filter plain_type tys)"
proof (induction tys)
  case (Cons ty tys)
  then show ?case
    using visit_node_Nil_iff[of ParamExtractor name_str "NodeType ty"]
    by (simp add: validate_param_ty_def plain_type_def Let_def)
qed simp

lemma concat_visit_Nil_iff:
  "concat (map (visit_node kind name_str \<circ> NodeType) tys) = [] \<longleftrightarrow> (\<forall>ty \<in> set tys. plain_type ty)"
  by (auto simp: visit_node_Nil_iff plain_type_def)

lemma return_type_of_spec:
  obtains errs r where "return_type_of pv = (errs, r)" "errs = [] \<longleftrightarrow> r \<noteq> None"
    "r \<noteq> None \<longleftrightarrow> (\<exists>ty. sig_output (pv_sig pv) = ReturnType ty \<and> plain_type ty)"
    "\<And>ty. r = Some ty \<Longrightarrow> sig_output (pv_sig pv) = ReturnType ty"
proof (cases "sig_output (pv_sig pv)")
  case ReturnDefault
  then show ?thesis using that by (simp add: return_type_of_def)
next
  case (ReturnType ty)
  obtain errs r where v: "validate_param_ty ty ParamReturn (pv_name_str pv) = (errs, r)" by fastforce
  then have "errs = [] \<longleftrightarrow> plain_type ty" "r = (if plain_type ty then Some ty else None)"
    using validate_param_ty_iff(2,3)[of ty ParamReturn "pv_name_str pv"] by simp_all
  then show ?thesis using that[of errs r] ReturnType v by (simp add: return_type_of_def split: if_splits)
qed

text \<open>The signatures of endpoints: an async function without further qualifiers, a request context,
  extractors of plain types, and a result of a plain type.\<close>

definition endpoint_signature :: "signature \<Rightarrow> rqctx_kind \<Rightarrow> syn_type \<Rightarrow> syn_type list \<Rightarrow> syn_type \<Rightarrow> bool" where
  "endpoint_signature sig kind rq es ret \<longleftrightarrow> fn_ok sig
    \<and> sig_inputs sig = map Typed (rq # es) \<and> rqctx_ok kind rq \<and> (\<forall>e \<in> set es. plain_type e)
    \<and> sig_output sig = ReturnType ret \<and> plain_type ret"

lemma next_rqctx_arg_total:
  obtains re rqctx where "next_rqctx_arg kind pv = ((re, Inr rqctx), pv\<lparr> pv_inputs := tl (pv_inputs pv) \<rparr>)"
    "pv_inputs pv = [] \<Longrightarrow> re \<noteq> []"
proof (cases "\<exists>ty rest. pv_inputs pv = Typed ty # rest")
  case True
  then obtain ty rest where "pv_inputs pv = Typed ty # rest" by blast
  then show ?thesis
    using that rqctx_ty_new_spec[of "pv_name_str pv" kind ty] by (auto simp: next_rqctx_arg_def Let_def)
next
  case False
  have "next_rqctx_arg kind pv = (([fn_error (pv_name_str pv) ''have at least one RequestContext argument''], Inr None),
      pv\<lparr> pv_inputs := tl (pv_inputs pv) \<rparr>)"
  proof (cases "pv_inputs pv")
    case (Cons a rest)
    then have "a = Receiver" using False by (cases a) auto
    then show ?thesis using Cons by (simp add: next_rqctx_arg_def Let_def)
  qed (simp add: next_rqctx_arg_def Let_def)
  then show ?thesis using that by simp
qed

lemma vec_pop_spec: "vec_pop xs = (ys, x) \<Longrightarrow> ys @ option_list x = xs \<and> ys = butlast xs"
  by (auto simp: vec_pop_def option_list_def split: if_splits)

lemma endpoint_params_new_refused:
  assumes "validate_fn_ast sig (sig_ident sig) = fe"
    and "maybe_discard_self_arg (param_validator_new sig (sig_ident sig)) = (se, pv)"
    and "next_rqctx_arg kind pv = ((re, Inr rqctx), pv')"
    and "se @ re \<noteq> []"
  shows "\<exists>errs. errs \<noteq> [] \<and> endpoint_params_new d sig kind = (errs, Inr None)"
  using assms
  by (cases "rest_extractor_args (sig_ident sig) (pv_inputs pv')"; cases "return_type_of pv'")
    (auto simp: endpoint_params_new_def Let_def vec_pop_def)

lemma endpoint_params_new_spec:
  assumes "parsed_signature sig"
  shows "\<exists>errs r. endpoint_params_new d sig kind = (errs, Inr r)
    \<and> (errs = [] \<longleftrightarrow> (\<exists>rq es ret. endpoint_signature sig kind rq es ret)) \<and> (r = None \<longleftrightarrow> errs \<noteq> [])
    \<and> (\<forall>ps. r = Some ps \<longrightarrow> (\<exists>rq es ret. endpoint_signature sig kind rq es ret
        \<and> rqctx_for kind rq (ep_rqctx_ty ps) \<and> extractor_types ps = es
        \<and> ep_shared_extractors ps = butlast es \<and> ep_ret_ty ps = ret \<and> ep_dropshot ps = d))"
proof (cases "\<exists>rq as. sig_inputs sig = Typed rq # as")
  case False
  have "\<exists>errs. errs \<noteq> [] \<and> endpoint_params_new d sig kind = (errs, Inr None)"
  proof (cases "sig_inputs sig")
    case Nil
    then have self: "maybe_discard_self_arg (param_validator_new sig (sig_ident sig)) =
        ([], param_validator_new sig (sig_ident sig))" "pv_inputs (param_validator_new sig (sig_ident sig)) = []"
      by (simp_all add: maybe_discard_self_arg_def param_validator_new_def)
    then show ?thesis
      using next_rqctx_arg_total[of kind "param_validator_new sig (sig_ident sig)"]
        endpoint_params_new_refused[OF refl self(1)] by (metis append_self_conv2)
  next
    case (Cons a as)
    then have a: "sig_inputs sig = Receiver # as" using False by (cases a) auto
    then have self: "maybe_discard_self_arg (param_validator_new sig (sig_ident sig)) =
        ([fn_error (sig_ident sig) ''not have a `self` argument''],
         (param_validator_new sig (sig_ident sig))\<lparr> pv_inputs := as \<rparr>)"
      by (simp add: maybe_discard_self_arg_def param_validator_new_def)
    then show ?thesis
      using next_rqctx_arg_total[of kind "(param_validator_new sig (sig_ident sig))\<lparr> pv_inputs := as \<rparr>"]
        endpoint_params_new_refused[OF refl self] by (metis append_is_Nil_conv list.distinct(1))
  qed
  moreover have "\<not> endpoint_signature sig kind rq es ret" for rq es ret
    using False by (auto simp: endpoint_signature_def)
  ultimately show ?thesis by auto
next
  case True
  then obtain rq es where inputs: "sig_inputs sig = map Typed (rq # es)"
    using assms all_typed by (auto simp: parsed_signature_def)
  let ?pv = "\<lparr> pv_sig = sig, pv_inputs = map Typed es, pv_name_str = sig_ident sig \<rparr>"
  obtain re rqctx where r: "rqctx_ty_new (sig_ident sig) kind rq = (re, Inr rqctx)" "re = [] \<longleftrightarrow> rqctx_ok kind rq"
      "rqctx = None \<longleftrightarrow> re \<noteq> []" "\<And>x. rqctx = Some x \<Longrightarrow> rqctx_for kind rq x"
    using rqctx_ty_new_spec by blast
  obtain ret_errs ret where ret: "return_type_of ?pv = (ret_errs, ret)" "ret_errs = [] \<longleftrightarrow> ret \<noteq> None"
      "ret \<noteq> None \<longleftrightarrow> (\<exists>ty. sig_output sig = ReturnType ty \<and> plain_type ty)"
      "\<And>ty. ret = Some ty \<Longrightarrow> sig_output sig = ReturnType ty"
    using return_type_of_spec[of ?pv] by auto
  let ?xs = "concat (map (visit_node ParamExtractor (sig_ident sig) \<circ> NodeType) es)"
  let ?errs = "validate_fn_ast sig (sig_ident sig) @ re @ ?xs @ ret_errs"
  let ?start = "param_validator_new sig (sig_ident sig)"
  have steps: "maybe_discard_self_arg ?start = ([], ?start)" "next_rqctx_arg kind ?start = ((re, Inr rqctx), ?pv)"
    using inputs r(1)
    by (simp_all add: maybe_discard_self_arg_def param_validator_new_def next_rqctx_arg_def Let_def)
  obtain shared exclusive where pop: "vec_pop (filter plain_type es) = (shared, exclusive)" by fastforce
  have new: "endpoint_params_new d sig kind = (?errs,
      if ?errs \<noteq> [] then Inr None
      else (case (rqctx, ret) of
              (Some rqctx_ty, Some ret_ty) \<Rightarrow>
                Inr (Some \<lparr> ep_dropshot = d, ep_rqctx_ty = rqctx_ty,
                  ep_shared_extractors = shared, ep_exclusive_extractor = exclusive, ep_ret_ty = ret_ty \<rparr>)
            | _ \<Rightarrow> Inl (Panic ''internal error: entered unreachable code: no param errors, but rqctx_ty or ret_ty is None'')))"
    using ret(1) steps pop
    by (simp add: endpoint_params_new_def Let_def rest_extractor_args_typed)
  have errs: "?errs = [] \<longleftrightarrow> (\<exists>rq es ret. endpoint_signature sig kind rq es ret)"
    unfolding append_is_Nil_conv validate_fn_ast_Nil_iff concat_visit_Nil_iff r(2) ret(2,3)
    using inputs by (auto simp: endpoint_signature_def)
  show ?thesis
  proof (cases "?errs = []")
    case True
    then have plain: "filter plain_type es = es" unfolding append_is_Nil_conv concat_visit_Nil_iff by simp
    from True r(3) ret(2) obtain x ty where x: "rqctx = Some x" "ret = Some ty" by auto
    have "endpoint_signature sig kind rq es ty"
      using True inputs ret(3,4) x r(2) unfolding append_is_Nil_conv validate_fn_ast_Nil_iff concat_visit_Nil_iff
      by (auto simp: endpoint_signature_def)
    then show ?thesis
      using new True errs x r(4)[OF x(1)] vec_pop_spec[OF pop[unfolded plain]]
      by (auto simp: extractor_types_def)
  next
    case False
    then show ?thesis using new errs by auto
  qed
qed

text \<open>The signatures of channels: a connection comes last.\<close>

definition channel_signature ::
  "signature \<Rightarrow> rqctx_kind \<Rightarrow> syn_type \<Rightarrow> syn_type list \<Rightarrow> syn_type \<Rightarrow> syn_type \<Rightarrow> bool" where
  "channel_signature sig kind rq es conn ret \<longleftrightarrow> fn_ok sig
    \<and> sig_inputs sig = map Typed (rq # es @ [conn]) \<and> rqctx_ok kind rq \<and> (\<forall>e \<in> set es. plain_type e)
    \<and> plain_type conn \<and> sig_output sig = ReturnType ret \<and> plain_type ret"

lemma channel_params_new_refused:
  assumes "maybe_discard_self_arg (param_validator_new sig (sig_ident sig)) = (se, pv)"
    and "next_rqctx_and_last_websocket_args kind pv = ((re, Inr rqctx, w), pv')"
    and "se @ re \<noteq> []"
  shows "\<exists>errs. errs \<noteq> [] \<and> channel_params_new parse_type d sig kind = (errs, Inr None)"
proof -
  obtain ee es where "rest_extractor_args (sig_ident sig) (pv_inputs pv') = (ee, es)" by fastforce
  moreover obtain we wc where
    "(case w of Some ty \<Rightarrow> validate_websocket_ty ty (sig_ident sig) | None \<Rightarrow> ([], None)) = (we, wc)" by fastforce
  moreover obtain oe ret where "return_type_of pv' = (oe, ret)" by fastforce
  ultimately show ?thesis using assms by (auto simp: channel_params_new_def Let_def)
qed

lemma next_rqctx_and_last_websocket_args_total:
  obtains re rqctx w pv' where "next_rqctx_and_last_websocket_args kind pv = ((re, Inr rqctx, w), pv')"
    "length (pv_inputs pv) < 2 \<Longrightarrow> re \<noteq> []"
proof (cases "\<exists>ty a rest. pv_inputs pv = Typed ty # a # rest \<and> (\<exists>conn. last (a # rest) = Typed conn)")
  case True
  then obtain ty a rest conn where "pv_inputs pv = Typed ty # a # rest" "last (a # rest) = Typed conn" by blast
  then show ?thesis
    using that rqctx_ty_new_spec[of "pv_name_str pv" kind ty]
    by (auto simp: next_rqctx_and_last_websocket_args_def Let_def)
next
  case False
  have "\<exists>pv'. next_rqctx_and_last_websocket_args kind pv =
    (([fn_error (pv_name_str pv) ''have at least two arguments: RequestContext and WebsocketConnection''],
      Inr None, None), pv')"
  proof (cases "pv_inputs pv")
    case (Cons a rest)
    then show ?thesis
      using False by (cases a; cases rest; cases "last rest")
        (auto simp: next_rqctx_and_last_websocket_args_def Let_def)
  qed (simp add: next_rqctx_and_last_websocket_args_def Let_def)
  then show ?thesis using that by auto
qed

lemma at_least_two_typed:
  assumes "parsed_signature sig"
  shows "(\<exists>rq es conn. sig_inputs sig = map Typed (rq # es @ [conn]))
    \<or> sig_inputs sig = [] \<or> (\<exists>a. sig_inputs sig = [a]) \<or> (\<exists>as. sig_inputs sig = Receiver # as)"
proof (cases "sig_inputs sig")
  case (Cons a as)
  show ?thesis
  proof (cases a)
    case (Typed rq)
    moreover obtain tys where "as = map Typed tys" using assms Cons all_typed by (auto simp: parsed_signature_def)
    ultimately show ?thesis using Cons by (cases tys rule: rev_cases) auto
  qed (use Cons in simp)
qed simp

lemma channel_params_new_spec:
  assumes "parsed_signature sig"
  shows "\<exists>errs r. channel_params_new parse_type d sig kind = (errs, Inr r)
    \<and> (errs = [] \<longleftrightarrow> (\<exists>rq es conn ret. channel_signature sig kind rq es conn ret)) \<and> (r = None \<longleftrightarrow> errs \<noteq> [])
    \<and> (\<forall>ps. r = Some ps \<longrightarrow> (\<exists>rq es conn ret. channel_signature sig kind rq es conn ret
        \<and> rqctx_for kind rq (cp_rqctx_ty ps) \<and> cp_shared_extractors ps = es \<and> cp_websocket_conn ps = conn
        \<and> cp_ret_ty ps = ret \<and> cp_dropshot ps = d \<and> cp_sig ps = sig
        \<and> cp_adapter_name ps = sig_ident sig @ ''_adapter''
        \<and> cp_websocket_upgrade_ty ps = parse_type d ''WebsocketUpgrade''
        \<and> cp_endpoint_result_ty ps = parse_type d ''WebsocketEndpointResult''))"
proof (cases "\<exists>rq es conn. sig_inputs sig = map Typed (rq # es @ [conn])")
  case False
  let ?start = "param_validator_new sig (sig_ident sig)"
  obtain se pv where self: "maybe_discard_self_arg ?start = (se, pv)" by fastforce
  have refusal: "se \<noteq> [] \<or> length (pv_inputs pv) < 2"
    using self at_least_two_typed[OF assms] False
    by (auto simp: maybe_discard_self_arg_def param_validator_new_def split: list.splits fn_arg.splits)
  obtain re rqctx w pv' where step: "next_rqctx_and_last_websocket_args kind pv = ((re, Inr rqctx, w), pv')"
      "length (pv_inputs pv) < 2 \<Longrightarrow> re \<noteq> []"
    using next_rqctx_and_last_websocket_args_total[of kind pv] by metis
  have "se @ re \<noteq> []" using refusal step(2) by auto
  then have "\<exists>errs. errs \<noteq> [] \<and> channel_params_new parse_type d sig kind = (errs, Inr None)"
    by (rule channel_params_new_refused[OF self step(1)])
  moreover have "\<not> channel_signature sig kind rq es conn ret" for rq es conn ret
    using False by (auto simp: channel_signature_def)
  ultimately show ?thesis by auto
next
  case True
  then obtain rq es conn where inputs: "sig_inputs sig = map Typed (rq # es @ [conn])" by blast
  let ?start = "param_validator_new sig (sig_ident sig)"
  let ?pv = "\<lparr> pv_sig = sig, pv_inputs = map Typed es, pv_name_str = sig_ident sig \<rparr>"
  obtain re rqctx where r: "rqctx_ty_new (sig_ident sig) kind rq = (re, Inr rqctx)" "re = [] \<longleftrightarrow> rqctx_ok kind rq"
      "rqctx = None \<longleftrightarrow> re \<noteq> []" "\<And>x. rqctx = Some x \<Longrightarrow> rqctx_for kind rq x"
    using rqctx_ty_new_spec by blast
  obtain ret_errs ret where ret: "return_type_of ?pv = (ret_errs, ret)" "ret_errs = [] \<longleftrightarrow> ret \<noteq> None"
      "ret \<noteq> None \<longleftrightarrow> (\<exists>ty. sig_output sig = ReturnType ty \<and> plain_type ty)"
      "\<And>ty. ret = Some ty \<Longrightarrow> sig_output sig = ReturnType ty"
    using return_type_of_spec[of ?pv] by auto
  obtain ws_errs ws where "validate_param_ty conn ParamWebsocketConn (sig_ident sig) = (ws_errs, ws)" by fastforce
  then have ws: "validate_websocket_ty (UnvalidatedWebsocketTy conn) (sig_ident sig) = (ws_errs, ws)"
      "ws_errs = [] \<longleftrightarrow> plain_type conn" "ws = (if plain_type conn then Some conn else None)"
    using validate_param_ty_iff(2,3)[of conn ParamWebsocketConn "sig_ident sig"]
    by (simp_all add: validate_websocket_ty_def)
  let ?xs = "concat (map (visit_node ParamExtractor (sig_ident sig) \<circ> NodeType) es)"
  let ?errs = "validate_fn_ast sig (sig_ident sig) @ re @ ?xs @ ws_errs @ ret_errs"
  have steps: "maybe_discard_self_arg ?start = ([], ?start)"
      "next_rqctx_and_last_websocket_args kind ?start = ((re, Inr rqctx, Some (UnvalidatedWebsocketTy conn)), ?pv)"
  proof -
    obtain a rest where rest: "map Typed es @ [Typed conn] = a # rest" "sig_inputs sig = Typed rq # a # rest"
      using inputs by (cases "map Typed es @ [Typed conn]") auto
    have "last (a # rest) = Typed conn" "butlast (a # rest) = map Typed es"
      unfolding rest(1)[symmetric] by simp_all
    then show "maybe_discard_self_arg ?start = ([], ?start)"
        "next_rqctx_and_last_websocket_args kind ?start = ((re, Inr rqctx, Some (UnvalidatedWebsocketTy conn)), ?pv)"
      using rest(2) r(1)
      by (simp_all add: maybe_discard_self_arg_def param_validator_new_def next_rqctx_and_last_websocket_args_def Let_def
          del: last.simps butlast.simps)
  qed
  have new: "channel_params_new parse_type d sig kind = (?errs,
      if ?errs \<noteq> [] then Inr None
      else (case (rqctx, ws, ret) of
              (Some rqctx_ty, Some websocket_conn, Some ret_ty) \<Rightarrow>
                Inr (Some \<lparr> cp_dropshot = d, cp_sig = sig, cp_rqctx_ty = rqctx_ty,
                  cp_shared_extractors = filter plain_type es, cp_websocket_conn = websocket_conn,
                  cp_ret_ty = ret_ty, cp_adapter_name = sig_ident sig @ ''_adapter'',
                  cp_websocket_upgrade_ty = parse_type d ''WebsocketUpgrade'',
                  cp_endpoint_result_ty = parse_type d ''WebsocketEndpointResult'' \<rparr>)
            | _ \<Rightarrow> Inl (Panic ''internal error: entered unreachable code: no param errors, but rqctx_ty, websocket_upgrade or ret_ty is None'')))"
    using ret(1) steps ws(1)
    by (simp add: channel_params_new_def Let_def rest_extractor_args_typed)
  have errs: "?errs = [] \<longleftrightarrow> (\<exists>rq es conn ret. channel_signature sig kind rq es conn ret)"
    unfolding append_is_Nil_conv validate_fn_ast_Nil_iff concat_visit_Nil_iff r(2) ret(2,3) ws(2)
    using inputs by (auto simp: channel_signature_def simp flip: list.map map_append)
  show ?thesis
  proof (cases "?errs = []")
    case True
    then have plain: "filter plain_type es = es" "plain_type conn"
      unfolding append_is_Nil_conv concat_visit_Nil_iff ws(2) by simp_all
    from True r(3) ret(2) obtain x ty where x: "rqctx = Some x" "ret = Some ty" by auto
    have "channel_signature sig kind rq es conn ty"
      using True inputs ret(3,4) x r(2) unfolding append_is_Nil_conv validate_fn_ast_Nil_iff concat_visit_Nil_iff ws(2)
      by (auto simp: channel_signature_def)
    then show ?thesis
      using new True errs x r(4)[OF x(1)] plain ws(3) by auto
  next
    case False
    then show ?thesis using new errs by auto
  qed
qed

section \<open>The generated calls\<close>

lemma generated_arg_inj [simp]: "generated_arg i = generated_arg j \<longleftrightarrow> i = j"
  using show_nat_inj by (auto simp: generated_arg_def)

lemma websocket_arg_fresh: "websocket_arg \<noteq> generated_arg i"
  by (simp add: websocket_arg_def generated_arg_def)

lemma distinct_generated_args: "distinct (map generated_arg [0..<n])"
  by (simp add: distinct_map inj_on_def)

lemma map_of_zip_all: "distinct ns \<Longrightarrow> length ns = length vs \<Longrightarrow> map (map_of (zip ns vs)) ns = map Some vs"
  by (intro nth_equalityI) (simp_all add: map_of_zip_nth)

section \<open>Properties\<close>

text \<open>C31. Signatures are checked completely: nothing unreachable is reached, errors are reported
  exactly for the functions that are not endpoints - async functions without further qualifiers
  that take a request context and extractors and return a result, with no Self, lifetime, binder or
  impl Trait anywhere inside the types - and an accepted function has all its arguments but the
  first as extractors in their order, all but the last of them shared, and its own result type.\<close>

theorem endpoint_signature_accepted:
  assumes "parsed_signature sig"
  shows "\<exists>errs r. endpoint_params_new d sig kind = (errs, Inr r)
    \<and> (errs = [] \<longleftrightarrow> (\<exists>rq es ret. endpoint_signature sig kind rq es ret)) \<and> (r = None \<longleftrightarrow> errs \<noteq> [])
    \<and> (\<forall>ps. r = Some ps \<longrightarrow> (\<exists>rq es ret. endpoint_signature sig kind rq es ret
        \<and> rqctx_for kind rq (ep_rqctx_ty ps) \<and> extractor_types ps = es
        \<and> ep_shared_extractors ps = butlast es \<and> ep_ret_ty ps = ret
        \<and> map (map_of (ic_params (to_impl_checks ps f))) (ic_args (to_impl_checks ps f))
            = map Some (transformed_unit_type (ep_rqctx_ty ps) # es)))"
proof -
  have "map (map_of (ic_params (to_impl_checks ps f))) (ic_args (to_impl_checks ps f)) = map Some (arg_types ps)" for ps
    unfolding to_impl_checks_def impl_check.simps
    by (intro map_of_zip_all)
      (auto simp: arg_names_def arg_types_def extractor_types_def option_list_def Let_def distinct_map inj_on_def
        split: option.split)
  then show ?thesis
    using endpoint_params_new_spec[OF assms, of d kind] by (fastforce simp: arg_types_def)
qed

definition sample_rqctx :: syn_type where
  "sample_rqctx = TypePath NoQself False [SynSegment ''RequestContext'' (AngleBracketed [ArgType (ident_type ''Ctx'')])]"

definition sample_signature :: signature where
  "sample_signature = \<lparr> sig_constness = False, sig_asyncness = True, sig_safety = SafetyDefault, sig_abi = None,
    sig_ident = ''f'', sig_generics = [], sig_where_clause = None,
    sig_inputs = [Typed sample_rqctx, Typed (ident_type ''Q''), Typed (ident_type ''B'')], sig_variadic = False,
    sig_output = ReturnType (ident_type ''R'') \<rparr>"

lemma plain_ident_type: "i \<noteq> ''Self'' \<Longrightarrow> plain_type (ident_type i)"
  using visit_node_Nil_iff[of ParamExtractor "[]" "NodeType (ident_type i)"]
  by (auto simp: plain_type_def ident_type_def visit_node.simps)

lemma sample_rqctx_ok: "rqctx_ok RqctxFunctionKind sample_rqctx"
  using plain_ident_type[of "''Ctx''"] by (auto simp: sample_rqctx_def applied_to_def)

theorem endpoint_signature_accepted_witness:
  "\<exists>ps. endpoint_params_new ''dropshot'' sample_signature RqctxFunctionKind = ([], Inr (Some ps))
    \<and> ep_shared_extractors ps = [ident_type ''Q''] \<and> extractor_types ps = [ident_type ''Q'', ident_type ''B'']
    \<and> map (map_of (ic_params (to_impl_checks ps ''f''))) (ic_args (to_impl_checks ps ''f''))
        = [Some sample_rqctx, Some (ident_type ''Q''), Some (ident_type ''B'')]"
proof -
  have "parsed_signature sample_signature" by (simp add: parsed_signature_def sample_signature_def)
  moreover have "endpoint_signature sample_signature RqctxFunctionKind sample_rqctx
      [ident_type ''Q'', ident_type ''B''] (ident_type ''R'')"
    using sample_rqctx_ok plain_ident_type
    by (auto simp: endpoint_signature_def sample_signature_def fn_ok_def simp del: rqctx_ok.simps)
  moreover have "es = [ident_type ''Q'', ident_type ''B''] \<and> rq = sample_rqctx"
    if "endpoint_signature sample_signature RqctxFunctionKind rq es ret" for rq es ret
    using that by (auto simp: endpoint_signature_def sample_signature_def Cons_eq_map_conv)
  ultimately show ?thesis
    using endpoint_signature_accepted[of sample_signature "''dropshot''" RqctxFunctionKind "''f''"]
    by fastforce
qed

text \<open>C32. The adapter of a channel is well typed: it calls \<^verbatim>\<open>handle\<close> on its upgrade argument, and
  passes on to the handler, in the order of its parameters, arguments of the types that these
  declare - the connection that the closure binds, not the upgrade of the same name, in the last
  place - with the context of the implementation in place of that of the trait.\<close>

theorem channel_adapter_well_typed:
  assumes "parsed_signature sig" "channel_params_new parse_type d sig kind = (errs, Inr (Some ps))"
    and "a = to_adapter_fn ps \<or> a = to_trait_adapter_fn ps tr"
  shows "\<exists>rq es conn ret. channel_signature sig kind rq es conn ret
    \<and> rqctx_for kind rq (cp_rqctx_ty ps)
    \<and> map snd (af_params a) = transformed_server_impl_type (cp_rqctx_ty ps) # es @ [parse_type d ''WebsocketUpgrade'']
    \<and> map_of (af_params a) (af_receiver a) = Some (parse_type d ''WebsocketUpgrade'')
    \<and> map (map_of (af_closure_param a # af_params a)) (af_call_args a)
        = map Some (transformed_server_impl_type (cp_rqctx_ty ps) # es @ [conn])"
proof -
  obtain rq es conn ret where sig: "channel_signature sig kind rq es conn ret" "rqctx_for kind rq (cp_rqctx_ty ps)"
      "cp_shared_extractors ps = es" "cp_websocket_conn ps = conn"
      "cp_websocket_upgrade_ty ps = parse_type d ''WebsocketUpgrade''"
    using channel_params_new_spec[OF assms(1), of parse_type d kind] assms(2) by auto
  let ?args = "map generated_arg [0..<1 + length es]"
  let ?tys = "transformed_server_impl_type (cp_rqctx_ty ps) # es"
  have lens: "length ?args = length ?tys" by simp
  have fresh: "websocket_arg \<notin> set ?args" using websocket_arg_fresh by auto
  have params: "af_params a = zip ?args ?tys @ [(websocket_arg, parse_type d ''WebsocketUpgrade'')]"
  proof -
    have "af_params a = zip (?args @ [websocket_arg]) (?tys @ [parse_type d ''WebsocketUpgrade''])"
      using assms(3) sig by (auto simp: to_adapter_fn_def to_trait_adapter_fn_def channel_arg_names_def
          adapter_arg_types_def channel_extractor_types_def)
    then show ?thesis using lens by (simp only: zip_append[OF lens] zip.simps list.case append_Nil)
  qed
  have a: "af_receiver a = websocket_arg" "af_closure_param a = (websocket_arg, conn)"
      "af_call_args a = ?args @ [websocket_arg]"
    using assms(3) sig by (auto simp: to_adapter_fn_def to_trait_adapter_fn_def channel_arg_names_def)
  have "map_of (zip ?args ?tys) websocket_arg = None" using fresh by (auto simp: map_of_eq_None_iff dest: set_zip_leftD)
  then have recv: "map_of (af_params a) websocket_arg = Some (parse_type d ''WebsocketUpgrade'')"
    unfolding params map_of_append map_add_def by (simp only: option.case map_of.simps fun_upd_same fst_conv snd_conv)
  have "map_of (af_closure_param a # af_params a) x = map_of (zip ?args ?tys) x" if "x \<in> set ?args" for x
  proof -
    have "x \<noteq> websocket_arg" using that fresh by blast
    moreover obtain m where m: "map_of (zip ?args ?tys) = m" by blast
    ultimately show ?thesis unfolding params a map_of.simps map_of_append m
      by (simp add: map_add_def split: option.split)
  qed
  then have "map (map_of (af_closure_param a # af_params a)) ?args = map (map_of (zip ?args ?tys)) ?args" by simp
  also have "\<dots> = map Some ?tys" by (rule map_of_zip_all[OF distinct_generated_args lens])
  finally have "map (map_of (af_closure_param a # af_params a)) (af_call_args a) = map Some (?tys @ [conn])"
    unfolding a by simp
  moreover have "map snd (af_params a) = ?tys @ [parse_type d ''WebsocketUpgrade'']"
    unfolding params using lens by simp
  ultimately show ?thesis using sig(1,2) recv a(1) by auto
qed

definition sample_channel_signature :: signature where
  "sample_channel_signature = sample_signature\<lparr> sig_ident := ''ws'',
    sig_inputs := [Typed sample_rqctx, Typed (ident_type ''Q''), Typed (ident_type ''C'')] \<rparr>"

theorem channel_adapter_well_typed_witness:
  "\<exists>ps. channel_params_new (\<lambda>c i. ident_type i) ''dropshot'' sample_channel_signature RqctxFunctionKind = ([], Inr (Some ps))
    \<and> map_of (af_params (to_adapter_fn ps)) (af_receiver (to_adapter_fn ps)) = Some (ident_type ''WebsocketUpgrade'')
    \<and> map (map_of (af_closure_param (to_adapter_fn ps) # af_params (to_adapter_fn ps))) (af_call_args (to_adapter_fn ps))
        = [Some sample_rqctx, Some (ident_type ''Q''), Some (ident_type ''C'')]"
proof -
  let ?new = "channel_params_new (\<lambda>c i. ident_type i) ''dropshot'' sample_channel_signature RqctxFunctionKind"
  have parsed: "parsed_signature sample_channel_signature"
    by (simp add: parsed_signature_def sample_channel_signature_def sample_signature_def)
  have "channel_signature sample_channel_signature RqctxFunctionKind sample_rqctx
      [ident_type ''Q''] (ident_type ''C'') (ident_type ''R'')"
    using sample_rqctx_ok plain_ident_type
    by (auto simp: channel_signature_def sample_channel_signature_def sample_signature_def fn_ok_def simp del: rqctx_ok.simps)
  then obtain ps where ps: "?new = ([], Inr (Some ps))"
    using channel_params_new_spec[OF parsed, of "\<lambda>c i. ident_type i" "''dropshot''" RqctxFunctionKind] by auto
  have "es = [ident_type ''Q''] \<and> conn = ident_type ''C'' \<and> rq = sample_rqctx"
    if "channel_signature sample_channel_signature RqctxFunctionKind rq es conn ret" for rq es conn ret
    using that
    by (auto simp: channel_signature_def sample_channel_signature_def sample_signature_def Cons_eq_map_conv append_eq_Cons_conv)
  then show ?thesis
    using ps channel_adapter_well_typed[OF parsed ps, of "to_adapter_fn ps"] by fastforce
qed

end
