(* ===== verification/Macro_Endpoint.thy ===== *)
theory Macro_Endpoint
  imports Macro_Params
begin

text \<open>
  The endpoint and channel macros as a whole (\<^verbatim>\<open>endpoint.rs\<close>, \<^verbatim>\<open>channel.rs\<close> and \<^verbatim>\<open>lib.rs\<close> of
  \<^verbatim>\<open>dropshot_endpoint\<close>): from the arguments and the function to the generated items and the errors.
  What \<^verbatim>\<open>syn\<close> and \<^verbatim>\<open>serde_tokenstream\<close> make of the two token streams is an argument; \<open>'i\<close> are
  the tokens of the item, which the macros only pass on.
\<close>

section \<open>Input and output\<close>

record item_fn_for_signature =
  if_attrs :: "doc_attribute list"
  if_vis :: string
  if_sig :: signature

record trait_item_fn_for_signature =
  tf_sig :: signature
  tf_block :: "string option"

text \<open>How the generated code names a handler.\<close>

datatype function_path =
    FunctionName string
  | ServerImplMethod string string
  | AdapterForServerImpl string

datatype 'x construct =
    Construct "(function_path, syn_type, 'x) endpoint_code"
  | ConstructUnreachable

text \<open>The conversion of the constant into an endpoint: the item and the checks are inside.\<close>

record ('i, 'x) from_impl =
  fi_name :: string
  fi_context :: context_code
  fi_item :: 'i
  fi_impl_checks :: impl_check
  fi_adapter :: "adapter_fn option"
  fi_construct :: "'x construct"

text \<open>Type checks, a documented struct and a constant of the same name, and the conversion.\<close>

record ('i, 'x) macro_stream =
  ms_type_checks :: "type_check list"
  ms_doc_comment :: string
  ms_visibility :: string
  ms_name :: string
  ms_from_impl :: "('i, 'x) from_impl option"

datatype ('i, 'x) macro_tokens =
    ItemTokens 'i
  | NoTokens
  | StreamTokens "('i, 'x) macro_stream"

record ('i, 'x) endpoint_output =
  eo_output :: "('i, 'x) macro_tokens"
  eo_has_param_errors :: bool

definition DROPSHOT :: string where
  "DROPSHOT = ''dropshot''"

text \<open>\<open>parse_str\<close> is the parser of token streams.\<close>

definition get_crate :: "(string \<Rightarrow> string option) \<Rightarrow> string option \<Rightarrow> string" where
  "get_crate parse_str var =
    (case var of
       Some s \<Rightarrow> (case parse_str s of Some ts \<Rightarrow> ts | None \<Rightarrow> DROPSHOT)
     | None \<Rightarrow> DROPSHOT)"

definition NL :: string where
  "NL = [CHR 0x0A]"

definition usage_str :: "string \<Rightarrow> string" where
  "usage_str context =
    ''endpoint handlers must have the following signature:'' @ NL
    @ ''    async fn('' @ NL
    @ ''        rqctx: dropshot::RequestContext<'' @ context @ ''>,'' @ NL
    @ ''        [query_params: Query<Q>,]'' @ NL
    @ ''        [path_params: Path<P>,]'' @ NL
    @ ''        [body_param: TypedBody<J>,]'' @ NL
    @ ''        [body_param: UntypedBody,]'' @ NL
    @ ''        [body_param: StreamingBody,]'' @ NL
    @ ''        [raw_request: RawRequest,]'' @ NL
    @ ''    ) -> Result<HttpResponse*, impl HttpResponseError>''"

definition channel_usage_str :: "string \<Rightarrow> string" where
  "channel_usage_str context =
    ''channel handlers must have the following signature:'' @ NL
    @ ''    async fn('' @ NL
    @ ''        rqctx: dropshot::RequestContext<'' @ context @ ''>,'' @ NL
    @ ''        [query_params: Query<Q>,]'' @ NL
    @ ''        [path_params: Path<P>,]'' @ NL
    @ ''        websocket_connection: dropshot::WebsocketConnection,'' @ NL
    @ ''    ) -> dropshot::WebsocketChannelResult''"

definition trait_function_error :: "string \<Rightarrow> string" where
  "trait_function_error name =
    ''endpoint `'' @ name @ ''` appears to be a trait function'' @ NL
    @ ''note: did you mean to use `#[dropshot::api_description]` instead?''"

section \<open>The endpoint macro\<close>

definition do_endpoint_inner ::
  "'v semver_lib \<Rightarrow> (string \<Rightarrow> string option) \<Rightarrow> ('x, 'v) endpoint_metadata \<Rightarrow> 'i \<Rightarrow> item_fn_for_signature
    \<Rightarrow> ('i, 'x) endpoint_output outcome checked" where
  "do_endpoint_inner L parse_str metadata item item_fn =
    (let dropshot = get_crate parse_str (epm_dropshot_crate metadata);
         name_str = sig_ident (if_sig item_fn);
         (metadata_errors, metadata) = validate_endpoint_metadata metadata name_str FunctionMacro;
         (params_errors, params) = endpoint_params_new dropshot (if_sig item_fn) RqctxFunctionKind;
         doc = doc_from_attrs (if_attrs item_fn);
         stream = (\<lambda>type_checks impl.
           StreamTokens \<lparr> ms_type_checks = type_checks, ms_doc_comment = comment_text doc name_str,
             ms_visibility = if_vis item_fn, ms_name = name_str, ms_from_impl = impl \<rparr>)
     in (metadata_errors @ params_errors,
         rbind metadata (\<lambda>metadata. rbind params (\<lambda>params.
           case params of
             Some params \<Rightarrow>
               rbind (case metadata of
                        Some metadata \<Rightarrow>
                          rbind (to_api_endpoint_fn L metadata name_str (Regular (FunctionName name_str)) doc) (\<lambda>code.
                            Inr (Construct code))
                      | None \<Rightarrow> Inr ConstructUnreachable) (\<lambda>construct.
                 Inr \<lparr> eo_output = stream (to_type_checks params)
                     (Some \<lparr> fi_name = name_str, fi_context = rqctx_context params, fi_item = item,
                        fi_impl_checks = to_impl_checks params name_str, fi_adapter = None,
                        fi_construct = construct \<rparr>),
                   eo_has_param_errors = False \<rparr>)
           | None \<Rightarrow> Inr \<lparr> eo_output = stream [] None, eo_has_param_errors = True \<rparr>))))"

text \<open>The error of a parse is pushed, and no value is left.\<close>

definition push_err :: "(string, 'a) result \<Rightarrow> 'a option checked" where
  "push_err r = (case r of Inl e \<Rightarrow> ([e], None) | Inr a \<Rightarrow> ([], Some a))"

definition do_endpoint ::
  "'v semver_lib \<Rightarrow> (string \<Rightarrow> string option) \<Rightarrow> trait_item_fn_for_signature option
    \<Rightarrow> (string, ('x, 'v) endpoint_metadata) result \<Rightarrow> (string, item_fn_for_signature) result \<Rightarrow> 'i
    \<Rightarrow> (('i, 'x) macro_tokens \<times> string list) outcome" where
  "do_endpoint L parse_str trait_item_fn metadata item_fn item =
    (case find (\<lambda>f. tf_block f = None) (option_list trait_item_fn) of
       Some f \<Rightarrow> Inr (ItemTokens item, [trait_function_error (sig_ident (tf_sig f))])
     | None \<Rightarrow>
       (let (metadata_errors, metadata) = push_err metadata;
            (fn_errors, item_fn) = push_err item_fn;
            (inner_errors, output) =
              (case (metadata, item_fn) of
                 (Some metadata, Some item_fn) \<Rightarrow> do_endpoint_inner L parse_str metadata item item_fn
               | (None, Some _) \<Rightarrow> ([], Inr \<lparr> eo_output = ItemTokens item, eo_has_param_errors = False \<rparr>)
               | (_, None) \<Rightarrow> ([], Inr \<lparr> eo_output = NoTokens, eo_has_param_errors = False \<rparr>));
            errors = metadata_errors @ fn_errors @ inner_errors
        in rbind output (\<lambda>output.
          if eo_has_param_errors output then
            (case item_fn of
               None \<Rightarrow> Inl (Panic ''has_param_errors is true => item_fn is Some'')
             | Some _ \<Rightarrow> Inr (eo_output output, usage_str ''MyContext'' # errors))
          else Inr (eo_output output, errors))))"

section \<open>The channel macro\<close>

definition do_channel_inner ::
  "'v semver_lib \<Rightarrow> (string \<Rightarrow> string option) \<Rightarrow> (string \<Rightarrow> string \<Rightarrow> syn_type) \<Rightarrow> 'v channel_metadata \<Rightarrow> 'i
    \<Rightarrow> item_fn_for_signature \<Rightarrow> ('i, 'x) endpoint_output outcome checked" where
  "do_channel_inner L parse_str parse_type metadata item item_fn =
    (let dropshot = get_crate parse_str (cm_dropshot_crate metadata);
         name_str = sig_ident (if_sig item_fn);
         (metadata_errors, metadata) = validate_channel_metadata metadata name_str FunctionMacro;
         (params_errors, params) = channel_params_new parse_type dropshot (if_sig item_fn) RqctxFunctionKind;
         doc = doc_from_attrs (if_attrs item_fn);
         stream = (\<lambda>type_checks impl.
           StreamTokens \<lparr> ms_type_checks = type_checks, ms_doc_comment = comment_text doc name_str,
             ms_visibility = if_vis item_fn, ms_name = name_str, ms_from_impl = impl \<rparr>)
     in (metadata_errors @ params_errors,
         rbind params (\<lambda>params.
           case params of
             Some params \<Rightarrow>
               rbind (case metadata of
                        Some metadata \<Rightarrow>
                          rbind (channel_to_api_endpoint_fn L metadata name_str
                              (Regular (FunctionName (cp_adapter_name params))) doc) (\<lambda>code.
                            Inr (Construct code))
                      | None \<Rightarrow> Inr ConstructUnreachable) (\<lambda>construct.
                 Inr \<lparr> eo_output = stream (channel_to_type_checks params)
                     (Some \<lparr> fi_name = name_str, fi_context = channel_rqctx_context params, fi_item = item,
                        fi_impl_checks = channel_to_impl_checks params name_str,
                        fi_adapter = Some (to_adapter_fn params), fi_construct = construct \<rparr>),
                   eo_has_param_errors = False \<rparr>)
           | None \<Rightarrow> Inr \<lparr> eo_output = stream [] None, eo_has_param_errors = True \<rparr>)))"

definition do_channel ::
  "'v semver_lib \<Rightarrow> (string \<Rightarrow> string option) \<Rightarrow> (string \<Rightarrow> string \<Rightarrow> syn_type)
    \<Rightarrow> trait_item_fn_for_signature option \<Rightarrow> (string, 'v channel_metadata) result
    \<Rightarrow> (string, item_fn_for_signature) result \<Rightarrow> 'i \<Rightarrow> (('i, 'x) macro_tokens \<times> string list) outcome" where
  "do_channel L parse_str parse_type trait_item_fn metadata item_fn item =
    (case find (\<lambda>f. tf_block f = None) (option_list trait_item_fn) of
       Some f \<Rightarrow> Inr (ItemTokens item, [trait_function_error (sig_ident (tf_sig f))])
     | None \<Rightarrow>
       (let (metadata_errors, metadata) = push_err metadata;
            (fn_errors, item_fn) = push_err item_fn;
            (inner_errors, output) =
              (case (metadata, item_fn) of
                 (Some metadata, Some item_fn) \<Rightarrow> do_channel_inner L parse_str parse_type metadata item item_fn
               | (None, Some _) \<Rightarrow> ([], Inr \<lparr> eo_output = ItemTokens item, eo_has_param_errors = False \<rparr>)
               | (_, None) \<Rightarrow> ([], Inr \<lparr> eo_output = NoTokens, eo_has_param_errors = False \<rparr>));
            errors = metadata_errors @ fn_errors @ inner_errors
        in rbind output (\<lambda>output.
          if eo_has_param_errors output then
            (case item_fn of
               None \<Rightarrow> Inl (Panic ''has_param_errors is true => item_fn is Some'')
             | Some _ \<Rightarrow> Inr (eo_output output, channel_usage_str ''MyContext'' # errors))
          else Inr (eo_output output, errors))))"

section \<open>Endpoints\<close>

text \<open>When the macro reports no error: the item is no method declaration, both token streams parse,
  and the arguments and the signature are those of an endpoint.\<close>

definition is_endpoint_signature :: "signature \<Rightarrow> rqctx_kind \<Rightarrow> bool" where
  "is_endpoint_signature sig kind \<longleftrightarrow> (\<exists>rq es ret. endpoint_signature sig kind rq es ret)"

definition endpoint_accepted ::
  "trait_item_fn_for_signature option \<Rightarrow> (string, ('x, 'v) endpoint_metadata) result
    \<Rightarrow> (string, item_fn_for_signature) result \<Rightarrow> bool" where
  "endpoint_accepted trait_item_fn metadata item_fn \<longleftrightarrow>
    (\<forall>f. trait_item_fn = Some f \<longrightarrow> tf_block f \<noteq> None)
    \<and> (\<exists>md f. metadata = Inr md \<and> item_fn = Inr f \<and> endpoint_metadata_ok md FunctionMacro
        \<and> is_endpoint_signature (if_sig f) RqctxFunctionKind)"

text \<open>The generated items: without the conversion if the signature is at fault, with an unreachable
  one if the arguments are.\<close>

definition stream_for ::
  "'v::linorder semver_lib \<Rightarrow> ('x, 'v) endpoint_metadata \<Rightarrow> item_fn_for_signature \<Rightarrow> 'i
    \<Rightarrow> (function_path, syn_type, 'x, 'h, 'g, 'v) code_env \<Rightarrow> ('i, 'x) macro_stream \<Rightarrow> bool" where
  "stream_for L md f item env s \<longleftrightarrow> ms_name s = sig_ident (if_sig f)
    \<and> (ms_from_impl s = None \<longleftrightarrow> \<not> is_endpoint_signature (if_sig f) RqctxFunctionKind)
    \<and> (\<forall>impl. ms_from_impl s = Some impl \<longrightarrow> fi_item impl = item
        \<and> (fi_construct impl = ConstructUnreachable \<longleftrightarrow> \<not> endpoint_metadata_ok md FunctionMacro)
        \<and> (\<forall>code. fi_construct impl = Construct code \<longrightarrow>
            builds L code (Regular (FunctionName (sig_ident (if_sig f)))) md (sig_ident (if_sig f)) (doc_from_attrs (if_attrs f)) env))"

lemma do_endpoint_inner_spec:
  assumes "semver_ok L" "range_parsed L (epm_versions md)" "parsed_signature (if_sig f)"
  obtains out errs s where "do_endpoint_inner L parse_str md item f = (errs, Inr out)"
    "errs = [] \<longleftrightarrow> endpoint_metadata_ok md FunctionMacro \<and> is_endpoint_signature (if_sig f) RqctxFunctionKind"
    "eo_has_param_errors out \<longleftrightarrow> \<not> is_endpoint_signature (if_sig f) RqctxFunctionKind"
    "eo_output out = StreamTokens s" "stream_for L md f item env s"
proof -
  let ?name = "sig_ident (if_sig f)"
  let ?d = "get_crate parse_str (epm_dropshot_crate md)"
  obtain me vm where m: "validate_endpoint_metadata md ?name FunctionMacro = (me, Inr vm)"
      "me = [] \<longleftrightarrow> endpoint_metadata_ok md FunctionMacro" "vm = None \<longleftrightarrow> me \<noteq> []"
    using validate_endpoint_metadata_ok by blast
  obtain pe ps where p: "endpoint_params_new ?d (if_sig f) RqctxFunctionKind = (pe, Inr ps)"
      "pe = [] \<longleftrightarrow> is_endpoint_signature (if_sig f) RqctxFunctionKind" "ps = None \<longleftrightarrow> pe \<noteq> []"
    using endpoint_params_new_spec[OF assms(3), of ?d RqctxFunctionKind] unfolding is_endpoint_signature_def by blast
  show ?thesis
  proof (cases vm)
    case None
    then show ?thesis
      using m p that by (cases ps) (simp_all add: do_endpoint_inner_def Let_def stream_for_def)
  next
    case (Some v)
    obtain code where "to_api_endpoint_fn L v ?name (Regular (FunctionName ?name)) (doc_from_attrs (if_attrs f)) = Inr code"
        "builds L code (Regular (FunctionName ?name)) md ?name (doc_from_attrs (if_attrs f)) env"
      using construct_spec[OF assms(1,2) m(1)[unfolded Some]] by blast
    then show ?thesis
      using m p Some that by (cases ps) (simp_all add: do_endpoint_inner_def Let_def stream_for_def)
  qed
qed

section \<open>Channels\<close>

definition is_channel_signature :: "signature \<Rightarrow> rqctx_kind \<Rightarrow> bool" where
  "is_channel_signature sig kind \<longleftrightarrow> (\<exists>rq es conn ret. channel_signature sig kind rq es conn ret)"

definition channel_accepted ::
  "trait_item_fn_for_signature option \<Rightarrow> (string, 'v channel_metadata) result
    \<Rightarrow> (string, item_fn_for_signature) result \<Rightarrow> bool" where
  "channel_accepted trait_item_fn metadata item_fn \<longleftrightarrow>
    (\<forall>f. trait_item_fn = Some f \<longrightarrow> tf_block f \<noteq> None)
    \<and> (\<exists>cm f. metadata = Inr cm \<and> item_fn = Inr f \<and> \<not> is_wildcard_path (cm_path cm)
        \<and> is_channel_signature (if_sig f) RqctxFunctionKind)"

definition channel_stream_for ::
  "'v::linorder semver_lib \<Rightarrow> 'v channel_metadata \<Rightarrow> item_fn_for_signature \<Rightarrow> 'i
    \<Rightarrow> (function_path, syn_type, 'x, 'h, 'g, 'v) code_env \<Rightarrow> ('i, 'x) macro_stream \<Rightarrow> bool" where
  "channel_stream_for L cm f item env s \<longleftrightarrow> ms_name s = sig_ident (if_sig f)
    \<and> (ms_from_impl s = None \<longleftrightarrow> \<not> is_channel_signature (if_sig f) RqctxFunctionKind)
    \<and> (\<forall>impl. ms_from_impl s = Some impl \<longrightarrow> fi_item impl = item
        \<and> (fi_construct impl = ConstructUnreachable \<longleftrightarrow> is_wildcard_path (cm_path cm))
        \<and> (\<exists>a. fi_adapter impl = Some a
            \<and> (\<forall>code. fi_construct impl = Construct code \<longrightarrow>
                builds L code (Regular (FunctionName (af_name a))) (channel_as_endpoint cm) (sig_ident (if_sig f)) (doc_from_attrs (if_attrs f)) env)))"

lemma do_channel_inner_spec:
  fixes env :: "(function_path, syn_type, 'x, 'h, 'g, 'v::linorder) code_env"
  assumes "semver_ok L" "range_parsed L (cm_versions cm)" "parsed_signature (if_sig f)"
  obtains out errs s where "do_channel_inner L parse_str parse_type cm item f = (errs, Inr out)"
    "errs = [] \<longleftrightarrow> \<not> is_wildcard_path (cm_path cm) \<and> is_channel_signature (if_sig f) RqctxFunctionKind"
    "eo_has_param_errors out \<longleftrightarrow> \<not> is_channel_signature (if_sig f) RqctxFunctionKind"
    "eo_output out = StreamTokens s" "channel_stream_for L cm f item env s"
proof -
  let ?name = "sig_ident (if_sig f)"
  let ?d = "get_crate parse_str (cm_dropshot_crate cm)"
  obtain me and vm :: "('x, 'v) validated_channel_metadata option"
    where m: "validate_channel_metadata cm ?name FunctionMacro = (me, vm)"
      "me = [] \<longleftrightarrow> \<not> is_wildcard_path (cm_path cm)" "vm = None \<longleftrightarrow> me \<noteq> []"
    using validate_channel_metadata_ok[of cm ?name FunctionMacro] by auto
  obtain pe ps where p: "channel_params_new parse_type ?d (if_sig f) RqctxFunctionKind = (pe, Inr ps)"
      "pe = [] \<longleftrightarrow> is_channel_signature (if_sig f) RqctxFunctionKind" "ps = None \<longleftrightarrow> pe \<noteq> []"
    using channel_params_new_spec[OF assms(3), of parse_type ?d RqctxFunctionKind]
    unfolding is_channel_signature_def by blast
  show ?thesis
  proof (cases vm)
    case None
    then show ?thesis
      using m p that by (cases ps) (simp_all add: do_channel_inner_def Let_def channel_stream_for_def to_adapter_fn_def)
  next
    case (Some v)
    have range: "range_parsed L (epm_versions (channel_as_endpoint cm))"
      using assms(2) by (simp add: channel_as_endpoint_def)
    note valid = validate_channel_as_endpoint[OF m(1)[unfolded Some]]
    have code: "\<exists>code. channel_to_api_endpoint_fn L v ?name (Regular (FunctionName n)) (doc_from_attrs (if_attrs f)) = Inr code
        \<and> builds L code (Regular (FunctionName n)) (channel_as_endpoint cm) ?name (doc_from_attrs (if_attrs f)) env" for n
      using construct_spec[OF assms(1) range valid]
      unfolding channel_to_api_endpoint_fn_def by blast
    show ?thesis
    proof (cases ps)
      case None
      then show ?thesis using m p that Some
        by (simp add: do_channel_inner_def Let_def channel_stream_for_def)
    next
      case (Some q)
      then show ?thesis
        using code[of "cp_adapter_name q"] m p that \<open>vm = Some v\<close>
        by (auto simp: do_channel_inner_def Let_def channel_stream_for_def to_adapter_fn_def)
    qed
  qed
qed

lemma do_channel_spec:
  fixes env :: "(function_path, syn_type, 'x, 'h, 'g, 'v::linorder) code_env"
  assumes "semver_ok L" "\<And>f. item_fn = Inr f \<Longrightarrow> parsed_signature (if_sig f)"
    and "\<And>cm. metadata = Inr cm \<Longrightarrow> range_parsed L (cm_versions cm)"
  shows "\<exists>out errs. do_channel L parse_str parse_type trait_item_fn metadata item_fn item = Inr (out, errs)
    \<and> (errs = [] \<longleftrightarrow> channel_accepted trait_item_fn metadata item_fn)
    \<and> (errs = [] \<longrightarrow> (\<exists>cm f s. metadata = Inr cm \<and> item_fn = Inr f \<and> out = StreamTokens s
        \<and> ms_from_impl s \<noteq> None \<and> channel_stream_for L cm f item env s))"
proof (cases "find (\<lambda>f. tf_block f = None) (option_list trait_item_fn)")
  case (Some f)
  then have "trait_item_fn = Some f" "tf_block f = None"
    by (auto simp: option_list_def split: option.splits if_splits)
  then show ?thesis using Some by (auto simp: do_channel_def channel_accepted_def)
next
  case None
  then have block: "\<forall>f. trait_item_fn = Some f \<longrightarrow> tf_block f \<noteq> None"
    by (auto simp: option_list_def split: option.splits if_splits)
  show ?thesis
  proof (cases "\<exists>cm f. metadata = Inr cm \<and> item_fn = Inr f")
    case False
    then show ?thesis
      using None by (cases metadata; cases item_fn) (auto simp: do_channel_def channel_accepted_def push_err_def)
  next
    case True
    then obtain cm f where parsed: "metadata = Inr cm" "item_fn = Inr f" by blast
    obtain out errs s where inner: "do_channel_inner L parse_str parse_type cm item f = (errs, Inr out)"
        "errs = [] \<longleftrightarrow> \<not> is_wildcard_path (cm_path cm) \<and> is_channel_signature (if_sig f) RqctxFunctionKind"
        "eo_has_param_errors out \<longleftrightarrow> \<not> is_channel_signature (if_sig f) RqctxFunctionKind"
      and s: "eo_output out = StreamTokens s" "channel_stream_for L cm f item env s"
      by (rule do_channel_inner_spec[OF assms(1) assms(3)[OF parsed(1)] assms(2)[OF parsed(2)]])
    have run: "do_channel L parse_str parse_type trait_item_fn metadata item_fn item =
        Inr (StreamTokens s, (if eo_has_param_errors out then channel_usage_str ''MyContext'' # errs else errs))"
      using None parsed inner(1) s(1) by (simp add: do_channel_def push_err_def)
    have accepted: "channel_accepted trait_item_fn metadata item_fn \<longleftrightarrow> errs = []"
      using block parsed inner(2) by (auto simp: channel_accepted_def)
    have "eo_has_param_errors out \<longrightarrow> errs \<noteq> []" using inner(2,3) by blast
    moreover have "errs = [] \<longrightarrow> ms_from_impl s \<noteq> None" using s(2) inner(2) by (auto simp: channel_stream_for_def)
    ultimately show ?thesis using run accepted parsed s(2) by auto
  qed
qed

section \<open>Properties\<close>

text \<open>C28. The endpoint macro is a correct compiler that never panics: it reports no error exactly
  when both token streams parse, the arguments are valid and the function is a handler; its output
  then converts the constant of the function's name into the endpoint that arguments, documentation
  and types describe, whatever the constants in the arguments stand for.  The usage message comes
  first when the signature is at fault, and code that would be unreachable is generated only
  together with an error.\<close>

theorem endpoint_macro_correct:
  fixes env :: "(function_path, syn_type, 'x, 'h, 'g, 'v::linorder) code_env"
  assumes "semver_ok L" "\<And>f. item_fn = Inr f \<Longrightarrow> parsed_signature (if_sig f)"
    and "\<And>md. metadata = Inr md \<Longrightarrow> range_parsed L (epm_versions md)"
  shows "\<exists>out errs. do_endpoint L parse_str trait_item_fn metadata item_fn item = Inr (out, errs)
    \<and> (errs = [] \<longleftrightarrow> endpoint_accepted trait_item_fn metadata item_fn)
    \<and> (errs = [] \<longrightarrow> (\<exists>md f s impl code. metadata = Inr md \<and> item_fn = Inr f \<and> out = StreamTokens s
        \<and> ms_name s = sig_ident (if_sig f) \<and> ms_from_impl s = Some impl \<and> fi_item impl = item
        \<and> fi_construct impl = Construct code \<and> builds L code (Regular (FunctionName (sig_ident (if_sig f)))) md (sig_ident (if_sig f)) (doc_from_attrs (if_attrs f)) env))
    \<and> (\<forall>s impl. out = StreamTokens s \<longrightarrow> ms_from_impl s = Some impl \<longrightarrow> fi_construct impl = ConstructUnreachable \<longrightarrow> errs \<noteq> [])
    \<and> (\<forall>s. out = StreamTokens s \<longrightarrow> ms_from_impl s = None \<longrightarrow> (\<exists>more. errs = usage_str ''MyContext'' # more))"
proof (cases "find (\<lambda>f. tf_block f = None) (option_list trait_item_fn)")
  case (Some f)
  then have "trait_item_fn = Some f" "tf_block f = None"
    by (auto simp: option_list_def split: option.splits if_splits)
  then show ?thesis using Some by (auto simp: do_endpoint_def endpoint_accepted_def)
next
  case None
  then have block: "\<forall>f. trait_item_fn = Some f \<longrightarrow> tf_block f \<noteq> None"
    by (auto simp: option_list_def split: option.splits if_splits)
  show ?thesis
  proof (cases "\<exists>md f. metadata = Inr md \<and> item_fn = Inr f")
    case False
    then show ?thesis
      using None by (cases metadata; cases item_fn)
        (auto simp: do_endpoint_def endpoint_accepted_def push_err_def)
  next
    case True
    then obtain md f where parsed: "metadata = Inr md" "item_fn = Inr f" by blast
    obtain out errs s where inner: "do_endpoint_inner L parse_str md item f = (errs, Inr out)"
        "errs = [] \<longleftrightarrow> endpoint_metadata_ok md FunctionMacro \<and> is_endpoint_signature (if_sig f) RqctxFunctionKind"
        "eo_has_param_errors out \<longleftrightarrow> \<not> is_endpoint_signature (if_sig f) RqctxFunctionKind"
      and s: "eo_output out = StreamTokens s" "stream_for L md f item env s"
      by (rule do_endpoint_inner_spec[OF assms(1) assms(3)[OF parsed(1)] assms(2)[OF parsed(2)]])
    have run: "do_endpoint L parse_str trait_item_fn metadata item_fn item =
        Inr (StreamTokens s, (if eo_has_param_errors out then usage_str ''MyContext'' # errs else errs))"
      using None parsed inner(1) s(1) by (simp add: do_endpoint_def push_err_def)
    have accepted: "endpoint_accepted trait_item_fn metadata item_fn \<longleftrightarrow> errs = []"
      using block parsed inner(2) by (auto simp: endpoint_accepted_def)
    show ?thesis
    proof (cases "eo_has_param_errors out")
      case True
      then show ?thesis using run accepted inner(2,3) s(2) by (auto simp: stream_for_def)
    next
      case False
      then obtain impl where impl: "ms_from_impl s = Some impl" using inner(3) s(2) by (auto simp: stream_for_def)
      then show ?thesis
        using False run accepted inner(2) parsed s(2) by (cases "fi_construct impl") (auto simp: stream_for_def)
    qed
  qed
qed

definition sample_types :: "nat handler_types" where
  "sample_types = \<lparr> ht_parameters = (\<lambda>_. \<lparr> em_extension_mode = ModeNone, em_parameters = [] \<rparr>),
    ht_response = api_endpoint_response_default, ht_error = None \<rparr>"

definition sample_env ::
  "(function_path, syn_type, nat, function_path, nat, 64 word \<times> 64 word \<times> 64 word) code_env" where
  "sample_env = \<lparr> env_version = (\<lambda>_. (2, 0, 0)), env_max_bytes = (\<lambda>n. n), env_handler = (\<lambda>f. f),
    env_handler_types = (\<lambda>_. sample_types), env_types = (\<lambda>_ _. sample_types), env_stub = FunctionName \<rparr>"

definition sample_fn :: item_fn_for_signature where
  "sample_fn = \<lparr> if_attrs = [], if_vis = ''pub'', if_sig = sample_signature \<rparr>"

theorem endpoint_macro_correct_witness:
  "\<exists>s impl code e. do_endpoint sample_semver (\<lambda>_. None) None (Inr sample_metadata) (Inr sample_fn) ''fn f''
        = Inr (StreamTokens s, [])
    \<and> ms_from_impl s = Some impl \<and> fi_construct impl = Construct code
    \<and> run_endpoint_code sample_semver sample_env code = Inr e
    \<and> operation_id e = ''f'' \<and> handler e = FunctionName ''f'' \<and> method e = ''PUT'' \<and> path e = ''/a/{x}'' \<and> tags e = [''t'']
    \<and> request_body_max_bytes e = Some 7 \<and> visible e \<and> deprecated e
    \<and> versions e = FromUntil (OrderedVersionPair (1, 0, 0) (2, 0, 0))"
proof -
  have lib: "semver_ok sample_semver" by (simp add: semver_ok_def sample_semver_def)
  have parsed: "parsed_signature (if_sig f)" if "(Inr sample_fn :: (string, item_fn_for_signature) result) = Inr f" for f
    using that by (auto simp: sample_fn_def parsed_signature_def sample_signature_def)
  have range: "range_parsed sample_semver (epm_versions md)"
    if "(Inr sample_metadata :: (string, (nat, 64 word \<times> 64 word \<times> 64 word) endpoint_metadata) result) = Inr md" for md
    proof -
    have "epm_versions md = Some (RangeFromUntil (VersionLiteral (1, 0, 0)) (VersionIdentifier ''V2''))"
      using that by (auto simp: sample_metadata_def)
    then show ?thesis using sample_range_parsed unfolding range_parsed_def by (metis option.inject)
  qed
  have "endpoint_metadata_ok sample_metadata FunctionMacro"
    by (auto simp: endpoint_metadata_ok_def sample_metadata_def starts_with_def MULTIPART_FORM_DATA_def
        intro!: exI[of _ ValidMultipartFormData])
  moreover have "is_endpoint_signature sample_signature RqctxFunctionKind"
    using sample_rqctx_ok plain_ident_type unfolding is_endpoint_signature_def
    by (intro exI[of _ sample_rqctx] exI[of _ "[ident_type ''Q'', ident_type ''B'']"] exI[of _ "ident_type ''R''"])
      (auto simp: endpoint_signature_def sample_signature_def fn_ok_def simp del: rqctx_ok.simps)
  ultimately have "endpoint_accepted None (Inr sample_metadata :: (string, _) result) (Inr sample_fn :: (string, _) result)"
    by (simp add: endpoint_accepted_def sample_fn_def)
  then obtain s impl code where s: "do_endpoint sample_semver (\<lambda>_. None) None (Inr sample_metadata) (Inr sample_fn) ''fn f''
        = Inr (StreamTokens s, [])" "ms_from_impl s = Some impl" "fi_construct impl = Construct code"
      "builds sample_semver code (Regular (FunctionName ''f'')) sample_metadata ''f'' (doc_from_attrs []) sample_env"
    using endpoint_macro_correct[where item_fn = "Inr sample_fn" and metadata = "Inr sample_metadata"
        and parse_str = "\<lambda>_. None" and trait_item_fn = None and item = "''fn f''" and env = sample_env,
        OF lib parsed range]
    by (auto simp: sample_fn_def sample_signature_def)
  have "declared_versions sample_env (unwrap_or (epm_versions sample_metadata) RangeAll) =
      Inr (FromUntil (OrderedVersionPair (1, 0, 0) (2, 0, 0)))"
    by (simp add: sample_metadata_def unwrap_or_def sample_env_def)
  then obtain e where e: "run_endpoint_code sample_semver sample_env code = Inr e"
      "described_by sample_env (Regular (FunctionName ''f'')) sample_metadata ''f'' (doc_from_attrs [])
        (FromUntil (OrderedVersionPair (1, 0, 0) (2, 0, 0))) e"
    using s(4) by (auto simp: builds_def Let_def)
  have "operation_id e = ''f''" "handler e = FunctionName ''f''" "method e = ''PUT''" "path e = ''/a/{x}''" "tags e = [''t'']"
    "request_body_max_bytes e = Some 7" "visible e" "deprecated e"
    "versions e = FromUntil (OrderedVersionPair (1, 0, 0) (2, 0, 0))"
    using e(2)
    by (simp_all add: described_by_def kind_handler_def sample_metadata_def sample_fn_def sample_signature_def unwrap_or_def sample_env_def)
      (metis api_endpoint.select_convs)+
  then show ?thesis using s(1-3) e(1) by blast
qed

end
