(* ===== verification/Macro_Module_Doc.thy ===== *)
theory Macro_Module_Doc
  imports Macro_Endpoint
begin

text \<open>
  The documentation of the support module that the macro on traits generates
  (\<^verbatim>\<open>ModuleDocComments\<close> in \<^verbatim>\<open>dropshot_endpoint/src/api_trait.rs\<close>): the texts, line by line, and the doc
  attributes that are made of them.
\<close>

definition text_lines :: "string list \<Rightarrow> string" where
  "text_lines ls = concat (map (\<lambda>l. l @ NL) ls)"

record module_doc_comments =
  mdc_outer :: string
  mdc_api_description :: string
  mdc_stub_api_description :: string

section \<open>Of a valid trait\<close>

definition outer_doc :: "string \<Rightarrow> string" where
  "outer_doc tr_ident =
    ''Support module for the Dropshot API trait [`'' @ tr_ident @ ''`]('' @ tr_ident @ '').''"

definition api_description_doc :: "string \<Rightarrow> string \<Rightarrow> string \<Rightarrow> string \<Rightarrow> string" where
  "api_description_doc dropshot tr_ident ctx_ident module_ident =
    text_lines [
      ''Given an implementation of [`'' @ tr_ident @ ''`], generate an API description.'',
      [],
      ''This function accepts a single type argument `ServerImpl`, turning it into a'',
      ''Dropshot [`ApiDescription`]`<ServerImpl::`[`'' @ ctx_ident @ ''`]`>`.'',
      ''The returned `ApiDescription` can then be turned into a Dropshot server that'',
      ''accepts a concrete `'' @ ctx_ident @ ''`.'',
      [],
      ''## Example'',
      [],
      ''```rust,ignore'',
      ''/// A type used to define the concrete implementation for `'' @ tr_ident @ ''`.'',
      ''///'',
      ''/// This type is never constructed -- it is just a place to define your'',
      ''/// implementation of `'' @ tr_ident @ ''`.'',
      ''enum '' @ tr_ident @ ''Impl {}'',
      [],
      ''impl '' @ tr_ident @ '' for '' @ tr_ident @ ''Impl {'',
      ''    type '' @ ctx_ident @ '' = /* context type */;'',
      [],
      ''    // ... trait methods'',
      ''}'',
      [],
      ''#[tokio::main]'',
      ''async fn main() {'',
      ''    // Generate the description for `'' @ tr_ident @ ''Impl`.'',
      ''    let description = '' @ module_ident @ ''::api_description::<'' @ tr_ident @ ''Impl>().unwrap();'',
      [],
      ''    // Create a value of the concrete context type.'',
      ''    let context = /* some value of type `'' @ tr_ident @ ''Impl::'' @ ctx_ident @ ''` */;'',
      [],
      ''    // Create a Dropshot server from the description.'',
      ''    let log = /* ... */;'',
      ''    let server = dropshot::ServerBuilder::new(description, context, log)'',
      ''        .start()'',
      ''        .unwrap();'',
      [],
      ''    // Run the server.'',
      ''    server.await'',
      ''}'',
      ''```'',
      [],
      ''[`ApiDescription`]: '' @ dropshot @ ''::ApiDescription'',
      ''[`'' @ tr_ident @ ''`]: '' @ tr_ident,
      ''[`'' @ ctx_ident @ ''`]: '' @ tr_ident @ ''::'' @ ctx_ident]"

definition stub_api_description_doc :: "string \<Rightarrow> string \<Rightarrow> string \<Rightarrow> string" where
  "stub_api_description_doc dropshot tr_ident module_ident =
    text_lines [
      ''Generate a _stub_ API description for [`'' @ tr_ident @ ''`], meant for OpenAPI'',
      ''generation.'',
      [],
      ''Unlike [`api_description`], this function does not require an implementation'',
      ''of [`'' @ tr_ident @ ''`] to be available, instead generating handlers that panic.'',
      ''The return value is of type [`ApiDescription`]`<`[`StubContext`]`>`.'',
      [],
      ''The main use of this function is in cases where [`'' @ tr_ident @ ''`] is defined'',
      ''in a separate crate from its implementation. The OpenAPI spec can then be'',
      ''generated directly from the stub API description.'',
      [],
      ''## Example'',
      [],
      ''A function that prints the OpenAPI spec to standard output:'',
      [],
      ''```rust,ignore'',
      ''fn print_openapi_spec() {'',
      ''    let stub = '' @ module_ident @ ''::stub_api_description().unwrap();'',
      [],
      ''    // Generate OpenAPI spec from `stub`.'',
      ''    let spec = stub.openapi(\"'' @ tr_ident @ ''\", \"0.1.0\");'',
      ''    spec.write(&mut std::io::stdout()).unwrap();'',
      ''}'',
      ''```'',
      [],
      ''[`'' @ tr_ident @ ''`]: '' @ tr_ident,
      ''[`api_description`]: '' @ module_ident @ ''::api_description'',
      ''[`ApiDescription`]: '' @ dropshot @ ''::ApiDescription'',
      ''[`StubContext`]: '' @ dropshot @ ''::StubContext'']"

definition doc_comments_generate :: "string \<Rightarrow> string \<Rightarrow> string \<Rightarrow> string \<Rightarrow> module_doc_comments" where
  "doc_comments_generate dropshot tr_ident ctx_ident module_ident =
    \<lparr> mdc_outer = outer_doc tr_ident,
      mdc_api_description = api_description_doc dropshot tr_ident ctx_ident module_ident,
      mdc_stub_api_description = stub_api_description_doc dropshot tr_ident module_ident \<rparr>"

section \<open>Of an invalid trait\<close>

definition outer_doc_invalid :: "string \<Rightarrow> string" where
  "outer_doc_invalid tr_ident =
    text_lines [
      ''**Invalid**: Support module for the Dropshot API trait `'' @ tr_ident @ ''`.'',
      [],
      ''Errors were encountered while parsing the API.'']"

definition api_description_doc_invalid :: "string \<Rightarrow> string" where
  "api_description_doc_invalid tr_ident =
    text_lines [
      ''**Invalid, panics:** Given an implementation of `'' @ tr_ident @ ''`, generate an API description.'',
      [],
      ''Errors were encountered while parsing the API, so this function panics.'']"

definition stub_api_description_doc_invalid :: "string \<Rightarrow> string" where
  "stub_api_description_doc_invalid tr_ident =
    text_lines [
      ''**Invalid, panics:** Generate a _stub_ API description for `'' @ tr_ident @ ''`, meant for OpenAPI'',
      ''generation.'',
      [],
      ''Errors were encountered while parsing the API, so this function panics.'']"

definition doc_comments_generate_invalid :: "string \<Rightarrow> module_doc_comments" where
  "doc_comments_generate_invalid tr_ident =
    \<lparr> mdc_outer = outer_doc_invalid tr_ident,
      mdc_api_description = api_description_doc_invalid tr_ident,
      mdc_stub_api_description = stub_api_description_doc_invalid tr_ident \<rparr>"

section \<open>Doc attributes\<close>

definition outer_attrs :: "module_doc_comments \<Rightarrow> doc_attribute list" where
  "outer_attrs doc = string_to_doc_attrs (mdc_outer doc)"

definition api_description_attrs :: "module_doc_comments \<Rightarrow> doc_attribute list" where
  "api_description_attrs doc = string_to_doc_attrs (mdc_api_description doc)"

definition stub_api_description_attrs :: "module_doc_comments \<Rightarrow> doc_attribute list" where
  "stub_api_description_attrs doc = string_to_doc_attrs (mdc_stub_api_description doc)"

end
