(* ===== verification/Macro_Trait.thy ===== *)
theory Macro_Trait
  imports Macro_Module_Doc Api_Register
begin

text \<open>
  The macro on API traits (\<^verbatim>\<open>dropshot_endpoint/src/api_trait.rs\<close>): the items of a trait are
  sorted into endpoints, channels and others, the trait is put out again with its recognized
  attributes stripped, and a support module is generated whose functions build an API
  description.  The generated functions are a datatype, and \<open>run_factory\<close> is their meaning over
  \<^verbatim>\<open>ApiDescription::register\<close>.

  The items come as \<^verbatim>\<open>syn_parsing.rs\<close> and \<^verbatim>\<open>syn\<close> parse them; a recognized attribute comes with
  what \<^verbatim>\<open>serde_tokenstream\<close> makes of its tokens.
\<close>

section \<open>Traits and their items\<close>

text \<open>An attribute whose path is \<^verbatim>\<open>endpoint\<close> or \<^verbatim>\<open>channel\<close>, of the form of a list or not.\<close>

datatype 'm attr_meta = MetaList "(string, 'm) result" | MetaOther

datatype ('x, 'v) trait_attribute =
    AttrDoc string
  | AttrEndpoint "('x, 'v) endpoint_metadata attr_meta"
  | AttrChannel "'v channel_metadata attr_meta"
  | AttrOther string

datatype block_tokens = UnparsedBlock string | AsyncMoveBlock block_tokens

record ('x, 'v) trait_fn =
  tfn_attrs :: "('x, 'v) trait_attribute list"
  tfn_sig :: signature
  tfn_block :: "block_tokens option"

record ('x, 'v) trait_type =
  tt_attrs :: "('x, 'v) trait_attribute list"
  tt_ident :: string
  tt_generics :: "string list"
  tt_bounds :: "string list"

datatype ('x, 'v) trait_item =
    ItemConst string "('x, 'v) trait_attribute list"
  | ItemFn "('x, 'v) trait_attribute list"
  | ItemType "('x, 'v) trait_type"
  | ItemMacro string "('x, 'v) trait_attribute list"
  | ItemVerbatim string

datatype ('x, 'v) trait_item_part_parsed =
    PartFn "('x, 'v) trait_fn"
  | PartOther "('x, 'v) trait_item"

datatype visibility = VisPublic | VisOther string

record ('x, 'v) item_trait =
  it_attrs :: "('x, 'v) trait_attribute list"
  it_vis :: visibility
  it_unsafety :: bool
  it_auto :: bool
  it_ident :: string
  it_generics :: "string list"
  it_where_clause :: "string list option"
  it_supertraits :: "string list"
  it_items :: "('x, 'v) trait_item_part_parsed list"

section \<open>Arguments of the macro\<close>

record api_tag_external_docs =
  ated_description :: "string option"
  ated_url :: string

record api_tag_details =
  atd_description :: "string option"
  atd_external_docs :: "api_tag_external_docs option"

text \<open>\<open>'p\<close> are expressions of the type of tag policies; the map of tags is in the order in which
  it is iterated.\<close>

record 'p api_tag_config =
  atc_allow_other_tags :: bool
  atc_policy :: "'p option"
  atc_tags :: "(string \<times> api_tag_details) list"

record 'p api_metadata =
  am_context :: "string option"
  am_module :: "string option"
  am_tag_config :: "'p api_tag_config option"
  am_dropshot_crate :: "string option"

definition DEFAULT_CONTEXT_NAME :: string where
  "DEFAULT_CONTEXT_NAME = ''Context''"

definition context_name :: "'p api_metadata \<Rightarrow> string" where
  "context_name m = unwrap_or (am_context m) DEFAULT_CONTEXT_NAME"

definition support_module_name :: "(string \<Rightarrow> string) \<Rightarrow> 'p api_metadata \<Rightarrow> string \<Rightarrow> string" where
  "support_module_name to_snake_case m tr_ident = unwrap_or (am_module m) (to_snake_case tr_ident @ ''_mod'')"

section \<open>Recognized attributes\<close>

fun is_recognized :: "('x, 'v) trait_attribute \<Rightarrow> bool" where
  "is_recognized (AttrEndpoint _) = True"
| "is_recognized (AttrChannel _) = True"
| "is_recognized _ = False"

definition strip_attrs :: "('x, 'v) trait_attribute list \<Rightarrow> ('x, 'v) trait_attribute list" where
  "strip_attrs attrs = filter (\<lambda>a. \<not> is_recognized a) attrs"

fun strip_item :: "('x, 'v) trait_item \<Rightarrow> ('x, 'v) trait_item" where
  "strip_item (ItemConst i attrs) = ItemConst i (strip_attrs attrs)"
| "strip_item (ItemFn attrs) = ItemFn (strip_attrs attrs)"
| "strip_item (ItemType t) = ItemType (t\<lparr> tt_attrs := strip_attrs (tt_attrs t) \<rparr>)"
| "strip_item (ItemMacro p attrs) = ItemMacro p (strip_attrs attrs)"
| "strip_item (ItemVerbatim v) = ItemVerbatim v"

definition strip_fn :: "('x, 'v) trait_fn \<Rightarrow> ('x, 'v) trait_fn" where
  "strip_fn f = f\<lparr> tfn_attrs := strip_attrs (tfn_attrs f) \<rparr>"

fun strip_part_parsed :: "('x, 'v) trait_item_part_parsed \<Rightarrow> ('x, 'v) trait_item_part_parsed" where
  "strip_part_parsed (PartFn f) = PartFn (strip_fn f)"
| "strip_part_parsed (PartOther x) = PartOther (strip_item x)"

fun doc_of_attribute :: "('x, 'v) trait_attribute \<Rightarrow> doc_attribute" where
  "doc_of_attribute (AttrDoc s) = DocAttr s"
| "doc_of_attribute _ = OtherAttr"

definition fn_doc :: "('x, 'v) trait_fn \<Rightarrow> extracted_doc" where
  "fn_doc f = doc_from_attrs (map doc_of_attribute (tfn_attrs f))"

text \<open>The bounds of the returned future, and the async block around the body.\<close>

definition future_type :: "syn_type \<Rightarrow> (syn_type \<Rightarrow> string) \<Rightarrow> syn_type" where
  "future_type ret_ty print =
    TypeImplTrait (''::core::future::Future<Output = '' @ print ret_ty @ ''> + Send + 'static'')"

definition transform_signature ::
  "(syn_type \<Rightarrow> string) \<Rightarrow> ('x, 'v) trait_fn \<Rightarrow> syn_type \<Rightarrow> ('x, 'v) trait_fn" where
  "transform_signature print f ret_ty =
    (let f = strip_fn f
     in f\<lparr> tfn_sig := (tfn_sig f)\<lparr> sig_asyncness := False, sig_output := ReturnType (future_type ret_ty print) \<rparr>,
         tfn_block := map_option AsyncMoveBlock (tfn_block f) \<rparr>)"

section \<open>The trait and its context\<close>

definition api_item_trait_new :: "('x, 'v) item_trait \<Rightarrow> bool checked" where
  "api_item_trait_new item =
    (let err = (\<lambda>what. ''API trait `'' @ it_ident item @ ''` must not '' @ what);
         errors =
           (if it_unsafety item then [err ''be marked as `unsafe`''] else [])
           @ (if it_auto item then [err ''be an auto trait''] else [])
           @ (if it_generics item \<noteq> [] then [err ''have generics''] else [])
           @ (case it_where_clause item of
                Some predicates \<Rightarrow> if predicates \<noteq> [] then [err ''have a where clause''] else []
              | None \<Rightarrow> [])
     in (errors, errors = []))"

datatype ('x, 'v) context_item =
    ContextValid "('x, 'v) trait_type"
  | ContextInvalid "('x, 'v) trait_type"
  | ContextMissing string

definition context_item_new :: "('x, 'v) trait_type \<Rightarrow> ('x, 'v) context_item checked" where
  "context_item_new ty =
    (if tt_generics ty \<noteq> [] then
       ([''context type `'' @ tt_ident ty @ ''` must not have generics''], ContextInvalid ty)
     else ([], ContextValid ty))"

text \<open>\<^verbatim>\<open>format_ident!\<close> panics on a text that is no identifier; \<open>is_ident\<close> is what \<^verbatim>\<open>proc_macro2\<close>
  makes of a text.\<close>

definition format_ident :: "(string \<Rightarrow> bool) \<Rightarrow> string \<Rightarrow> string outcome" where
  "format_ident is_ident name =
    (if is_ident name then Inr name else Inl (Panic (name @ '' is not a valid Ident'')))"

definition context_item_new_missing ::
  "(string \<Rightarrow> bool) \<Rightarrow> string \<Rightarrow> string \<Rightarrow> ('x, 'v) context_item outcome checked" where
  "context_item_new_missing is_ident name tr_ident =
    ([''API trait `'' @ tr_ident @ ''` does not have associated type `'' @ name @ ''`'' @ NL
      @ ''(this type specifies the shared context for endpoints)''],
      rbind (format_ident is_ident name) (\<lambda>ident. Inr (ContextMissing ident)))"

fun context_item_ident :: "('x, 'v) context_item \<Rightarrow> string" where
  "context_item_ident (ContextValid ty) = tt_ident ty"
| "context_item_ident (ContextInvalid ty) = tt_ident ty"
| "context_item_ident (ContextMissing ident) = ident"

fun context_original_item :: "('x, 'v) context_item \<Rightarrow> ('x, 'v) trait_type option" where
  "context_original_item (ContextValid ty) = Some ty"
| "context_original_item (ContextInvalid ty) = Some ty"
| "context_original_item (ContextMissing _) = None"

fun context_valid_item :: "('x, 'v) context_item \<Rightarrow> ('x, 'v) trait_type option" where
  "context_valid_item (ContextValid ty) = Some ty"
| "context_valid_item _ = None"

section \<open>Functions of the trait\<close>

record ('x, 'v) api_endpoint_item =
  aei_f :: "('x, 'v) trait_fn"
  aei_trait_ident :: string
  aei_metadata :: "('x, 'v) validated_endpoint_metadata"
  aei_params :: endpoint_params

record ('x, 'v) api_channel_item =
  aci_f :: "('x, 'v) trait_fn"
  aci_trait_ident :: string
  aci_metadata :: "('x, 'v) validated_channel_metadata"
  aci_params :: channel_params

record api_item_error_summary =
  has_param_errors :: bool

datatype invalid_api_item_kind =
    InvalidEndpoint api_item_error_summary
  | InvalidChannel api_item_error_summary
  | InvalidUnknown

datatype ('x, 'v) api_fn_item =
    FnEndpoint "('x, 'v) api_endpoint_item"
  | FnChannel "('x, 'v) api_channel_item"
  | FnInvalid "('x, 'v) trait_fn" invalid_api_item_kind
  | FnUnmanaged "('x, 'v) trait_fn"

datatype ('x, 'v) api_item =
    ApiFn "('x, 'v) api_fn_item"
  | ApiOther "('x, 'v) trait_item_part_parsed"

definition parse_endpoint_metadata ::
  "string \<Rightarrow> ('x, 'v) endpoint_metadata attr_meta \<Rightarrow> ('x, 'v) validated_endpoint_metadata option outcome checked" where
  "parse_endpoint_metadata name_str meta =
    (case meta of
       MetaOther \<Rightarrow>
         ([''endpoint `'' @ name_str @ ''` must be of the form #[endpoint { method = GET, path = \"/path\", ... }]''], Inr None)
     | MetaList (Inr m) \<Rightarrow> validate_endpoint_metadata m name_str TraitMacro
     | MetaList (Inl e) \<Rightarrow> ([''endpoint `'' @ name_str @ ''` has invalid attributes: '' @ e], Inr None))"

definition parse_channel_metadata ::
  "string \<Rightarrow> 'v channel_metadata attr_meta \<Rightarrow> ('x, 'v) validated_channel_metadata option checked" where
  "parse_channel_metadata name_str meta =
    (case meta of
       MetaOther \<Rightarrow>
         ([''endpoint `'' @ name_str @ ''` must be of the form #[channel { protocol = WEBSOCKETS, path = \"/path\", ... }]''], None)
     | MetaList (Inr m) \<Rightarrow> validate_channel_metadata m name_str TraitMacro
     | MetaList (Inl e) \<Rightarrow> ([''endpoint `'' @ name_str @ ''` has invalid attributes: '' @ e], None))"

definition api_endpoint_item_new ::
  "string \<Rightarrow> ('x, 'v) trait_fn \<Rightarrow> ('x, 'v) endpoint_metadata attr_meta \<Rightarrow> string \<Rightarrow> string
    \<Rightarrow> (api_item_error_summary, ('x, 'v) api_endpoint_item) result outcome checked" where
  "api_endpoint_item_new dropshot f meta tr ctx =
    (let name_str = sig_ident (tfn_sig f);
         (metadata_errors, metadata) = parse_endpoint_metadata name_str meta;
         (params_errors, params) = endpoint_params_new dropshot (tfn_sig f) (RqctxTraitKind tr ctx)
     in (metadata_errors @ params_errors,
         rbind metadata (\<lambda>metadata. rbind params (\<lambda>params.
           Inr (case (metadata, params) of
                  (Some metadata, Some params) \<Rightarrow>
                    Inr \<lparr> aei_f = f, aei_trait_ident = tr, aei_metadata = metadata, aei_params = params \<rparr>
                | (_, params) \<Rightarrow> Inl \<lparr> has_param_errors = (params = None) \<rparr>)))))"

definition api_channel_item_new ::
  "(string \<Rightarrow> string \<Rightarrow> syn_type) \<Rightarrow> string \<Rightarrow> ('x, 'v) trait_fn \<Rightarrow> 'v channel_metadata attr_meta \<Rightarrow> string \<Rightarrow> string
    \<Rightarrow> (api_item_error_summary, ('x, 'v) api_channel_item) result outcome checked" where
  "api_channel_item_new parse_type dropshot f meta tr ctx =
    (let name_str = sig_ident (tfn_sig f);
         (metadata_errors, metadata) = parse_channel_metadata name_str meta;
         (params_errors, params) = channel_params_new parse_type dropshot (tfn_sig f) (RqctxTraitKind tr ctx)
     in (metadata_errors @ params_errors,
         rbind params (\<lambda>params.
           Inr (case (metadata, params) of
                  (Some metadata, Some params) \<Rightarrow>
                    Inr \<lparr> aci_f = f, aci_trait_ident = tr, aci_metadata = metadata, aci_params = params \<rparr>
                | (_, params) \<Rightarrow> Inl \<lparr> has_param_errors = (params = None) \<rparr>))))"

text \<open>The message for a further attribute.\<close>

fun further_attr_error :: "string \<Rightarrow> ('x, 'v) trait_attribute \<Rightarrow> ('x, 'v) trait_attribute \<Rightarrow> string" where
  "further_attr_error name (AttrEndpoint _) (AttrEndpoint _) =
    ''method `'' @ name @ ''` marked as endpoint multiple times''"
| "further_attr_error name (AttrChannel _) (AttrChannel _) =
    ''method `'' @ name @ ''` marked as channel multiple times''"
| "further_attr_error name _ _ = ''method `'' @ name @ ''` marked as both endpoint and channel''"

definition api_fn_item_new ::
  "(string \<Rightarrow> string \<Rightarrow> syn_type) \<Rightarrow> string \<Rightarrow> ('x, 'v) trait_fn \<Rightarrow> string \<Rightarrow> string
    \<Rightarrow> ('x, 'v) api_fn_item outcome checked" where
  "api_fn_item_new parse_type dropshot f tr ctx =
    (case filter is_recognized (tfn_attrs f) of
       [] \<Rightarrow> ([], Inr (FnUnmanaged f))
     | [AttrEndpoint meta] \<Rightarrow>
         (let (errors, r) = api_endpoint_item_new dropshot f meta tr ctx
          in (errors, rbind r (\<lambda>r. Inr (case r of
               Inr ep \<Rightarrow> FnEndpoint ep | Inl sm \<Rightarrow> FnInvalid f (InvalidEndpoint sm)))))
     | [AttrChannel meta] \<Rightarrow>
         (let (errors, r) = api_channel_item_new parse_type dropshot f meta tr ctx
          in (errors, rbind r (\<lambda>r. Inr (case r of
               Inr ch \<Rightarrow> FnChannel ch | Inl sm \<Rightarrow> FnInvalid f (InvalidChannel sm)))))
     | first # rest \<Rightarrow>
         (map (further_attr_error (sig_ident (tfn_sig f)) first) rest, Inr (FnInvalid f InvalidUnknown)))"

definition api_item_is_invalid :: "('x, 'v) api_item \<Rightarrow> bool" where
  "api_item_is_invalid item = (case item of ApiFn (FnInvalid _ _) \<Rightarrow> True | _ \<Rightarrow> False)"

fun fn_to_out_trait_item :: "(syn_type \<Rightarrow> string) \<Rightarrow> ('x, 'v) api_fn_item \<Rightarrow> ('x, 'v) trait_fn" where
  "fn_to_out_trait_item print (FnEndpoint ep) = transform_signature print (aei_f ep) (ep_ret_ty (aei_params ep))"
| "fn_to_out_trait_item print (FnChannel ch) = transform_signature print (aci_f ch) (cp_ret_ty (aci_params ch))"
| "fn_to_out_trait_item print (FnInvalid f _) = strip_fn f"
| "fn_to_out_trait_item print (FnUnmanaged f) = strip_fn f"

fun to_out_trait_item :: "(syn_type \<Rightarrow> string) \<Rightarrow> ('x, 'v) api_item \<Rightarrow> ('x, 'v) trait_item_part_parsed" where
  "to_out_trait_item print (ApiFn f) = PartFn (fn_to_out_trait_item print f)"
| "to_out_trait_item print (ApiOther x) = strip_part_parsed x"

section \<open>Sorting the items\<close>

fun is_endpoint_attr :: "('x, 'v) trait_attribute \<Rightarrow> bool" where
  "is_endpoint_attr (AttrEndpoint _) = True"
| "is_endpoint_attr _ = False"

fun is_channel_attr :: "('x, 'v) trait_attribute \<Rightarrow> bool" where
  "is_channel_attr (AttrChannel _) = True"
| "is_channel_attr _ = False"

definition check_endpoint_or_channel_on_non_fn ::
  "string \<Rightarrow> string \<Rightarrow> ('x, 'v) trait_attribute list \<Rightarrow> string list" where
  "check_endpoint_or_channel_on_non_fn kind name attrs =
    (if list_ex is_endpoint_attr attrs then [kind @ '' `'' @ name @ ''` marked as endpoint is not a method''] else [])
    @ (if list_ex is_channel_attr attrs then [kind @ '' `'' @ name @ ''` marked as channel is not a method''] else [])"

text \<open>The pass that looks for the context item, with the error of that item.\<close>

fun find_context :: "string \<Rightarrow> ('x, 'v) trait_item_part_parsed list \<Rightarrow> ('x, 'v) context_item checked option" where
  "find_context name [] = None"
| "find_context name (PartOther (ItemType ty) # items) =
    (if tt_ident ty = name then Some (context_item_new ty) else find_context name items)"
| "find_context name (_ # items) = find_context name items"

text \<open>What an item other than a function becomes: whether it is kept in the list.\<close>

fun check_other :: "string \<Rightarrow> ('x, 'v) trait_item \<Rightarrow> bool outcome checked" where
  "check_other name (ItemConst ident attrs) =
    (check_endpoint_or_channel_on_non_fn ''const'' ident attrs, Inr True)"
| "check_other name (ItemFn _) =
    ([], Inl (Panic ''internal error: entered unreachable code: function items should have been handled above''))"
| "check_other name (ItemType t) =
    (check_endpoint_or_channel_on_non_fn ''type'' (tt_ident t) (tt_attrs t), Inr (tt_ident t \<noteq> name))"
| "check_other name (ItemMacro p attrs) =
    (check_endpoint_or_channel_on_non_fn ''macro'' p attrs, Inr True)"
| "check_other name (ItemVerbatim _) = ([], Inr True)"

fun api_items ::
  "(string \<Rightarrow> string \<Rightarrow> syn_type) \<Rightarrow> string \<Rightarrow> string \<Rightarrow> string \<Rightarrow> string \<Rightarrow> ('x, 'v) trait_item_part_parsed list
    \<Rightarrow> ('x, 'v) api_item list outcome checked" where
  "api_items parse_type dropshot tr ctx name [] = ([], Inr [])"
| "api_items parse_type dropshot tr ctx name (PartFn f # items) =
    (let (errors, item) = api_fn_item_new parse_type dropshot f tr ctx;
         (more, rest) = api_items parse_type dropshot tr ctx name items
     in (errors @ more, rbind item (\<lambda>item. rbind rest (\<lambda>rest. Inr (ApiFn item # rest)))))"
| "api_items parse_type dropshot tr ctx name (PartOther x # items) =
    (let (errors, should_push) = check_other name x;
         (more, rest) = api_items parse_type dropshot tr ctx name items
     in (errors @ more, rbind should_push (\<lambda>should_push. rbind rest (\<lambda>rest.
           Inr (if should_push then ApiOther (PartOther x) # rest else rest)))))"

record ('x, 'v, 'p) resolved_api_metadata =
  ram_dropshot :: string
  ram_tag_config :: "'p api_tag_config option"
  ram_module_ident :: string
  ram_context_item :: "('x, 'v) context_item"

record ('x, 'v, 'p) api_parser =
  apr_item_trait :: "('x, 'v) item_trait"
  apr_is_valid :: bool
  apr_items :: "('x, 'v) api_item list"
  apr_metadata :: "('x, 'v, 'p) resolved_api_metadata option"

definition api_parser_new ::
  "(string \<Rightarrow> string option) \<Rightarrow> (string \<Rightarrow> string \<Rightarrow> syn_type) \<Rightarrow> (string \<Rightarrow> bool) \<Rightarrow> (string \<Rightarrow> string)
    \<Rightarrow> 'p api_metadata \<Rightarrow> ('x, 'v) item_trait \<Rightarrow> ('x, 'v, 'p) api_parser outcome checked" where
  "api_parser_new parse_str parse_type is_ident to_snake_case m tr =
    (let dropshot = get_crate parse_str (am_dropshot_crate m);
         tr_ident = it_ident tr;
         (trait_errors, is_valid) = api_item_trait_new tr;
         name = context_name m;
         (context_errors, context_item) =
           (case find_context name (it_items tr) of
              Some (errors, context_item) \<Rightarrow> (errors, Inr context_item)
            | None \<Rightarrow> context_item_new_missing is_ident name tr_ident)
     in case rbind context_item (\<lambda>context_item.
             rbind (format_ident is_ident (support_module_name to_snake_case m tr_ident)) (\<lambda>module_ident.
               Inr (context_item, module_ident))) of
          Inl p \<Rightarrow> (trait_errors @ context_errors, Inl p)
        | Inr (context_item, module_ident) \<Rightarrow>
            (let (item_errors, items) =
               api_items parse_type dropshot tr_ident (context_item_ident context_item) name (it_items tr)
             in (trait_errors @ context_errors @ item_errors,
                 rbind items (\<lambda>items.
                   Inr \<lparr> apr_item_trait = tr, apr_is_valid = is_valid, apr_items = items,
                     apr_metadata = Some \<lparr> ram_dropshot = dropshot, ram_tag_config = am_tag_config m,
                       ram_module_ident = module_ident, ram_context_item = context_item \<rparr> \<rparr>))))"

definition invalid_no_metadata :: "('x, 'v) item_trait \<Rightarrow> ('x, 'v, 'p) api_parser checked" where
  "invalid_no_metadata tr =
    (let (errors, is_valid) = api_item_trait_new tr
     in (errors, \<lparr> apr_item_trait = tr, apr_is_valid = is_valid, apr_items = map ApiOther (it_items tr),
           apr_metadata = None \<rparr>))"

section \<open>The support module\<close>

datatype factory_kind = FactoryRegular | FactoryStub

text \<open>A block of a factory function: an adapter, and the endpoint that is bound to a variable and
  registered; an error of the registration is collected.\<close>

record 'x register_block =
  rb_adapter :: "adapter_fn option"
  rb_variable :: string
  rb_endpoint :: "(function_path, syn_type, 'x) endpoint_code"

datatype 'p policy_code = PolicyAny | PolicyExpr 'p

record 'p tag_config_code =
  tcc_allow_other_tags :: bool
  tcc_policy :: "'p policy_code"
  tcc_inserts :: "(string \<times> tag_details) list"

datatype ('x, 'p) factory_body =
    FactoryPanic string
  | FactoryBody "'p tag_config_code option" "'x register_block list"

text \<open>The context of the API description that a generated function returns: that of an
  implementation of the trait, or \<^verbatim>\<open>StubContext\<close> of the crate.\<close>

datatype factory_context = ImplContext string string | StubContextOf string

text \<open>A generated function; \<open>ff_server_impl\<close> is the trait that its type argument is bound by.\<close>

record ('x, 'p) factory_fn =
  ff_doc :: "doc_attribute list"
  ff_name :: string
  ff_server_impl :: "string option"
  ff_context :: factory_context
  ff_body :: "('x, 'p) factory_body"

text \<open>A module: its documentation, visibility and name, the type checks, and the two functions.\<close>

datatype ('x, 'p) module_code =
    NoModule
  | EmptyModule "doc_attribute list" visibility string
  | SupportModule "doc_attribute list" visibility string "type_check list" "('x, 'p) factory_fn" "('x, 'p) factory_fn"

definition endpoint_item_to_api_endpoint ::
  "'v semver_lib \<Rightarrow> ('x, 'v) api_endpoint_item \<Rightarrow> factory_kind \<Rightarrow> 'x register_block outcome" where
  "endpoint_item_to_api_endpoint L ep kind =
    (let name = sig_ident (tfn_sig (aei_f ep));
         api_kind =
           (case kind of
              FactoryRegular \<Rightarrow> Regular (ServerImplMethod (aei_trait_ident ep) name)
            | FactoryStub \<Rightarrow> Stub (extractor_types (aei_params ep)) (ep_ret_ty (aei_params ep)))
     in rbind (to_api_endpoint_fn L (aei_metadata ep) name api_kind (fn_doc (aei_f ep))) (\<lambda>endpoint_fn.
          Inr \<lparr> rb_adapter = None, rb_variable = ''endpoint_'' @ name, rb_endpoint = endpoint_fn \<rparr>))"

definition channel_item_to_api_endpoint ::
  "'v semver_lib \<Rightarrow> ('x, 'v) api_channel_item \<Rightarrow> factory_kind \<Rightarrow> 'x register_block outcome" where
  "channel_item_to_api_endpoint L ch kind =
    (let name = sig_ident (tfn_sig (aci_f ch));
         (adapter, api_kind) =
           (case kind of
              FactoryRegular \<Rightarrow>
                (Some (to_trait_adapter_fn (aci_params ch) (aci_trait_ident ch)),
                 Regular (AdapterForServerImpl (cp_adapter_name (aci_params ch))))
            | FactoryStub \<Rightarrow>
                (None, Stub (channel_extractor_types (aci_params ch)) (cp_endpoint_result_ty (aci_params ch))))
     in rbind (channel_to_api_endpoint_fn L (aci_metadata ch) name api_kind (fn_doc (aci_f ch))) (\<lambda>endpoint_fn.
          Inr \<lparr> rb_adapter = adapter, rb_variable = ''endpoint_'' @ name, rb_endpoint = endpoint_fn \<rparr>))"

text \<open>The blocks of an item: one for an endpoint or a channel.\<close>

fun item_blocks :: "'v semver_lib \<Rightarrow> factory_kind \<Rightarrow> ('x, 'v) api_item \<Rightarrow> 'x register_block list outcome" where
  "item_blocks L kind (ApiFn (FnEndpoint ep)) =
    rbind (endpoint_item_to_api_endpoint L ep kind) (\<lambda>b. Inr [b])"
| "item_blocks L kind (ApiFn (FnChannel ch)) =
    rbind (channel_item_to_api_endpoint L ch kind) (\<lambda>b. Inr [b])"
| "item_blocks L kind _ = Inr []"

definition project_external_docs :: "api_tag_external_docs \<Rightarrow> tag_external_docs" where
  "project_external_docs ed = \<lparr> docs_description = ated_description ed, docs_url = ated_url ed \<rparr>"

definition make_tag_config :: "'p api_tag_config \<Rightarrow> 'p tag_config_code" where
  "make_tag_config c =
    \<lparr> tcc_allow_other_tags = atc_allow_other_tags c,
      tcc_policy = (case atc_policy c of None \<Rightarrow> PolicyAny | Some p \<Rightarrow> PolicyExpr p),
      tcc_inserts = map (\<lambda>(tag, details).
        (tag, \<lparr> td_description = atd_description details,
          td_external_docs = map_option project_external_docs (atd_external_docs details) \<rparr>)) (atc_tags c) \<rparr>"

definition has_invalid_fn_items :: "('x, 'v) api_item list \<Rightarrow> bool" where
  "has_invalid_fn_items items = list_ex api_item_is_invalid items"

definition make_api_factory_body ::
  "'v semver_lib \<Rightarrow> string \<Rightarrow> 'p api_tag_config option \<Rightarrow> ('x, 'v) api_item list \<Rightarrow> factory_kind
    \<Rightarrow> ('x, 'p) factory_body outcome" where
  "make_api_factory_body L tr tag_config items kind =
    (if has_invalid_fn_items items then
       Inr (FactoryPanic (''invalid endpoints encountered while parsing API trait `'' @ tr @ ''`''))
     else
       rbind (mapM_result (item_blocks L kind) items) (\<lambda>blocks.
         Inr (FactoryBody (map_option make_tag_config tag_config) (concat blocks))))"

fun item_type_checks :: "('x, 'v) api_item \<Rightarrow> type_check list" where
  "item_type_checks (ApiFn (FnChannel ch)) = to_trait_type_checks (aci_params ch)"
| "item_type_checks _ = []"

definition make_api_description ::
  "'v semver_lib \<Rightarrow> ('x, 'v, 'p) resolved_api_metadata \<Rightarrow> ('x, 'v) item_trait \<Rightarrow> ('x, 'v) trait_type
    \<Rightarrow> ('x, 'v) api_item list \<Rightarrow> doc_attribute list \<Rightarrow> ('x, 'p) factory_fn outcome" where
  "make_api_description L m tr context_type items doc =
    rbind (make_api_factory_body L (it_ident tr) (ram_tag_config m) items FactoryRegular) (\<lambda>body.
      Inr \<lparr> ff_doc = doc, ff_name = ''api_description'', ff_server_impl = Some (it_ident tr),
        ff_context = ImplContext (it_ident tr) (tt_ident context_type), ff_body = body \<rparr>)"

definition make_stub_api_description ::
  "'v semver_lib \<Rightarrow> ('x, 'v, 'p) resolved_api_metadata \<Rightarrow> ('x, 'v) item_trait
    \<Rightarrow> ('x, 'v) api_item list \<Rightarrow> doc_attribute list \<Rightarrow> ('x, 'p) factory_fn outcome" where
  "make_stub_api_description L m tr items doc =
    rbind (make_api_factory_body L (it_ident tr) (ram_tag_config m) items FactoryStub) (\<lambda>body.
      Inr \<lparr> ff_doc = doc, ff_name = ''stub_api_description'', ff_server_impl = None,
        ff_context = StubContextOf (ram_dropshot m), ff_body = body \<rparr>)"

definition make_doc_comments ::
  "('x, 'v, 'p) resolved_api_metadata \<Rightarrow> ('x, 'v) item_trait \<Rightarrow> ('x, 'v) trait_type \<Rightarrow> ('x, 'v) api_item list
    \<Rightarrow> module_doc_comments" where
  "make_doc_comments m tr context_type items =
    (if has_invalid_fn_items items then doc_comments_generate_invalid (it_ident tr)
     else doc_comments_generate (ram_dropshot m) (it_ident tr) (tt_ident context_type) (ram_module_ident m))"

definition support_module ::
  "'v semver_lib \<Rightarrow> ('x, 'v, 'p) resolved_api_metadata \<Rightarrow> ('x, 'v) item_trait \<Rightarrow> ('x, 'v) trait_type
    \<Rightarrow> ('x, 'v) api_item list \<Rightarrow> ('x, 'p) module_code outcome" where
  "support_module L m tr context_type items =
    (let doc_comments = make_doc_comments m tr context_type items
     in rbind (make_api_description L m tr context_type items (api_description_attrs doc_comments)) (\<lambda>api.
        rbind (make_stub_api_description L m tr items (stub_api_description_attrs doc_comments)) (\<lambda>stub_api.
          Inr (SupportModule (outer_attrs doc_comments) (it_vis tr) (ram_module_ident m)
            (concat (map item_type_checks items)) stub_api api))))"

definition make_module :: "'v semver_lib \<Rightarrow> ('x, 'v, 'p) api_parser \<Rightarrow> ('x, 'p) module_code outcome" where
  "make_module L parser =
    (case apr_metadata parser of
       None \<Rightarrow> Inr NoModule
     | Some m \<Rightarrow>
         (case (apr_is_valid parser, context_valid_item (ram_context_item m)) of
            (True, Some context_type) \<Rightarrow> support_module L m (apr_item_trait parser) context_type (apr_items parser)
          | _ \<Rightarrow>
              Inr (EmptyModule (outer_attrs (doc_comments_generate_invalid (it_ident (apr_item_trait parser))))
                (it_vis (apr_item_trait parser)) (ram_module_ident m))))"

section \<open>The output\<close>

definition make_context_trait_item :: "('x, 'v, 'p) api_parser \<Rightarrow> ('x, 'v) trait_item option" where
  "make_context_trait_item parser =
    Option.bind (apr_metadata parser) (\<lambda>m.
    Option.bind (context_original_item (ram_context_item m)) (\<lambda>item.
      Some (ItemType (item\<lparr> tt_bounds := tt_bounds item @ [ram_dropshot m @ ''::ServerContext''] \<rparr>))))"

definition static_bound :: string where
  "static_bound = CHR 0x27 # ''static''"

definition allow_dead_code :: "('x, 'v) trait_attribute" where
  "allow_dead_code = AttrOther ''allow(dead_code)''"

definition make_out_trait :: "(syn_type \<Rightarrow> string) \<Rightarrow> ('x, 'v, 'p) api_parser \<Rightarrow> ('x, 'v) item_trait" where
  "make_out_trait print parser =
    (let tr = apr_item_trait parser
     in tr\<lparr> it_attrs := it_attrs tr @ (if it_vis tr \<noteq> VisPublic then [allow_dead_code] else []),
          it_supertraits := it_supertraits tr @ [static_bound],
          it_items := map PartOther (option_list (make_context_trait_item parser))
            @ map (to_out_trait_item print) (apr_items parser) \<rparr>)"

record param_error_summary =
  pes_context :: string
  pes_endpoint :: bool
  pes_channel :: bool

text \<open>Whether an endpoint, and whether a channel has parameter errors.\<close>

fun item_param_errors :: "('x, 'v) api_item \<Rightarrow> bool \<times> bool" where
  "item_param_errors (ApiFn (FnInvalid _ (InvalidEndpoint sm))) = (has_param_errors sm, False)"
| "item_param_errors (ApiFn (FnInvalid _ (InvalidChannel sm))) = (False, has_param_errors sm)"
| "item_param_errors _ = (False, False)"

definition make_param_errors :: "('x, 'v, 'p) api_parser \<Rightarrow> param_error_summary option" where
  "make_param_errors parser =
    Option.bind (apr_metadata parser) (\<lambda>m.
      let endpoint = list_ex (\<lambda>item. fst (item_param_errors item)) (apr_items parser);
          channel = list_ex (\<lambda>item. snd (item_param_errors item)) (apr_items parser)
      in if endpoint \<or> channel then
           Some \<lparr> pes_context = ''Self::'' @ context_item_ident (ram_context_item m),
             pes_endpoint = endpoint, pes_channel = channel \<rparr>
         else None)"

record ('x, 'v, 'p) api_output =
  ao_trait :: "('x, 'v) item_trait option"
  ao_module :: "('x, 'p) module_code"
  ao_param_errors :: "param_error_summary option"

definition to_output ::
  "'v semver_lib \<Rightarrow> (syn_type \<Rightarrow> string) \<Rightarrow> ('x, 'v, 'p) api_parser \<Rightarrow> ('x, 'v, 'p) api_output outcome" where
  "to_output L print parser =
    rbind (make_module L parser) (\<lambda>module_code.
      Inr \<lparr> ao_trait = Some (make_out_trait print parser), ao_module = module_code,
        ao_param_errors = make_param_errors parser \<rparr>)"

definition insert_usage :: "param_error_summary option \<Rightarrow> string list \<Rightarrow> string list" where
  "insert_usage pe errors =
    (case pe of
       None \<Rightarrow> errors
     | Some s \<Rightarrow>
         (let errors = (if pes_endpoint s then usage_str (pes_context s) # errors else errors)
          in if pes_channel s then channel_usage_str (pes_context s) # errors else errors))"

definition do_trait ::
  "'v semver_lib \<Rightarrow> (string \<Rightarrow> string option) \<Rightarrow> (string \<Rightarrow> string \<Rightarrow> syn_type) \<Rightarrow> (string \<Rightarrow> bool)
    \<Rightarrow> (string \<Rightarrow> string) \<Rightarrow> (syn_type \<Rightarrow> string) \<Rightarrow> (string, 'p api_metadata) result
    \<Rightarrow> (string, ('x, 'v) item_trait) result \<Rightarrow> (('x, 'v, 'p) api_output \<times> string list) outcome" where
  "do_trait L parse_str parse_type is_ident to_snake_case print metadata item_trait =
    (let (metadata_errors, metadata) = push_err metadata;
         (trait_errors, item_trait) = push_err item_trait;
         (inner_errors, output) =
           (case (metadata, item_trait) of
              (Some m, Some tr) \<Rightarrow>
                (let (errors, parser) = api_parser_new parse_str parse_type is_ident to_snake_case m tr
                 in (errors, rbind parser (to_output L print)))
            | (None, Some tr) \<Rightarrow>
                (let (errors, parser) = invalid_no_metadata tr in (errors, to_output L print parser))
            | (_, None) \<Rightarrow>
                ([], Inr \<lparr> ao_trait = None, ao_module = NoModule, ao_param_errors = None \<rparr>));
         errors = metadata_errors @ trait_errors @ inner_errors
     in rbind output (\<lambda>output. Inr (output, insert_usage (ao_param_errors output) errors)))"

section \<open>What the generated functions do\<close>

text \<open>\<open>policy_of\<close> is the value of an expression for a tag policy.\<close>

definition run_tag_config :: "('p \<Rightarrow> endpoint_tag_policy) \<Rightarrow> 'p tag_config_code \<Rightarrow> tag_config" where
  "run_tag_config policy_of c =
    \<lparr> allow_other_tags = tcc_allow_other_tags c,
      policy = (case tcc_policy c of PolicyAny \<Rightarrow> AnyTags | PolicyExpr p \<Rightarrow> policy_of p),
      tag_table = foldl (\<lambda>tags (tag, details). tags(tag \<mapsto> details)) Map.empty (tcc_inserts c) \<rparr>"

text \<open>Registration in order; errors are collected, and the next endpoint is registered anyway.\<close>

fun register_all ::
  "('h, 'g, 'v::linorder) api_endpoint list \<Rightarrow> register_error list \<times> ('h, 'g, 'v) api_description
    \<Rightarrow> (register_error list \<times> ('h, 'g, 'v) api_description) outcome option" where
  "register_all [] st = Some (Inr st)"
| "register_all (e # es) (errs, api) =
    (case register e api of
       None \<Rightarrow> None
     | Some (Inl p) \<Rightarrow> Some (Inl p)
     | Some (Inr (r, api')) \<Rightarrow> register_all es (errs @ (case r of Inl err \<Rightarrow> [err] | Inr _ \<Rightarrow> []), api'))"

fun run_blocks ::
  "'v::linorder semver_lib \<Rightarrow> (function_path, syn_type, 'x, 'h, 'g, 'v) code_env \<Rightarrow> 'x register_block list
    \<Rightarrow> register_error list \<times> ('h, 'g, 'v) api_description
    \<Rightarrow> (register_error list \<times> ('h, 'g, 'v) api_description) outcome option" where
  "run_blocks L env [] st = Some (Inr st)"
| "run_blocks L env (b # bs) (errs, api) =
    (case run_endpoint_code L env (rb_endpoint b) of
       Inl p \<Rightarrow> Some (Inl p)
     | Inr e \<Rightarrow>
         (case register e api of
            None \<Rightarrow> None
          | Some (Inl p) \<Rightarrow> Some (Inl p)
          | Some (Inr (r, api')) \<Rightarrow> run_blocks L env bs (errs @ (case r of Inl err \<Rightarrow> [err] | Inr _ \<Rightarrow> []), api')))"

definition factory_result ::
  "(register_error list \<times> ('h, 'g, 'v) api_description) outcome option
    \<Rightarrow> (register_error list, ('h, 'g, 'v) api_description) result outcome option" where
  "factory_result r =
    map_option (\<lambda>r. rbind r (\<lambda>(errs, api). Inr (if errs \<noteq> [] then Inl errs else Inr api))) r"

definition new_description ::
  "('p \<Rightarrow> endpoint_tag_policy) \<Rightarrow> 'p tag_config_code option \<Rightarrow> ('h, 'g, 'v) api_description" where
  "new_description policy_of tc =
    (case tc of None \<Rightarrow> api_description_new | Some c \<Rightarrow> set_tag_config (run_tag_config policy_of c) api_description_new)"

fun run_factory ::
  "'v::linorder semver_lib \<Rightarrow> (function_path, syn_type, 'x, 'h, 'g, 'v) code_env \<Rightarrow> ('p \<Rightarrow> endpoint_tag_policy)
    \<Rightarrow> ('x, 'p) factory_body \<Rightarrow> (register_error list, ('h, 'g, 'v) api_description) result outcome option" where
  "run_factory L env policy_of (FactoryPanic msg) = Some (Inl (Panic msg))"
| "run_factory L env policy_of (FactoryBody tc blocks) =
    factory_result (run_blocks L env blocks ([], new_description policy_of tc))"

end
