(* ===== verification/Trait_Correct.thy ===== *)
theory Trait_Correct
  imports Macro_Trait
begin

text \<open>
  The macro on API traits is correct: which traits it accepts and what it makes of them, and that the
  generated functions register the endpoints that the items of the trait declare.
\<close>

section \<open>What a trait declares\<close>

fun arg_type :: "fn_arg \<Rightarrow> syn_type" where
  "arg_type (Typed ty) = ty"
| "arg_type Receiver = unit_type"

fun output_type :: "return_type \<Rightarrow> syn_type" where
  "output_type (ReturnType ty) = ty"
| "output_type ReturnDefault = unit_type"

text \<open>The handler of an endpoint is the method of the implementation, or a stub for the types of
  its parameters after the first and of its result; that of a channel is the adapter.\<close>

definition endpoint_kind :: "factory_kind \<Rightarrow> string \<Rightarrow> signature \<Rightarrow> (function_path, syn_type) api_endpoint_kind" where
  "endpoint_kind kind tr sig =
    (case kind of
       FactoryRegular \<Rightarrow> Regular (ServerImplMethod tr (sig_ident sig))
     | FactoryStub \<Rightarrow> Stub (map arg_type (tl (sig_inputs sig))) (output_type (sig_output sig)))"

definition channel_kind ::
  "(string \<Rightarrow> string \<Rightarrow> syn_type) \<Rightarrow> string \<Rightarrow> factory_kind \<Rightarrow> signature \<Rightarrow> (function_path, syn_type) api_endpoint_kind" where
  "channel_kind parse_type dropshot kind sig =
    (case kind of
       FactoryRegular \<Rightarrow> Regular (AdapterForServerImpl (sig_ident sig @ ''_adapter''))
     | FactoryStub \<Rightarrow>
         Stub (map arg_type (butlast (tl (sig_inputs sig))) @ [parse_type dropshot ''WebsocketUpgrade''])
           (parse_type dropshot ''WebsocketEndpointResult''))"

record ('x, 'v) item_endpoint =
  dc_kind :: "(function_path, syn_type) api_endpoint_kind"
  dc_metadata :: "('x, 'v) endpoint_metadata"
  dc_name :: string
  dc_doc :: extracted_doc

definition declared_fn ::
  "(string \<Rightarrow> string \<Rightarrow> syn_type) \<Rightarrow> string \<Rightarrow> string \<Rightarrow> factory_kind \<Rightarrow> ('x, 'v) trait_fn \<Rightarrow> ('x, 'v) item_endpoint list" where
  "declared_fn parse_type dropshot tr kind f =
    (case filter is_recognized (tfn_attrs f) of
       [AttrEndpoint (MetaList (Inr md))] \<Rightarrow>
         [\<lparr> dc_kind = endpoint_kind kind tr (tfn_sig f), dc_metadata = md, dc_name = sig_ident (tfn_sig f),
            dc_doc = fn_doc f \<rparr>]
     | [AttrChannel (MetaList (Inr cm))] \<Rightarrow>
         [\<lparr> dc_kind = channel_kind parse_type dropshot kind (tfn_sig f), dc_metadata = channel_as_endpoint cm,
            dc_name = sig_ident (tfn_sig f), dc_doc = fn_doc f \<rparr>]
     | _ \<Rightarrow> [])"

fun declared_items ::
  "(string \<Rightarrow> string \<Rightarrow> syn_type) \<Rightarrow> string \<Rightarrow> string \<Rightarrow> factory_kind \<Rightarrow> ('x, 'v) trait_item_part_parsed list
    \<Rightarrow> ('x, 'v) item_endpoint list" where
  "declared_items parse_type dropshot tr kind [] = []"
| "declared_items parse_type dropshot tr kind (PartFn f # items) =
    declared_fn parse_type dropshot tr kind f @ declared_items parse_type dropshot tr kind items"
| "declared_items parse_type dropshot tr kind (PartOther _ # items) = declared_items parse_type dropshot tr kind items"

text \<open>The endpoint of an item.\<close>

definition declares ::
  "(function_path, syn_type, 'x, 'h, 'g, 'v::linorder) code_env \<Rightarrow> ('x, 'v) item_endpoint
    \<Rightarrow> ('h, 'g, 'v) api_endpoint \<Rightarrow> bool" where
  "declares env d e \<longleftrightarrow>
    (\<exists>vs. declared_versions env (unwrap_or (epm_versions (dc_metadata d)) RangeAll) = Inr vs
      \<and> described_by env (dc_kind d) (dc_metadata d) (dc_name d) (dc_doc d) vs e)"

lemma declares_versions:
  "declares env d e \<Longrightarrow> declared_versions env (unwrap_or (epm_versions (dc_metadata d)) RangeAll) = Inr (versions e)"
  unfolding declares_def using described_by_fields(7) by metis

section \<open>Which traits are accepted\<close>

definition fn_accepted :: "string \<Rightarrow> string \<Rightarrow> ('x, 'v) trait_fn \<Rightarrow> bool" where
  "fn_accepted tr ctx f \<longleftrightarrow> filter is_recognized (tfn_attrs f) = []
    \<or> (\<exists>md. filter is_recognized (tfn_attrs f) = [AttrEndpoint (MetaList (Inr md))]
        \<and> endpoint_metadata_ok md TraitMacro \<and> is_endpoint_signature (tfn_sig f) (RqctxTraitKind tr ctx))
    \<or> (\<exists>cm. filter is_recognized (tfn_attrs f) = [AttrChannel (MetaList (Inr cm))]
        \<and> cm_dropshot_crate cm = None \<and> \<not> is_wildcard_path (cm_path cm)
        \<and> is_channel_signature (tfn_sig f) (RqctxTraitKind tr ctx))"

fun other_attrs :: "('x, 'v) trait_item \<Rightarrow> ('x, 'v) trait_attribute list" where
  "other_attrs (ItemConst _ attrs) = attrs"
| "other_attrs (ItemFn attrs) = attrs"
| "other_attrs (ItemType t) = tt_attrs t"
| "other_attrs (ItemMacro _ attrs) = attrs"
| "other_attrs (ItemVerbatim _) = []"

fun item_accepted :: "string \<Rightarrow> string \<Rightarrow> ('x, 'v) trait_item_part_parsed \<Rightarrow> bool" where
  "item_accepted tr ctx (PartFn f) = fn_accepted tr ctx f"
| "item_accepted tr ctx (PartOther x) = (filter is_recognized (other_attrs x) = [])"

text \<open>What \<^verbatim>\<open>syn_parsing.rs\<close> makes sure of: no function among the other items, and parsed signatures
  and version ranges.\<close>

fun meta_parsed :: "'v::linorder semver_lib \<Rightarrow> ('x, 'v) trait_attribute \<Rightarrow> bool" where
  "meta_parsed L (AttrEndpoint (MetaList (Inr md))) = range_parsed L (epm_versions md)"
| "meta_parsed L (AttrChannel (MetaList (Inr cm))) = range_parsed L (cm_versions cm)"
| "meta_parsed L _ = True"

fun item_parsed :: "'v::linorder semver_lib \<Rightarrow> ('x, 'v) trait_item_part_parsed \<Rightarrow> bool" where
  "item_parsed L (PartFn f) = (parsed_signature (tfn_sig f) \<and> (\<forall>a \<in> set (tfn_attrs f). meta_parsed L a))"
| "item_parsed L (PartOther (ItemFn _)) = False"
| "item_parsed L (PartOther _) = True"

section \<open>Items\<close>

lemma parse_endpoint_metadata_spec:
  obtains errs r where "parse_endpoint_metadata name meta = (errs, Inr r)"
    "errs = [] \<longleftrightarrow> (\<exists>md. meta = MetaList (Inr md) \<and> endpoint_metadata_ok md TraitMacro)" "r = None \<longleftrightarrow> errs \<noteq> []"
    "\<forall>vm. r = Some vm \<longrightarrow> (\<exists>md. meta = MetaList (Inr md) \<and> validate_endpoint_metadata md name TraitMacro = ([], Inr (Some vm)))"
proof (cases "\<exists>md. meta = MetaList (Inr md)")
  case True
  then obtain md where meta: "meta = MetaList (Inr md)" by blast
  obtain errs r where r: "validate_endpoint_metadata md name TraitMacro = (errs, Inr r)"
      "errs = [] \<longleftrightarrow> endpoint_metadata_ok md TraitMacro" "r = None \<longleftrightarrow> errs \<noteq> []"
    using validate_endpoint_metadata_ok by blast
  show ?thesis
    by (rule that[of errs r]) (use meta r in \<open>auto simp: parse_endpoint_metadata_def\<close>)
next
  case False
  have "\<exists>e. parse_endpoint_metadata name meta = ([e], Inr None)"
  proof (cases meta)
    case (MetaList m)
    then show ?thesis using False by (cases m) (auto simp: parse_endpoint_metadata_def)
  qed (simp add: parse_endpoint_metadata_def)
  then obtain e where "parse_endpoint_metadata name meta = ([e], Inr None)" by blast
  then show ?thesis using False by (intro that[of "[e]" None]) auto
qed

lemma parse_channel_metadata_spec:
  obtains errs and r :: "('x, 'v) validated_channel_metadata option" where "parse_channel_metadata name meta = (errs, r)"
    "errs = [] \<longleftrightarrow> (\<exists>cm. meta = MetaList (Inr cm) \<and> cm_dropshot_crate cm = None \<and> \<not> is_wildcard_path (cm_path cm))"
    "r = None \<longleftrightarrow> errs \<noteq> []"
    "\<forall>v. r = Some v \<longrightarrow> (\<exists>cm. meta = MetaList (Inr cm) \<and> validate_channel_metadata cm name TraitMacro = ([], Some v))"
proof (cases "\<exists>cm. meta = MetaList (Inr cm)")
  case True
  then obtain cm where meta: "meta = MetaList (Inr cm)" by blast
  have "\<exists>errs (r :: ('x, 'v) validated_channel_metadata option). validate_channel_metadata cm name TraitMacro = (errs, r)
      \<and> (errs = [] \<longleftrightarrow> (TraitMacro = FunctionMacro \<or> cm_dropshot_crate cm = None) \<and> \<not> is_wildcard_path (cm_path cm))
      \<and> (r = None \<longleftrightarrow> errs \<noteq> [])"
    by (rule validate_channel_metadata_ok)
  then obtain errs and r :: "('x, 'v) validated_channel_metadata option"
    where r: "validate_channel_metadata cm name TraitMacro = (errs, r)"
      "errs = [] \<longleftrightarrow> (TraitMacro = FunctionMacro \<or> cm_dropshot_crate cm = None) \<and> \<not> is_wildcard_path (cm_path cm)"
      "r = None \<longleftrightarrow> errs \<noteq> []"
    by (elim exE conjE) (rule that)
  show ?thesis
    by (rule that[of errs r]) (use meta r in \<open>auto simp: parse_channel_metadata_def\<close>)
next
  case False
  have "\<exists>e. parse_channel_metadata name meta = ([e], None :: ('x, 'v) validated_channel_metadata option)"
  proof (cases meta)
    case (MetaList m)
    then show ?thesis using False by (cases m) (auto simp: parse_channel_metadata_def)
  qed (simp add: parse_channel_metadata_def)
  then obtain e where "parse_channel_metadata name meta = ([e], None :: ('x, 'v) validated_channel_metadata option)" by blast
  then show ?thesis using False by (intro that[of "[e]" None]) auto
qed

text \<open>What a function of the trait becomes.\<close>

fun fn_item_for ::
  "(string \<Rightarrow> string \<Rightarrow> syn_type) \<Rightarrow> string \<Rightarrow> string \<Rightarrow> string \<Rightarrow> ('x, 'v) trait_fn \<Rightarrow> ('x, 'v) api_fn_item \<Rightarrow> bool" where
  "fn_item_for parse_type d tr ctx f (FnUnmanaged g) = (g = f \<and> filter is_recognized (tfn_attrs f) = [])"
| "fn_item_for parse_type d tr ctx f (FnInvalid g _) = (g = f)"
| "fn_item_for parse_type d tr ctx f (FnEndpoint ep) =
    (aei_f ep = f \<and> aei_trait_ident ep = tr
      \<and> (\<exists>md. filter is_recognized (tfn_attrs f) = [AttrEndpoint (MetaList (Inr md))]
          \<and> validate_endpoint_metadata md (sig_ident (tfn_sig f)) TraitMacro = ([], Inr (Some (aei_metadata ep))))
      \<and> (\<exists>rq es ret. endpoint_signature (tfn_sig f) (RqctxTraitKind tr ctx) rq es ret
          \<and> extractor_types (aei_params ep) = es \<and> ep_ret_ty (aei_params ep) = ret))"
| "fn_item_for parse_type d tr ctx f (FnChannel ch) =
    (aci_f ch = f \<and> aci_trait_ident ch = tr
      \<and> (\<exists>cm. filter is_recognized (tfn_attrs f) = [AttrChannel (MetaList (Inr cm))]
          \<and> validate_channel_metadata cm (sig_ident (tfn_sig f)) TraitMacro = ([], Some (aci_metadata ch)))
      \<and> (\<exists>rq es conn ret. channel_signature (tfn_sig f) (RqctxTraitKind tr ctx) rq es conn ret
          \<and> cp_shared_extractors (aci_params ch) = es \<and> cp_ret_ty (aci_params ch) = ret
          \<and> cp_adapter_name (aci_params ch) = sig_ident (tfn_sig f) @ ''_adapter''
          \<and> cp_websocket_upgrade_ty (aci_params ch) = parse_type d ''WebsocketUpgrade''
          \<and> cp_endpoint_result_ty (aci_params ch) = parse_type d ''WebsocketEndpointResult''))"

lemma api_endpoint_item_new_spec:
  assumes "parsed_signature (tfn_sig f)" "filter is_recognized (tfn_attrs f) = [AttrEndpoint meta]"
  obtains errs r where "api_endpoint_item_new d f meta tr ctx = (errs, Inr r)"
    "errs = [] \<longleftrightarrow> fn_accepted tr ctx f" "is_ok r \<longleftrightarrow> errs = []"
    "\<And>ep. r = Inr ep \<Longrightarrow> fn_item_for parse_type d tr ctx f (FnEndpoint ep)"
proof -
  let ?name = "sig_ident (tfn_sig f)"
  obtain me vm where m: "parse_endpoint_metadata ?name meta = (me, Inr vm)"
      "me = [] \<longleftrightarrow> (\<exists>md. meta = MetaList (Inr md) \<and> endpoint_metadata_ok md TraitMacro)" "vm = None \<longleftrightarrow> me \<noteq> []"
      "\<forall>v. vm = Some v \<longrightarrow> (\<exists>md. meta = MetaList (Inr md) \<and> validate_endpoint_metadata md ?name TraitMacro = ([], Inr (Some v)))"
    by (rule parse_endpoint_metadata_spec[of ?name meta])
  obtain pe ps where p: "endpoint_params_new d (tfn_sig f) (RqctxTraitKind tr ctx) = (pe, Inr ps)"
      "pe = [] \<longleftrightarrow> is_endpoint_signature (tfn_sig f) (RqctxTraitKind tr ctx)" "ps = None \<longleftrightarrow> pe \<noteq> []"
      "\<And>q. ps = Some q \<Longrightarrow> \<exists>rq es ret. endpoint_signature (tfn_sig f) (RqctxTraitKind tr ctx) rq es ret
        \<and> extractor_types q = es \<and> ep_ret_ty q = ret"
    using endpoint_params_new_spec[OF assms(1), of d "RqctxTraitKind tr ctx"] unfolding is_endpoint_signature_def by blast
  have accepted: "fn_accepted tr ctx f \<longleftrightarrow> me = [] \<and> pe = []"
    using assms(2) m(2) p(2) by (auto simp: fn_accepted_def)
  show ?thesis
  proof (cases "me = [] \<and> pe = []")
    case True
    then obtain v q where "vm = Some v" "ps = Some q" using m(3) p(3) by auto
    then show ?thesis
      using that[of "[]" "Inr \<lparr> aei_f = f, aei_trait_ident = tr, aei_metadata = v, aei_params = q \<rparr>"]
        True accepted m(1) m(4) p(1) p(4) assms(2)
      by (auto simp: api_endpoint_item_new_def Let_def)
  next
    case False
    then show ?thesis
      using that[of "me @ pe" "Inl \<lparr> has_param_errors = (ps = None) \<rparr>"] accepted m(1,3) p(1,3)
      by (cases vm; cases ps) (simp_all add: api_endpoint_item_new_def Let_def)
  qed
qed

lemma api_channel_item_new_spec:
  fixes f :: "('x, 'v) trait_fn"
  assumes "parsed_signature (tfn_sig f)" "filter is_recognized (tfn_attrs f) = [AttrChannel meta]"
  obtains errs r where "api_channel_item_new parse_type d f meta tr ctx = (errs, Inr r)"
    "errs = [] \<longleftrightarrow> fn_accepted tr ctx f" "is_ok r \<longleftrightarrow> errs = []"
    "\<And>ch. r = Inr ch \<Longrightarrow> fn_item_for parse_type d tr ctx f (FnChannel ch)"
proof -
  let ?name = "sig_ident (tfn_sig f)"
  obtain me and vm :: "('x, 'v) validated_channel_metadata option" where m: "parse_channel_metadata ?name meta = (me, vm)"
      "me = [] \<longleftrightarrow> (\<exists>cm. meta = MetaList (Inr cm) \<and> cm_dropshot_crate cm = None \<and> \<not> is_wildcard_path (cm_path cm))"
      "vm = None \<longleftrightarrow> me \<noteq> []"
      "\<forall>v. vm = Some v \<longrightarrow> (\<exists>cm. meta = MetaList (Inr cm) \<and> validate_channel_metadata cm ?name TraitMacro = ([], Some v))"
    by (rule parse_channel_metadata_spec[of ?name meta])
  obtain pe ps where p: "channel_params_new parse_type d (tfn_sig f) (RqctxTraitKind tr ctx) = (pe, Inr ps)"
      "pe = [] \<longleftrightarrow> is_channel_signature (tfn_sig f) (RqctxTraitKind tr ctx)" "ps = None \<longleftrightarrow> pe \<noteq> []"
      "\<And>q. ps = Some q \<Longrightarrow> \<exists>rq es conn ret. channel_signature (tfn_sig f) (RqctxTraitKind tr ctx) rq es conn ret
        \<and> cp_shared_extractors q = es \<and> cp_ret_ty q = ret \<and> cp_adapter_name q = ?name @ ''_adapter''
        \<and> cp_websocket_upgrade_ty q = parse_type d ''WebsocketUpgrade''
        \<and> cp_endpoint_result_ty q = parse_type d ''WebsocketEndpointResult''"
    using channel_params_new_spec[OF assms(1), of parse_type d "RqctxTraitKind tr ctx"]
    unfolding is_channel_signature_def by blast
  have accepted: "fn_accepted tr ctx f \<longleftrightarrow> me = [] \<and> pe = []"
    using assms(2) m(2) p(2) by (auto simp: fn_accepted_def)
  show ?thesis
  proof (cases "me = [] \<and> pe = []")
    case True
    then obtain v q where vq: "vm = Some v" "ps = Some q" using m(3) p(3) by auto
    let ?ch = "\<lparr> aci_f = f, aci_trait_ident = tr, aci_metadata = v, aci_params = q \<rparr>"
    have ch: "fn_item_for parse_type d tr ctx f (FnChannel ?ch)"
      using m(4) p(4)[OF vq(2)] vq(1) assms(2) by simp
    show ?thesis
    proof (rule that[of "[]" "Inr ?ch"])
      show "api_channel_item_new parse_type d f meta tr ctx = ([], Inr (Inr ?ch))"
        using True m(1) p(1) vq by (simp add: api_channel_item_new_def)
      show "fn_item_for parse_type d tr ctx f (FnChannel ch)" if "Inr ?ch = (Inr ch :: (api_item_error_summary, _) result)" for ch
        unfolding Inr_inject[OF that, symmetric] by (rule ch)
    qed (use True accepted in simp_all)
  next
    case False
    then have "api_channel_item_new parse_type d f meta tr ctx = (me @ pe, Inr (Inl \<lparr> has_param_errors = (ps = None) \<rparr>))"
      using m(1,3) p(1,3) by (cases vm; cases ps) (simp_all add: api_channel_item_new_def)
    then show ?thesis by (rule that) (use False accepted in auto)
  qed
qed

lemma api_fn_item_new_spec:
  fixes f :: "('x, 'v) trait_fn"
  assumes "parsed_signature (tfn_sig f)"
  obtains errs item where "api_fn_item_new parse_type d f tr ctx = (errs, Inr item)"
    "errs = [] \<longleftrightarrow> fn_accepted tr ctx f" "api_item_is_invalid (ApiFn item) \<longleftrightarrow> errs \<noteq> []"
    "fn_item_for parse_type d tr ctx f item"
proof -
  consider (none) "filter is_recognized (tfn_attrs f) = []"
    | (endpoint) meta where "filter is_recognized (tfn_attrs f) = [AttrEndpoint meta]"
    | (channel) meta where "filter is_recognized (tfn_attrs f) = [AttrChannel meta]"
    | (more) a b rest where "filter is_recognized (tfn_attrs f) = a # b # rest"
  proof -
    have "\<forall>a \<in> set (filter is_recognized (tfn_attrs f)). is_recognized a" by simp
    moreover obtain as where as: "filter is_recognized (tfn_attrs f) = as" by blast
    ultimately show ?thesis
      using that unfolding as by (cases as; cases "hd as"; cases "tl as") auto
  qed
  then show ?thesis
  proof cases
    case none
    then show ?thesis
      using that[of "[]" "FnUnmanaged f"] by (simp add: api_fn_item_new_def fn_accepted_def api_item_is_invalid_def)
  next
    case (endpoint meta)
    obtain errs r where r: "api_endpoint_item_new d f meta tr ctx = (errs, Inr r)"
        "errs = [] \<longleftrightarrow> fn_accepted tr ctx f" "is_ok r \<longleftrightarrow> errs = []"
        "\<And>ep. r = Inr ep \<Longrightarrow> fn_item_for parse_type d tr ctx f (FnEndpoint ep)"
      using api_endpoint_item_new_spec[OF assms endpoint, of d tr ctx parse_type] by metis
    then show ?thesis
      using endpoint that[of errs "case r of Inr ep \<Rightarrow> FnEndpoint ep | Inl sm \<Rightarrow> FnInvalid f (InvalidEndpoint sm)"]
      by (cases r) (auto simp: api_fn_item_new_def api_item_is_invalid_def)
  next
    case (channel meta)
    obtain errs r where r: "api_channel_item_new parse_type d f meta tr ctx = (errs, Inr r)"
        "errs = [] \<longleftrightarrow> fn_accepted tr ctx f" "is_ok r \<longleftrightarrow> errs = []"
        "\<And>ch. r = Inr ch \<Longrightarrow> fn_item_for parse_type d tr ctx f (FnChannel ch)"
      using api_channel_item_new_spec[OF assms channel, of parse_type d tr ctx] by metis
    then show ?thesis
      using channel that[of errs "case r of Inr ch \<Rightarrow> FnChannel ch | Inl sm \<Rightarrow> FnInvalid f (InvalidChannel sm)"]
      by (cases r) (auto simp: api_fn_item_new_def api_item_is_invalid_def)
  next
    case (more a b rest)
    have "api_fn_item_new parse_type d f tr ctx =
        (map (further_attr_error (sig_ident (tfn_sig f)) a) (b # rest), Inr (FnInvalid f InvalidUnknown))"
      unfolding api_fn_item_new_def more by (cases a) simp_all
    moreover have "\<not> fn_accepted tr ctx f" unfolding fn_accepted_def more by simp
    ultimately show ?thesis
      using that[of "map (further_attr_error (sig_ident (tfn_sig f)) a) (b # rest)" "FnInvalid f InvalidUnknown"]
      by (simp add: api_item_is_invalid_def)
  qed
qed

text \<open>The items that are kept: all but the context type.\<close>

fun is_context :: "string \<Rightarrow> ('x, 'v) trait_item_part_parsed \<Rightarrow> bool" where
  "is_context name (PartOther (ItemType t)) = (tt_ident t = name)"
| "is_context name _ = False"

fun item_for ::
  "(string \<Rightarrow> string \<Rightarrow> syn_type) \<Rightarrow> string \<Rightarrow> string \<Rightarrow> string \<Rightarrow> ('x, 'v) trait_item_part_parsed
    \<Rightarrow> ('x, 'v) api_item \<Rightarrow> bool" where
  "item_for parse_type d tr ctx (PartFn f) (ApiFn item) = fn_item_for parse_type d tr ctx f item"
| "item_for parse_type d tr ctx (PartOther x) (ApiOther y) = (y = PartOther x)"
| "item_for parse_type d tr ctx _ _ = False"

lemma check_non_fn_Nil_iff: "check_endpoint_or_channel_on_non_fn kind name attrs = [] \<longleftrightarrow> filter is_recognized attrs = []"
proof -
  have "is_recognized a \<longleftrightarrow> is_endpoint_attr a \<or> is_channel_attr a" for a :: "('x, 'v) trait_attribute"
    by (cases a) simp_all
  then show ?thesis by (auto simp: check_endpoint_or_channel_on_non_fn_def list_ex_iff filter_empty_conv)
qed

lemma check_other_spec:
  assumes "item_parsed L (PartOther x)"
  shows "\<exists>errs. check_other name x = (errs, Inr (\<not> is_context name (PartOther x)))
    \<and> (errs = [] \<longleftrightarrow> item_accepted tr ctx (PartOther x))"
  using assms by (cases x) (auto simp: check_non_fn_Nil_iff)

lemma api_items_spec:
  assumes "\<forall>i \<in> set items. item_parsed L i"
  shows "\<exists>errs its. api_items parse_type d tr ctx name items = (errs, Inr its)
    \<and> (errs = [] \<longleftrightarrow> (\<forall>i \<in> set items. item_accepted tr ctx i))
    \<and> (has_invalid_fn_items its \<longrightarrow> errs \<noteq> [])
    \<and> list_all2 (item_for parse_type d tr ctx) (filter (\<lambda>i. \<not> is_context name i) items) its"
  using assms
proof (induction items)
  case (Cons i items)
  then obtain more its where ih: "api_items parse_type d tr ctx name items = (more, Inr its)"
      "more = [] \<longleftrightarrow> (\<forall>i \<in> set items. item_accepted tr ctx i)" "has_invalid_fn_items its \<longrightarrow> more \<noteq> []"
      "list_all2 (item_for parse_type d tr ctx) (filter (\<lambda>i. \<not> is_context name i) items) its"
    by auto
  show ?case
  proof (cases i)
    case (PartFn f)
    then have "parsed_signature (tfn_sig f)" using Cons(2) by simp
    then obtain errs item where "api_fn_item_new parse_type d f tr ctx = (errs, Inr item)"
        "errs = [] \<longleftrightarrow> fn_accepted tr ctx f" "api_item_is_invalid (ApiFn item) \<longleftrightarrow> errs \<noteq> []"
        "fn_item_for parse_type d tr ctx f item"
      by (rule api_fn_item_new_spec)
    then show ?thesis using PartFn ih by (auto simp: has_invalid_fn_items_def)
  next
    case (PartOther x)
    then obtain errs where "check_other name x = (errs, Inr (\<not> is_context name i))"
        "errs = [] \<longleftrightarrow> item_accepted tr ctx i"
      using check_other_spec[of L x name tr ctx] Cons(2) by auto
    then show ?thesis
      using PartOther ih by (auto simp: has_invalid_fn_items_def api_item_is_invalid_def simp del: is_context.simps)
  qed
qed (simp add: has_invalid_fn_items_def)

section \<open>The generated blocks\<close>

lemma map_arg_type_Typed [simp]: "map arg_type (map Typed tys) = tys"
  by (induction tys) simp_all

lemma endpoint_signature_types:
  assumes "endpoint_signature sig k rq es ret"
  shows "map arg_type (tl (sig_inputs sig)) = es" "output_type (sig_output sig) = ret"
  using assms by (auto simp: endpoint_signature_def simp del: map_map)

lemma channel_signature_types:
  assumes "channel_signature sig k rq es conn ret"
  shows "map arg_type (butlast (tl (sig_inputs sig))) = es"
  using assms by (auto simp: channel_signature_def simp del: map_map)

definition block_for ::
  "'v::linorder semver_lib \<Rightarrow> (function_path, syn_type, 'x, 'h, 'g, 'v) code_env \<Rightarrow> ('x, 'v) item_endpoint
    \<Rightarrow> 'x register_block \<Rightarrow> bool" where
  "block_for L env d b \<longleftrightarrow> builds L (rb_endpoint b) (dc_kind d) (dc_metadata d) (dc_name d) (dc_doc d) env
    \<and> rb_variable b = ''endpoint_'' @ dc_name d"

lemma item_blocks_spec:
  assumes "semver_ok L" "item_for parse_type d tr ctx i item" "\<not> api_item_is_invalid item" "item_parsed L i"
  shows "\<exists>blocks. item_blocks L kind item = Inr blocks
    \<and> list_all2 (block_for L env) (declared_items parse_type d tr kind [i]) blocks"
proof (cases item)
  case (ApiOther x)
  then show ?thesis using assms(2) by (cases i) simp_all
next
  case (ApiFn it)
  then obtain f where i: "i = PartFn f" and it: "fn_item_for parse_type d tr ctx f it"
    using assms(2) by (cases i) auto
  let ?name = "sig_ident (tfn_sig f)"
  have parsed: "meta_parsed L a" if "filter is_recognized (tfn_attrs f) = [a]" for a
    using that assms(4) i by (metis filter_is_subset item_parsed.simps(1) list.set_intros(1) subsetD)
  show ?thesis
  proof (cases it)
    case (FnEndpoint ep)
    then obtain md rq es ret where ep: "aei_f ep = f" "aei_trait_ident ep = tr"
        "filter is_recognized (tfn_attrs f) = [AttrEndpoint (MetaList (Inr md))]"
        "validate_endpoint_metadata md ?name TraitMacro = ([], Inr (Some (aei_metadata ep)))"
        "endpoint_signature (tfn_sig f) (RqctxTraitKind tr ctx) rq es ret"
        "extractor_types (aei_params ep) = es" "ep_ret_ty (aei_params ep) = ret"
      using it by auto
    have "range_parsed L (epm_versions md)" using parsed[OF ep(3)] by simp
    from construct_spec[OF assms(1) this ep(4), of "endpoint_kind kind tr (tfn_sig f)" "fn_doc f" env]
    show ?thesis
      using i ApiFn FnEndpoint ep endpoint_signature_types[OF ep(5)]
      by (auto simp: endpoint_item_to_api_endpoint_def Let_def endpoint_kind_def declared_fn_def block_for_def
          split: factory_kind.splits)
  next
    case (FnChannel ch)
    then obtain cm rq es conn ret where ch: "aci_f ch = f" "aci_trait_ident ch = tr"
        "filter is_recognized (tfn_attrs f) = [AttrChannel (MetaList (Inr cm))]"
        "validate_channel_metadata cm ?name TraitMacro = ([], Some (aci_metadata ch))"
        "channel_signature (tfn_sig f) (RqctxTraitKind tr ctx) rq es conn ret"
        "cp_shared_extractors (aci_params ch) = es" "cp_adapter_name (aci_params ch) = ?name @ ''_adapter''"
        "cp_websocket_upgrade_ty (aci_params ch) = parse_type d ''WebsocketUpgrade''"
        "cp_endpoint_result_ty (aci_params ch) = parse_type d ''WebsocketEndpointResult''"
      using it by auto
    have "range_parsed L (epm_versions (channel_as_endpoint cm))"
      using parsed[OF ch(3)] by (simp add: channel_as_endpoint_def)
    from construct_spec[OF assms(1) this validate_channel_as_endpoint[OF ch(4)],
        of "channel_kind parse_type d kind (tfn_sig f)" "fn_doc f" env]
    show ?thesis
      using i ApiFn FnChannel ch channel_signature_types[OF ch(5)]
      by (auto simp: channel_item_to_api_endpoint_def channel_to_api_endpoint_fn_def Let_def channel_kind_def
          declared_fn_def block_for_def channel_extractor_types_def split: factory_kind.splits)
  next
    case (FnInvalid g k)
    then show ?thesis using assms(3) ApiFn by (simp add: api_item_is_invalid_def)
  next
    case (FnUnmanaged g)
    then show ?thesis using i ApiFn it by (simp add: declared_fn_def)
  qed
qed

lemma declared_items_append:
  "declared_items parse_type d tr kind (a @ b) = declared_items parse_type d tr kind a @ declared_items parse_type d tr kind b"
  by (induction a rule: declared_items.induct) simp_all

lemma declared_items_Cons:
  "declared_items parse_type d tr kind (i # is) = declared_items parse_type d tr kind [i] @ declared_items parse_type d tr kind is"
  using declared_items_append[of parse_type d tr kind "[i]" "is"] by simp

lemma declared_items_filter:
  "declared_items parse_type d tr kind (filter (\<lambda>i. \<not> is_context name i) items) = declared_items parse_type d tr kind items"
proof (induction items)
  case (Cons i items)
  then show ?case by (cases "(name, i)" rule: is_context.cases) simp_all
qed simp

lemma all_blocks_spec:
  assumes "semver_ok L" "list_all2 (item_for parse_type d tr ctx) items its" "\<not> has_invalid_fn_items its"
    and "\<forall>i \<in> set items. item_parsed L i"
  shows "\<exists>blocks. mapM_result (item_blocks L kind) its = Inr blocks
    \<and> list_all2 (block_for L env) (declared_items parse_type d tr kind items) (concat blocks)"
  using assms(2-4)
proof (induction rule: list_all2_induct)
  case (Cons i "is" it its)
  then obtain rest where "mapM_result (item_blocks L kind) its = Inr rest"
      "list_all2 (block_for L env) (declared_items parse_type d tr kind is) (concat rest)"
    by (auto simp: has_invalid_fn_items_def)
  moreover have "\<exists>blocks. item_blocks L kind it = Inr blocks
      \<and> list_all2 (block_for L env) (declared_items parse_type d tr kind [i]) blocks"
    using item_blocks_spec[OF assms(1) Cons(1), of kind env] Cons(4,5) by (simp add: has_invalid_fn_items_def)
  then obtain blocks where "item_blocks L kind it = Inr blocks"
      "list_all2 (block_for L env) (declared_items parse_type d tr kind [i]) blocks" by blast
  ultimately show ?case
    unfolding declared_items_Cons[of _ _ _ _ i "is"] by (simp add: list_all2_appendI)
qed simp

text \<open>Running the blocks registers the endpoints that the items describe.\<close>

lemma block_for_run:
  assumes "block_for L env d b" "declared_versions env (unwrap_or (epm_versions (dc_metadata d)) RangeAll) = Inr vs"
  shows "\<exists>e. run_endpoint_code L env (rb_endpoint b) = Inr e \<and> declares env d e"
  using assms by (auto simp: block_for_def builds_def Let_def declares_def)

lemma run_blocks_spec:
  assumes "list_all2 (block_for L env) ds blocks"
    and "\<forall>d \<in> set ds. is_ok (declared_versions env (unwrap_or (epm_versions (dc_metadata d)) RangeAll))"
  shows "\<exists>es. list_all2 (declares env) ds es \<and> (\<forall>st. run_blocks L env blocks st = register_all es st)"
  using assms
proof (induction rule: list_all2_induct)
  case (Cons d ds b blocks)
  then obtain es where es: "list_all2 (declares env) ds es" "\<And>st. run_blocks L env blocks st = register_all es st" by auto
  obtain e where e: "run_endpoint_code L env (rb_endpoint b) = Inr e" "declares env d e"
    using block_for_run[OF Cons(1)] Cons(4) by (auto simp: is_ok_iff)
  have "run_blocks L env (b # blocks) st = register_all (e # es) st" for st
    using e(1) es(2) by (cases st) (simp split: option.split sum.split prod.split)
  then show ?case using e(2) es(1) by (intro exI[of _ "e # es"]) simp
qed auto


section \<open>The accepted traits\<close>

definition trait_shape_ok :: "('x, 'v) item_trait \<Rightarrow> bool" where
  "trait_shape_ok tr \<longleftrightarrow> \<not> it_unsafety tr \<and> \<not> it_auto tr \<and> it_generics tr = []
    \<and> (case it_where_clause tr of None \<Rightarrow> True | Some predicates \<Rightarrow> predicates = [])"

text \<open>The context type is the first associated type of the name.\<close>

definition is_context_of :: "string \<Rightarrow> ('x, 'v) item_trait \<Rightarrow> ('x, 'v) trait_type \<Rightarrow> bool" where
  "is_context_of name tr c \<longleftrightarrow> find (is_context name) (it_items tr) = Some (PartOther (ItemType c)) \<and> tt_generics c = []"

definition trait_accepted :: "'p api_metadata \<Rightarrow> ('x, 'v) item_trait \<Rightarrow> bool" where
  "trait_accepted m tr \<longleftrightarrow> trait_shape_ok tr \<and> (\<exists>c. is_context_of (context_name m) tr c)
    \<and> (\<forall>i \<in> set (it_items tr). item_accepted (it_ident tr) (context_name m) i)"

text \<open>What an accepted item is in the trait that is put out: an endpoint or a channel is a method
  that returns a future.\<close>

fun out_item :: "(syn_type \<Rightarrow> string) \<Rightarrow> ('x, 'v) trait_item_part_parsed \<Rightarrow> ('x, 'v) trait_item_part_parsed" where
  "out_item print (PartFn f) =
    PartFn (if filter is_recognized (tfn_attrs f) = [] then f
      else f\<lparr> tfn_attrs := filter (\<lambda>a. \<not> is_recognized a) (tfn_attrs f),
             tfn_sig := (tfn_sig f)\<lparr> sig_asyncness := False,
               sig_output := ReturnType (future_type (output_type (sig_output (tfn_sig f))) print) \<rparr>,
             tfn_block := map_option AsyncMoveBlock (tfn_block f) \<rparr>)"
| "out_item print (PartOther x) = PartOther x"

definition out_trait :: "(syn_type \<Rightarrow> string) \<Rightarrow> string \<Rightarrow> string \<Rightarrow> ('x, 'v) item_trait \<Rightarrow> ('x, 'v) trait_type \<Rightarrow> ('x, 'v) item_trait" where
  "out_trait print d name tr c =
    tr\<lparr> it_attrs := it_attrs tr @ (if it_vis tr = VisPublic then [] else [allow_dead_code]),
        it_supertraits := it_supertraits tr @ [static_bound],
        it_items := PartOther (ItemType (c\<lparr> tt_bounds := tt_bounds c @ [d @ ''::ServerContext''] \<rparr>))
          # map (out_item print) (filter (\<lambda>i. \<not> is_context name i) (it_items tr)) \<rparr>"

lemma api_item_trait_new_spec:
  "\<exists>errs. api_item_trait_new tr = (errs, trait_shape_ok tr) \<and> (errs = [] \<longleftrightarrow> trait_shape_ok tr)"
  by (auto simp: api_item_trait_new_def trait_shape_ok_def Let_def split: option.splits)

lemma find_context_eq:
  "find_context name items =
    (case find (is_context name) items of Some (PartOther (ItemType c)) \<Rightarrow> Some (context_item_new c) | _ \<Rightarrow> None)"
  by (induction name items rule: find_context.induct) simp_all

lemma find_is_contextD:
  assumes "find (is_context name) items = Some i"
  obtains c where "i = PartOther (ItemType c)" "tt_ident c = name"
proof -
  have "is_context name i" using assms by (auto simp: find_Some_iff)
  then show ?thesis using that by (cases "(name, i)" rule: is_context.cases) auto
qed

text \<open>The names that identifiers are made of: the context type is only made up when it is missing.\<close>

definition names_ok :: "(string \<Rightarrow> bool) \<Rightarrow> (string \<Rightarrow> string) \<Rightarrow> 'p api_metadata \<Rightarrow> ('x, 'v) item_trait \<Rightarrow> bool" where
  "names_ok is_ident to_snake_case m tr \<longleftrightarrow>
    (is_ident (context_name m) \<or> find (is_context (context_name m)) (it_items tr) \<noteq> None)
    \<and> is_ident (support_module_name to_snake_case m (it_ident tr))"

text \<open>The context item: always of the expected name.\<close>

lemma context_found:
  assumes "is_ident name \<or> find (is_context name) (it_items tr) \<noteq> None"
  obtains errs ci where
    "(case find_context name (it_items tr) of
        Some (errors, context_item) \<Rightarrow> (errors, Inr context_item)
      | None \<Rightarrow> context_item_new_missing is_ident name (it_ident tr)) = (errs, Inr ci)"
    "context_item_ident ci = name" "errs = [] \<longleftrightarrow> (\<exists>c. is_context_of name tr c)"
    "\<And>c. is_context_of name tr c \<Longrightarrow> ci = ContextValid c"
proof (cases "find (is_context name) (it_items tr)")
  case None
  then show ?thesis
    using that[of _ "ContextMissing name"] assms
    by (simp add: find_context_eq context_item_new_missing_def format_ident_def is_context_of_def)
next
  case (Some i)
  then obtain c where c: "i = PartOther (ItemType c)" "tt_ident c = name" by (rule find_is_contextD)
  show ?thesis
    using that[of "fst (context_item_new c)" "snd (context_item_new c)"] Some c
    by (cases "tt_generics c") (simp_all add: find_context_eq context_item_new_def is_context_of_def)
qed

lemma api_parser_new_spec:
  fixes tr :: "('x, 'v::linorder) item_trait" and m :: "'p api_metadata"
  assumes "\<forall>i \<in> set (it_items tr). item_parsed L i"
    and "names_ok is_ident to_snake_case m tr"
  obtains errs its and ci :: "('x, 'v) context_item" where
    "api_parser_new parse_str parse_type is_ident to_snake_case m tr =
      (errs, Inr \<lparr> apr_item_trait = tr, apr_is_valid = trait_shape_ok tr, apr_items = its,
        apr_metadata = Some \<lparr> ram_dropshot = get_crate parse_str (am_dropshot_crate m), ram_tag_config = am_tag_config m,
          ram_module_ident = support_module_name to_snake_case m (it_ident tr), ram_context_item = ci \<rparr> \<rparr>)"
    "errs = [] \<longleftrightarrow> trait_accepted m tr" "has_invalid_fn_items its \<Longrightarrow> errs \<noteq> []"
    "list_all2 (item_for parse_type (get_crate parse_str (am_dropshot_crate m)) (it_ident tr) (context_name m))
      (filter (\<lambda>i. \<not> is_context (context_name m) i) (it_items tr)) its"
    "\<And>c. is_context_of (context_name m) tr c \<Longrightarrow> ci = ContextValid c"
proof -
  let ?d = "get_crate parse_str (am_dropshot_crate m)"
  obtain te where te: "api_item_trait_new tr = (te, trait_shape_ok tr)" "te = [] \<longleftrightarrow> trait_shape_ok tr"
    using api_item_trait_new_spec[of tr] by blast
  obtain ce ci where ce: "(case find_context (context_name m) (it_items tr) of
        Some (errors, context_item) \<Rightarrow> (errors, Inr context_item)
      | None \<Rightarrow> context_item_new_missing is_ident (context_name m) (it_ident tr)) = (ce, Inr ci)"
      "context_item_ident ci = context_name m" "ce = [] \<longleftrightarrow> (\<exists>c. is_context_of (context_name m) tr c)"
      "\<And>c. is_context_of (context_name m) tr c \<Longrightarrow> ci = ContextValid c"
    using context_found[of is_ident "context_name m" tr] assms(2) unfolding names_ok_def by blast
  obtain ie its where ie: "api_items parse_type ?d (it_ident tr) (context_name m) (context_name m) (it_items tr) = (ie, Inr its)"
      "ie = [] \<longleftrightarrow> (\<forall>i \<in> set (it_items tr). item_accepted (it_ident tr) (context_name m) i)"
      "has_invalid_fn_items its \<longrightarrow> ie \<noteq> []"
      "list_all2 (item_for parse_type ?d (it_ident tr) (context_name m))
        (filter (\<lambda>i. \<not> is_context (context_name m) i) (it_items tr)) its"
    using api_items_spec[OF assms(1), of parse_type ?d "it_ident tr" "context_name m" "context_name m"] by blast
  have "api_parser_new parse_str parse_type is_ident to_snake_case m tr =
      (te @ ce @ ie, Inr \<lparr> apr_item_trait = tr, apr_is_valid = trait_shape_ok tr, apr_items = its,
        apr_metadata = Some \<lparr> ram_dropshot = ?d, ram_tag_config = am_tag_config m,
          ram_module_ident = support_module_name to_snake_case m (it_ident tr), ram_context_item = ci \<rparr> \<rparr>)"
    unfolding api_parser_new_def Let_def te(1) ce(1) using assms(2) ie(1) ce(2) by (simp add: format_ident_def names_ok_def)
  then show ?thesis
    by (rule that) (use te(2) ce(3,4) ie(2-4) in \<open>auto simp: trait_accepted_def\<close>)
qed


section \<open>The output\<close>

lemma strip_attrs_id: "filter is_recognized attrs = [] \<Longrightarrow> strip_attrs attrs = attrs"
  by (simp add: strip_attrs_def filter_empty_conv filter_id_conv)

lemma strip_fn_id: "filter is_recognized (tfn_attrs f) = [] \<Longrightarrow> strip_fn f = f"
  by (simp add: strip_fn_def strip_attrs_id)

lemma strip_item_id: "filter is_recognized (other_attrs x) = [] \<Longrightarrow> strip_item x = x"
  by (cases x) (simp_all add: strip_attrs_id)

lemma out_item_transformed:
  assumes "filter is_recognized (tfn_attrs f) = [a]" "output_type (sig_output (tfn_sig f)) = ret"
  shows "PartFn (transform_signature print f ret) = out_item print (PartFn f)"
  using assms by (simp add: transform_signature_def strip_fn_def strip_attrs_def Let_def)

lemma to_out_trait_item_spec:
  assumes "item_for parse_type d tr ctx i it" "\<not> api_item_is_invalid it" "item_accepted tr ctx i"
  shows "to_out_trait_item print it = out_item print i"
proof (cases i)
  case (PartOther x)
  then show ?thesis using assms(1,3) by (cases it) (simp_all add: strip_item_id)
next
  case (PartFn f)
  then obtain item where it: "it = ApiFn item" "fn_item_for parse_type d tr ctx f item"
    using assms(1) by (cases it) auto
  show ?thesis
  proof (cases item)
    case (FnEndpoint ep)
    then obtain a rq es ret where "aei_f ep = f" "filter is_recognized (tfn_attrs f) = [a]"
        "endpoint_signature (tfn_sig f) (RqctxTraitKind tr ctx) rq es ret" "ep_ret_ty (aei_params ep) = ret"
      using it(2) by auto
    then show ?thesis
      using out_item_transformed[of f a ret print] endpoint_signature_types(2) it(1) PartFn FnEndpoint
      by (simp del: out_item.simps)
  next
    case (FnChannel ch)
    then obtain a rq es conn ret where ch: "aci_f ch = f" "filter is_recognized (tfn_attrs f) = [a]"
        "channel_signature (tfn_sig f) (RqctxTraitKind tr ctx) rq es conn ret" "cp_ret_ty (aci_params ch) = ret"
      using it(2) by auto
    then have "output_type (sig_output (tfn_sig f)) = ret" by (simp add: channel_signature_def)
    then show ?thesis
      using out_item_transformed[of f a ret print] ch(1,2,4) it(1) PartFn FnChannel
      by (simp del: out_item.simps)
  next
    case (FnInvalid g k)
    then show ?thesis using assms(2) it by (simp add: api_item_is_invalid_def)
  next
    case (FnUnmanaged g)
    then show ?thesis using it PartFn by (simp add: strip_fn_id)
  qed
qed

lemma out_items_spec:
  assumes "list_all2 (item_for parse_type d tr ctx) items its" "\<not> has_invalid_fn_items its"
    and "\<forall>i \<in> set items. item_accepted tr ctx i"
  shows "map (to_out_trait_item print) its = map (out_item print) items"
  using assms
proof (induction rule: list_all2_induct)
  case (Cons i items it its)
  then show ?case
    using to_out_trait_item_spec[OF Cons(1), of print] by (simp add: has_invalid_fn_items_def)
qed simp

lemma make_param_errors_invalid: "make_param_errors parser \<noteq> None \<Longrightarrow> has_invalid_fn_items (apr_items parser)"
proof -
  have "api_item_is_invalid it" if "fst (item_param_errors it) \<or> snd (item_param_errors it)" for it :: "('x, 'v) api_item"
    using that by (cases it rule: item_param_errors.cases) (simp_all add: api_item_is_invalid_def)
  moreover assume "make_param_errors parser \<noteq> None"
  ultimately show ?thesis
    by (auto simp: make_param_errors_def Let_def has_invalid_fn_items_def list_ex_iff split: if_splits bind_splits)
qed

text \<open>The bodies of the two functions of a support module.\<close>

fun factory_of :: "factory_kind \<Rightarrow> ('x, 'p) module_code \<Rightarrow> ('x, 'p) factory_body option" where
  "factory_of FactoryRegular (SupportModule _ _ _ _ _ api) = Some (ff_body api)"
| "factory_of FactoryStub (SupportModule _ _ _ _ stub_api _) = Some (ff_body stub_api)"
| "factory_of _ _ = None"

text \<open>Trait and module of an output.\<close>

lemma make_api_factory_body_total:
  assumes "semver_ok L" "list_all2 (item_for parse_type d tr ctx) items its" "\<forall>i \<in> set items. item_parsed L i"
  shows "\<exists>body. make_api_factory_body L t tc its kind = Inr body
    \<and> (\<not> has_invalid_fn_items its \<longrightarrow> (\<exists>blocks. body = FactoryBody (map_option make_tag_config tc) blocks
        \<and> list_all2 (block_for L env) (declared_items parse_type d tr kind items) blocks))"
  using all_blocks_spec[OF assms(1,2) _ assms(3), of kind env] by (auto simp: make_api_factory_body_def)


lemma make_module_spec:
  assumes "semver_ok L" "list_all2 (item_for parse_type d tr' ctx) items its" "\<forall>i \<in> set items. item_parsed L i"
  shows "\<exists>code. make_module L \<lparr> apr_item_trait = tr, apr_is_valid = valid, apr_items = its, apr_metadata = Some m \<rparr> = Inr code
    \<and> (\<forall>c. \<not> has_invalid_fn_items its \<longrightarrow> valid \<longrightarrow> ram_context_item m = ContextValid c \<longrightarrow>
        (\<exists>stub_fn api_fn stub api. code = SupportModule
            (outer_attrs (doc_comments_generate (ram_dropshot m) (it_ident tr) (tt_ident c) (ram_module_ident m)))
            (it_vis tr) (ram_module_ident m) (concat (map item_type_checks its)) stub_fn api_fn
          \<and> ff_body stub_fn = FactoryBody (map_option make_tag_config (ram_tag_config m)) stub
          \<and> ff_body api_fn = FactoryBody (map_option make_tag_config (ram_tag_config m)) api
          \<and> ff_context api_fn = ImplContext (it_ident tr) (tt_ident c)
          \<and> list_all2 (block_for L env) (declared_items parse_type d tr' FactoryStub items) stub
          \<and> list_all2 (block_for L env) (declared_items parse_type d tr' FactoryRegular items) api))"
proof -
  obtain api where api: "make_api_factory_body L (it_ident tr) (ram_tag_config m) its FactoryRegular = Inr api"
      "\<not> has_invalid_fn_items its \<longrightarrow> (\<exists>blocks. api = FactoryBody (map_option make_tag_config (ram_tag_config m)) blocks
        \<and> list_all2 (block_for L env) (declared_items parse_type d tr' FactoryRegular items) blocks)"
    using make_api_factory_body_total[OF assms, of "it_ident tr" "ram_tag_config m" FactoryRegular env] by blast
  obtain stub where stub: "make_api_factory_body L (it_ident tr) (ram_tag_config m) its FactoryStub = Inr stub"
      "\<not> has_invalid_fn_items its \<longrightarrow> (\<exists>blocks. stub = FactoryBody (map_option make_tag_config (ram_tag_config m)) blocks
        \<and> list_all2 (block_for L env) (declared_items parse_type d tr' FactoryStub items) blocks)"
    using make_api_factory_body_total[OF assms, of "it_ident tr" "ram_tag_config m" FactoryStub env] by blast
  show ?thesis
  proof (cases "valid \<and> (\<exists>c. ram_context_item m = ContextValid c)")
    case True
    then obtain c where c: "valid" "ram_context_item m = ContextValid c" by blast
    have "make_module L \<lparr> apr_item_trait = tr, apr_is_valid = valid, apr_items = its, apr_metadata = Some m \<rparr> =
        support_module L m tr c its"
      using c by (simp add: make_module_def)
    then show ?thesis using api stub c 
      by (auto simp: support_module_def Let_def make_api_description_def make_stub_api_description_def make_doc_comments_def)
  next
    case False
    then have "valid \<longrightarrow> context_valid_item (ram_context_item m) = None" by (cases "ram_context_item m") simp_all
    then show ?thesis using False by (cases valid) (auto simp: make_module_def)
  qed
qed

lemma do_trait_parsed:
  fixes tr :: "('x, 'v::linorder) item_trait" and m :: "'p api_metadata"
    and env :: "(function_path, syn_type, 'x, 'h, 'g, 'v) code_env" and parse_str :: "string \<Rightarrow> string option"
  defines "d \<equiv> get_crate parse_str (am_dropshot_crate m)"
  assumes "semver_ok L" "\<forall>i \<in> set (it_items tr). item_parsed L i"
    and "names_ok is_ident to_snake_case m tr"
  obtains out errs where
    "do_trait L parse_str parse_type is_ident to_snake_case print (Inr m) (Inr tr) = Inr (out, errs)"
    "errs = [] \<longleftrightarrow> trait_accepted m tr" "ao_trait out \<noteq> None"
    "\<And>c. errs = [] \<Longrightarrow> is_context_of (context_name m) tr c \<Longrightarrow>
      ao_trait out = Some (out_trait print d (context_name m) tr c)
      \<and> (\<exists>blocks. factory_of kind (ao_module out) = Some (FactoryBody (map_option make_tag_config (am_tag_config m)) blocks)
          \<and> list_all2 (block_for L env) (declared_items parse_type d (it_ident tr) kind (it_items tr)) blocks)"
proof -
  let ?mod = "support_module_name to_snake_case m (it_ident tr)"
  let ?items = "filter (\<lambda>i. \<not> is_context (context_name m) i) (it_items tr)"
  obtain errs its and ci :: "('x, 'v) context_item" where p:
    "api_parser_new parse_str parse_type is_ident to_snake_case m tr =
      (errs, Inr \<lparr> apr_item_trait = tr, apr_is_valid = trait_shape_ok tr, apr_items = its,
        apr_metadata = Some \<lparr> ram_dropshot = d, ram_tag_config = am_tag_config m,
          ram_module_ident = ?mod, ram_context_item = ci \<rparr> \<rparr>)"
    "errs = [] \<longleftrightarrow> trait_accepted m tr" "has_invalid_fn_items its \<Longrightarrow> errs \<noteq> []"
    "list_all2 (item_for parse_type d (it_ident tr) (context_name m)) ?items its"
    "\<And>c. is_context_of (context_name m) tr c \<Longrightarrow> ci = ContextValid c"
    by (rule api_parser_new_spec[where parse_str = parse_str and parse_type = parse_type, OF assms(3,4)])
      (auto simp: d_def intro: that)
  let ?m = "\<lparr> ram_dropshot = d, ram_tag_config = am_tag_config m, ram_module_ident = ?mod, ram_context_item = ci \<rparr>"
  let ?parser = "\<lparr> apr_item_trait = tr, apr_is_valid = trait_shape_ok tr, apr_items = its, apr_metadata = Some ?m \<rparr>"
  have "\<forall>i \<in> set ?items. item_parsed L i" using assms(3) by simp
  from make_module_spec[OF assms(2) p(4) this, of tr "trait_shape_ok tr" ?m env]
  obtain code where code: "make_module L ?parser = Inr code"
    "\<And>c. \<not> has_invalid_fn_items its \<Longrightarrow> trait_shape_ok tr \<Longrightarrow> ci = ContextValid c \<Longrightarrow>
      \<exists>stub_fn api_fn stub api docs checks. code = SupportModule docs (it_vis tr) ?mod checks stub_fn api_fn
        \<and> ff_body stub_fn = FactoryBody (map_option make_tag_config (am_tag_config m)) stub
        \<and> ff_body api_fn = FactoryBody (map_option make_tag_config (am_tag_config m)) api
        \<and> list_all2 (block_for L env) (declared_items parse_type d (it_ident tr) FactoryStub (it_items tr)) stub
        \<and> list_all2 (block_for L env) (declared_items parse_type d (it_ident tr) FactoryRegular (it_items tr)) api"
    unfolding declared_items_filter resolved_api_metadata.simps by blast
  let ?out = "\<lparr> ao_trait = Some (make_out_trait print ?parser), ao_module = code, ao_param_errors = make_param_errors ?parser \<rparr>"
  have run: "do_trait L parse_str parse_type is_ident to_snake_case print (Inr m) (Inr tr) =
      Inr (?out, insert_usage (make_param_errors ?parser) errs)"
    using p(1) code(1) by (simp add: do_trait_def push_err_def to_output_def)
  have usage: "insert_usage (make_param_errors ?parser) errs = [] \<longleftrightarrow> errs = []"
    using make_param_errors_invalid[of ?parser] p(3)
    by (cases "make_param_errors ?parser") (auto simp: insert_usage_def Let_def)
  show ?thesis
  proof (rule that[OF run])
    fix c assume ok: "insert_usage (make_param_errors ?parser) errs = []" and c: "is_context_of (context_name m) tr c"
    then have accepted: "trait_accepted m tr" and valid: "\<not> has_invalid_fn_items its" using usage p(2,3) by auto
    then have shape: "trait_shape_ok tr" by (simp add: trait_accepted_def)
    have items: "map (to_out_trait_item print) its = map (out_item print) ?items"
      using out_items_spec[OF p(4) valid, of print] accepted by (simp add: trait_accepted_def)
    have ci: "ci = ContextValid c" using p(5)[OF c] .
    have "make_out_trait print ?parser = out_trait print d (context_name m) tr c"
      using items ci by (simp add: make_out_trait_def out_trait_def make_context_trait_item_def option_list_def)
    then show "ao_trait ?out = Some (out_trait print d (context_name m) tr c)
      \<and> (\<exists>blocks. factory_of kind (ao_module ?out) = Some (FactoryBody (map_option make_tag_config (am_tag_config m)) blocks)
          \<and> list_all2 (block_for L env) (declared_items parse_type d (it_ident tr) kind (it_items tr)) blocks)"
      using code(2)[OF valid shape ci] by (cases kind) auto
  qed (use usage p(2) in simp_all)
qed


section \<open>Registration by the generated functions\<close>

definition endpoint_allowed :: "tag_config \<Rightarrow> ('h, 'g, 'v) api_endpoint \<Rightarrow> bool" where
  "endpoint_allowed c e \<longleftrightarrow> tags_allowed c e \<and> endpoint_consistent e"

lemma register_step:
  assumes "api_reachable api" "register e api = Some (Inr (res, api'))"
  shows "tag_conf api' = tag_conf api"
    and "endpoint_allowed (tag_conf api) e \<Longrightarrow> res = Inr () \<and> registered (router api') = insert e (registered (router api))"
    and "\<not> endpoint_allowed (tag_conf api) e \<Longrightarrow> api' = api \<and> (\<exists>err. res = Inl err \<and> re_operation_id err = operation_id e)"
proof -
  have wf: "router_wf (router api)" using reachable_wf api_reachable_router assms(1) by blast
  have allowed: "res = Inr () \<longleftrightarrow> endpoint_allowed (tag_conf api) e"
  proof
    assume "res = Inr ()"
    then show "endpoint_allowed (tag_conf api) e"
      using assms register_Ok_iff[OF assms(1), of e api'] by (simp add: endpoint_allowed_def)
  next
    assume ok: "endpoint_allowed (tag_conf api) e"
    from assms(2) show "res = Inr ()"
    proof (cases rule: register_Inr_cases)
      case (err msg)
      have "passes (register_validations (tag_conf api) e)"
        using ok register_validations_passes unfolding endpoint_allowed_def endpoint_consistent_def by blast
      then show ?thesis using err(1) by simp
    qed
  qed
  from assms(2) have "tag_conf api' = tag_conf api
      \<and> (res = Inr () \<longrightarrow> registered (router api') = insert e (registered (router api)))
      \<and> (res \<noteq> Inr () \<longrightarrow> api' = api \<and> (\<exists>err. res = Inl err \<and> re_operation_id err = operation_id e))"
    by (cases rule: register_Inr_cases) (auto simp: registered_insert[OF wf])
  then show "tag_conf api' = tag_conf api"
    and "endpoint_allowed (tag_conf api) e \<Longrightarrow> res = Inr () \<and> registered (router api') = insert e (registered (router api))"
    and "\<not> endpoint_allowed (tag_conf api) e \<Longrightarrow> api' = api \<and> (\<exists>err. res = Inl err \<and> re_operation_id err = operation_id e)"
    using allowed by auto
qed

text \<open>All endpoints that are allowed end up registered, in one pass, and there is one error for
  each of the others.\<close>

lemma register_all_spec:
  assumes "api_reachable api" "register_all es (errs, api) = Some (Inr (errs', api'))"
  shows "api_reachable api'
    \<and> map re_operation_id errs' = map re_operation_id errs
        @ map operation_id (filter (\<lambda>e. \<not> endpoint_allowed (tag_conf api) e) es)
    \<and> registered (router api') = registered (router api) \<union> {e \<in> set es. endpoint_allowed (tag_conf api) e}"
  using assms
proof (induction es arbitrary: errs api)
  case (Cons e es)
  obtain res api1 where step: "register e api = Some (Inr (res, api1))"
    and rest: "register_all es (errs @ (case res of Inl err \<Rightarrow> [err] | Inr _ \<Rightarrow> []), api1) = Some (Inr (errs', api'))"
    using Cons(3) by (auto split: option.splits sum.splits)
  have reach: "api_reachable api1" using Cons(2) step by (rule api_reachable.registered)
  note IH = Cons(1)[OF reach rest] and S = register_step[OF Cons(2) step]
  show ?case
  proof (cases "endpoint_allowed (tag_conf api) e")
    case True
    then show ?thesis using IH S(1) S(2)[OF True] by auto
  next
    case False
    then show ?thesis using IH S(1) S(3)[OF False] by auto
  qed
qed simp

lemma api_reachable_new_description: "api_reachable (new_description policy_of tc)"
  by (cases tc) (simp_all add: new_description_def api_reachable.intros)

definition generated_config :: "('p \<Rightarrow> endpoint_tag_policy) \<Rightarrow> 'p api_metadata \<Rightarrow> tag_config" where
  "generated_config policy_of m =
    (case am_tag_config m of
       None \<Rightarrow> tag_config_default
     | Some c \<Rightarrow>
         \<lparr> allow_other_tags = atc_allow_other_tags c,
           policy = (case atc_policy c of None \<Rightarrow> AnyTags | Some p \<Rightarrow> policy_of p),
           tag_table = map_of (rev (map (\<lambda>(tag, details).
             (tag, \<lparr> td_description = atd_description details,
                td_external_docs = map_option project_external_docs (atd_external_docs details) \<rparr>)) (atc_tags c))) \<rparr>)"

lemma foldl_upd_map_of: "foldl (\<lambda>m (k, v). m(k \<mapsto> v)) m xs = m ++ map_of (rev xs)"
proof (induction xs arbitrary: m)
  case (Cons x xs)
  then show ?case by (auto simp: map_add_def split: prod.splits option.splits)
qed simp

lemma new_description_config:
  "tag_conf (new_description policy_of (map_option make_tag_config (am_tag_config m))) = generated_config policy_of m"
  "registered (router (new_description policy_of tc)) = {}"
proof -
  show "tag_conf (new_description policy_of (map_option make_tag_config (am_tag_config m))) = generated_config policy_of m"
    by (simp add: new_description_def generated_config_def api_description_new_def set_tag_config_def run_tag_config_def
        make_tag_config_def foldl_upd_map_of split: option.split)
  show "registered (router (new_description policy_of tc)) = {}"
    by (simp add: new_description_def registered_def api_description_new_def set_tag_config_def router_new_def
        split: option.split)
qed

lemma run_factory_spec:
  assumes "list_all2 (block_for L env) ds blocks"
    and "\<forall>d \<in> set ds. is_ok (declared_versions env (unwrap_or (epm_versions (dc_metadata d)) RangeAll))"
    and "c = tag_conf (new_description policy_of tc :: ('h, 'g, 'v::linorder) api_description)"
  shows "\<exists>es :: ('h, 'g, 'v) api_endpoint list. list_all2 (declares env) ds es
    \<and> run_factory L env policy_of (FactoryBody tc blocks) = factory_result (register_all es ([], new_description policy_of tc))
    \<and> (\<forall>api. run_factory L env policy_of (FactoryBody tc blocks) = Some (Inr (Inr api)) \<longrightarrow>
        api_reachable api \<and> registered (router api) = set es \<and> (\<forall>e \<in> set es. endpoint_allowed c e))
    \<and> (\<forall>errs. run_factory L env policy_of (FactoryBody tc blocks) = Some (Inr (Inl errs)) \<longrightarrow>
        errs \<noteq> [] \<and> map re_operation_id errs = map operation_id (filter (\<lambda>e. \<not> endpoint_allowed c e) es))"
proof -
  obtain es :: "('h, 'g, 'v) api_endpoint list" where es: "list_all2 (declares env) ds es"
      "run_blocks L env blocks ([], new_description policy_of tc) = register_all es ([], new_description policy_of tc)"
    using run_blocks_spec[OF assms(1,2)] by blast
  let ?new = "new_description policy_of tc :: ('h, 'g, 'v) api_description"
  note spec = register_all_spec[OF api_reachable_new_description[of policy_of tc], of es "[]"]
  have result: "factory_result (register_all es ([], ?new)) = Some (Inr r) \<longleftrightarrow>
      (\<exists>errs api. register_all es ([], ?new) = Some (Inr (errs, api)) \<and> r = (if errs \<noteq> [] then Inl errs else Inr api))" for r
    by (cases "register_all es ([], ?new)") (auto simp: factory_result_def rbind_simps split: sum.splits prod.splits)
  show ?thesis
  proof (intro exI[of _ es] conjI allI impI)
    fix api assume "run_factory L env policy_of (FactoryBody tc blocks) = Some (Inr (Inr api))"
    then have "register_all es ([], ?new) = Some (Inr ([], api))" using es(2) result[of "Inr api"] by (auto split: if_splits)
    from spec[OF this] show "api_reachable api" "registered (router api) = set es" "\<forall>e \<in> set es. endpoint_allowed c e"
      using assms(3) new_description_config(2)[of policy_of tc] by (auto simp: filter_empty_conv)
  next
    fix errs assume "run_factory L env policy_of (FactoryBody tc blocks) = Some (Inr (Inl errs))"
    then obtain api where all: "register_all es ([], ?new) = Some (Inr (errs, api))" and "errs \<noteq> []"
      using es(2) result[of "Inl errs"] by (auto split: if_splits)
    from spec[OF all] show "map re_operation_id errs = map operation_id (filter (\<lambda>e. \<not> endpoint_allowed c e) es)"
      using assms(3) by simp
    show "errs \<noteq> []" by fact
  qed (use es in simp_all)
qed


lemma do_trait_unparsed:
  fixes metadata :: "(string, 'p api_metadata) result" and item_trait :: "(string, ('x, 'v) item_trait) result"
  assumes "\<not> (\<exists>m tr. metadata = Inr m \<and> item_trait = Inr tr)"
  shows "\<exists>out errs. do_trait L parse_str parse_type is_ident to_snake_case print metadata item_trait = Inr (out, errs)
    \<and> errs \<noteq> [] \<and> (ao_trait out = None \<longleftrightarrow> (\<exists>e. item_trait = Inl e))"
proof (cases item_trait)
  case (Inl e)
  then show ?thesis
    by (cases metadata) (auto simp: do_trait_def push_err_def insert_usage_def)
next
  case (Inr tr)
  then obtain e where e: "metadata = Inl e" using assms by (cases metadata) auto
  obtain errs and parser :: "('x, 'v, 'p) api_parser" where p: "invalid_no_metadata tr = (errs, parser)" by fastforce
  then have none: "apr_metadata parser = None" by (auto simp: invalid_no_metadata_def split: prod.splits)
  then have "to_output L print parser =
      Inr \<lparr> ao_trait = Some (make_out_trait print parser), ao_module = NoModule, ao_param_errors = None \<rparr>"
    by (simp add: to_output_def make_module_def make_param_errors_def)
  then show ?thesis using Inr e p by (simp add: do_trait_def push_err_def insert_usage_def)
qed

lemma do_trait_panics:
  assumes "\<not> names_ok is_ident to_snake_case m tr"
  shows "\<exists>p. do_trait L parse_str parse_type is_ident to_snake_case print (Inr m) (Inr tr) = Inl p"
proof -
  obtain ce cr where ce: "(case find_context (context_name m) (it_items tr) of
        Some (errors, context_item) \<Rightarrow> (errors, Inr context_item)
      | None \<Rightarrow> context_item_new_missing is_ident (context_name m) (it_ident tr)) = (ce, cr)" by fastforce
  have "\<exists>p. rbind cr (\<lambda>ci. rbind (format_ident is_ident (support_module_name to_snake_case m (it_ident tr)))
      (\<lambda>mi. Inr (ci, mi))) = Inl p"
  proof (cases "is_ident (support_module_name to_snake_case m (it_ident tr))")
    case True
    then have "find (is_context (context_name m)) (it_items tr) = None" "\<not> is_ident (context_name m)"
      using assms by (auto simp: names_ok_def)
    then have "\<exists>p. cr = Inl p"
      using ce by (auto simp: find_context_eq context_item_new_missing_def format_ident_def)
    then show ?thesis by auto
  next
    case False
    then show ?thesis by (cases cr) (simp_all add: format_ident_def)
  qed
  then obtain p where "rbind cr (\<lambda>ci. rbind (format_ident is_ident (support_module_name to_snake_case m (it_ident tr)))
      (\<lambda>mi. Inr (ci, mi))) = Inl p" by blast
  then show ?thesis
    by (auto simp: do_trait_def push_err_def api_parser_new_def Let_def ce split: prod.splits)
qed

section \<open>Correctness\<close>


text \<open>What the generated functions of an accepted trait do.\<close>

lemma factories_register:
  fixes tr :: "('x, 'v::linorder) item_trait" and m :: "'p api_metadata"
    and env :: "(function_path, syn_type, 'x, 'h, 'g, 'v) code_env"
  assumes "semver_ok L" "\<forall>i \<in> set (it_items tr). item_parsed L i" "names_ok is_ident to_snake_case m tr"
    and "trait_accepted m tr"
    and "\<forall>d \<in> set (declared_items parse_type (get_crate parse_str (am_dropshot_crate m)) (it_ident tr) kind (it_items tr)).
      is_ok (declared_versions env (unwrap_or (epm_versions (dc_metadata d)) RangeAll))"
  shows "\<exists>out body es. do_trait L parse_str parse_type is_ident to_snake_case print (Inr m) (Inr tr) = Inr (out, [])
    \<and> factory_of kind (ao_module out) = Some body
    \<and> list_all2 (declares env)
        (declared_items parse_type (get_crate parse_str (am_dropshot_crate m)) (it_ident tr) kind (it_items tr)) es
    \<and> run_factory L env policy_of body =
        factory_result (register_all es ([], new_description policy_of (map_option make_tag_config (am_tag_config m))))
    \<and> (\<forall>api. run_factory L env policy_of body = Some (Inr (Inr api)) \<longrightarrow>
        api_reachable api \<and> registered (router api) = set es \<and> (\<forall>e \<in> set es. endpoint_allowed (generated_config policy_of m) e))
    \<and> (\<forall>errs. run_factory L env policy_of body = Some (Inr (Inl errs)) \<longrightarrow>
        errs \<noteq> [] \<and> map re_operation_id errs =
          map operation_id (filter (\<lambda>e. \<not> endpoint_allowed (generated_config policy_of m) e) es))"
proof -
  obtain c where c: "is_context_of (context_name m) tr c" using assms(4) by (auto simp: trait_accepted_def)
  obtain out errs where out: "do_trait L parse_str parse_type is_ident to_snake_case print (Inr m) (Inr tr) = Inr (out, errs)"
      "errs = [] \<longleftrightarrow> trait_accepted m tr"
      "errs = [] \<Longrightarrow> \<exists>blocks. factory_of kind (ao_module out) = Some (FactoryBody (map_option make_tag_config (am_tag_config m)) blocks)
          \<and> list_all2 (block_for L env)
              (declared_items parse_type (get_crate parse_str (am_dropshot_crate m)) (it_ident tr) kind (it_items tr)) blocks"
    using do_trait_parsed[where env = env and kind = kind, OF assms(1-3), of parse_str parse_type print] c by metis
  then obtain blocks where
    "factory_of kind (ao_module out) = Some (FactoryBody (map_option make_tag_config (am_tag_config m)) blocks)"
    and blocks: "list_all2 (block_for L env)
        (declared_items parse_type (get_crate parse_str (am_dropshot_crate m)) (it_ident tr) kind (it_items tr)) blocks"
    using assms(4) by blast
  moreover have "do_trait L parse_str parse_type is_ident to_snake_case print (Inr m) (Inr tr) = Inr (out, [])"
    using out(1,2) assms(4) by simp
  ultimately show ?thesis
    using run_factory_spec[OF blocks assms(5) new_description_config(1)[of policy_of m, symmetric]] by blast
qed



section \<open>A trait\<close>

definition sample_trait_fn :: "(nat, 64 word \<times> 64 word \<times> 64 word) trait_fn" where
  "sample_trait_fn = \<lparr> tfn_attrs = [AttrOther ''inline'', AttrEndpoint (MetaList (Inr sample_metadata))],
    tfn_sig = sample_signature\<lparr> sig_inputs :=
      [Typed (TypePath NoQself False [SynSegment ''RequestContext'' (AngleBracketed [ArgType (self_context ''Context'')])]),
       Typed (ident_type ''B'')] \<rparr>,
    tfn_block = None \<rparr>"

definition sample_context :: "(nat, 64 word \<times> 64 word \<times> 64 word) trait_type" where
  "sample_context = \<lparr> tt_attrs = [], tt_ident = ''Context'', tt_generics = [], tt_bounds = [''Sync''] \<rparr>"

definition sample_api_trait :: "(nat, 64 word \<times> 64 word \<times> 64 word) item_trait" where
  "sample_api_trait = \<lparr> it_attrs = [], it_vis = VisPublic, it_unsafety = False, it_auto = False, it_ident = ''Api'',
    it_generics = [], it_where_clause = Some [], it_supertraits = [],
    it_items = [PartOther (ItemConst ''N'' []), PartOther (ItemType sample_context), PartFn sample_trait_fn] \<rparr>"

definition sample_api_metadata :: "nat api_metadata" where
  "sample_api_metadata = \<lparr> am_context = None, am_module = None, am_tag_config = None, am_dropshot_crate = None \<rparr>"

lemma sample_trait_signature:
  "is_endpoint_signature (tfn_sig sample_trait_fn) (RqctxTraitKind ''Api'' ''Context'')"
proof -
  let ?rq = "TypePath NoQself False [SynSegment ''RequestContext'' (AngleBracketed [ArgType (self_context ''Context'')])]"
  have "rqctx_ok (RqctxTraitKind ''Api'' ''Context'') ?rq" by (auto simp: applied_to_def)
  then have "endpoint_signature (tfn_sig sample_trait_fn) (RqctxTraitKind ''Api'' ''Context'') ?rq [ident_type ''B''] (ident_type ''R'')"
    using plain_ident_type
    by (simp add: endpoint_signature_def sample_trait_fn_def sample_signature_def fn_ok_def del: rqctx_ok.simps)
  then show ?thesis unfolding is_endpoint_signature_def by blast
qed

lemma sample_trait_facts:
  "semver_ok sample_semver" "\<forall>i \<in> set (it_items sample_api_trait). item_parsed sample_semver i"
  "names_ok (\<lambda>_. True) id sample_api_metadata sample_api_trait" "trait_accepted sample_api_metadata sample_api_trait"
  "is_context_of (context_name sample_api_metadata) sample_api_trait sample_context"
proof -
  show "semver_ok sample_semver" by (simp add: semver_ok_def sample_semver_def)
  have "range_parsed sample_semver (epm_versions sample_metadata)"
    using sample_range_parsed unfolding range_parsed_def sample_metadata_def by fastforce
  then have "item_parsed sample_semver (PartFn sample_trait_fn)"
    by (simp add: sample_trait_fn_def parsed_signature_def sample_signature_def)
  then show "\<forall>i \<in> set (it_items sample_api_trait). item_parsed sample_semver i"
    by (simp add: sample_api_trait_def del: item_parsed.simps(1))
  show "names_ok (\<lambda>_. True) id sample_api_metadata sample_api_trait" by (simp add: names_ok_def)
  show c: "is_context_of (context_name sample_api_metadata) sample_api_trait sample_context"
    by (simp add: is_context_of_def sample_api_trait_def sample_context_def sample_api_metadata_def context_name_def
        DEFAULT_CONTEXT_NAME_def unwrap_or_def)
  have "filter is_recognized (tfn_attrs sample_trait_fn) = [AttrEndpoint (MetaList (Inr sample_metadata))]"
    by (simp add: sample_trait_fn_def)
  moreover have "endpoint_metadata_ok sample_metadata TraitMacro"
    by (auto simp: endpoint_metadata_ok_def sample_metadata_def starts_with_def MULTIPART_FORM_DATA_def
        intro!: exI[of _ ValidMultipartFormData])
  ultimately have "fn_accepted ''Api'' ''Context'' sample_trait_fn"
    unfolding fn_accepted_def using sample_trait_signature by blast
  then have "\<forall>i \<in> set (it_items sample_api_trait). item_accepted ''Api'' ''Context'' i"
    by (simp add: sample_api_trait_def sample_context_def)
  moreover have "context_name sample_api_metadata = ''Context''" "it_ident sample_api_trait = ''Api''"
    "trait_shape_ok sample_api_trait"
    by (simp_all add: sample_api_metadata_def context_name_def DEFAULT_CONTEXT_NAME_def unwrap_or_def sample_api_trait_def
        trait_shape_ok_def)
  ultimately show "trait_accepted sample_api_metadata sample_api_trait" using c by (auto simp: trait_accepted_def)
qed

lemma sample_declared_items:
  "declared_items parse_type d (it_ident sample_api_trait) FactoryRegular (it_items sample_api_trait) =
    [\<lparr> dc_kind = Regular (ServerImplMethod ''Api'' ''f''), dc_metadata = sample_metadata, dc_name = ''f'',
       dc_doc = fn_doc sample_trait_fn \<rparr>]"
  by (simp add: sample_api_trait_def declared_fn_def sample_trait_fn_def endpoint_kind_def sample_signature_def)



end
