(* ===== verification/Request_Body.thy ===== *)
theory Request_Body
  imports Extractors
begin

text \<open>
  The body type (\<^verbatim>\<open>body.rs\<close>) and the raw request extractor (\<^verbatim>\<open>extractor/raw_request.rs\<close>).  A body is what
  polling it yields, in order: not ready yet, or a frame; the constructors of the \<^verbatim>\<open>http_body_util\<close> crate
  are parameters.  The stream of its data frames yields exactly what the body extractors read.
\<close>

section \<open>Bodies\<close>

datatype body_event = NotReady | FrameReady frame

type_synonym body = "body_event list"

datatype 'a poll = Pending | Ready 'a

record body_lib =
  bl_empty :: body
  bl_full :: "string \<Rightarrow> body"

definition body_empty :: "body_lib \<Rightarrow> body" where
  "body_empty B = bl_empty B"

definition body_with_content :: "body_lib \<Rightarrow> string \<Rightarrow> body" where
  "body_with_content B buf = bl_full B buf"

text \<open>\<^verbatim>\<open>wrap\<close> converts the errors of the body below.\<close>

definition body_wrap :: "(string \<Rightarrow> string) \<Rightarrow> body \<Rightarrow> body" where
  "body_wrap into_box inner =
    map (\<lambda>e. case e of FrameReady (FrError x) \<Rightarrow> FrameReady (FrError (into_box x)) | _ \<Rightarrow> e) inner"

definition body_default :: "body_lib \<Rightarrow> body" where
  "body_default B = body_empty B"

fun body_poll_frame :: "body \<Rightarrow> frame option poll \<times> body" where
  "body_poll_frame [] = (Ready None, [])"
| "body_poll_frame (NotReady # b) = (Pending, b)"
| "body_poll_frame (FrameReady f # b) = (Ready (Some f), b)"

lemma body_poll_frame_shorter: "body_poll_frame b = (Ready (Some f), b') \<Longrightarrow> length b' < length b"
  by (cases b rule: body_poll_frame.cases) auto

text \<open>The loop of \<^verbatim>\<open>DataStream::poll_next\<close>: frames that are not data are passed over.\<close>

function data_stream_poll_next :: "body \<Rightarrow> (string, string) result option poll \<times> body" where
  "data_stream_poll_next b =
    (case body_poll_frame b of
       (Pending, b') \<Rightarrow> (Pending, b')
     | (Ready None, b') \<Rightarrow> (Ready None, b')
     | (Ready (Some (FrError e)), b') \<Rightarrow> (Ready (Some (Inl e)), b')
     | (Ready (Some (FrData d)), b') \<Rightarrow> (Ready (Some (Inr d)), b')
     | (Ready (Some FrTrailers), b') \<Rightarrow> data_stream_poll_next b')"
  by pat_completeness auto
termination
  by (relation "measure length") (auto dest: body_poll_frame_shorter[OF sym])

declare data_stream_poll_next.simps [simp del]

lemma data_stream_poll_next_eqs [simp]:
  "data_stream_poll_next [] = (Ready None, [])"
  "data_stream_poll_next (NotReady # b) = (Pending, b)"
  "data_stream_poll_next (FrameReady (FrData d) # b) = (Ready (Some (Inr d)), b)"
  "data_stream_poll_next (FrameReady (FrError e) # b) = (Ready (Some (Inl e)), b)"
  "data_stream_poll_next (FrameReady FrTrailers # b) = data_stream_poll_next b"
  by (simp_all add: data_stream_poll_next.simps[of "_ # _"] data_stream_poll_next.simps[of "[]"])

section \<open>The raw request\<close>

definition raw_request_from_request :: "'c \<Rightarrow> http_request \<Rightarrow> (http_error, http_request) result" where
  "raw_request_from_request rqctx request = Inr request"

definition raw_request_into_inner :: "http_request \<Rightarrow> http_request" where
  "raw_request_into_inner r = r"

definition raw_request_metadata :: "api_endpoint_body_content_type \<Rightarrow> 'g extractor_metadata" where
  "raw_request_metadata content_type = \<lparr> em_extension_mode = ModeNone, em_parameters = [] \<rparr>"

section \<open>The stream is what the extractors read\<close>

text \<open>The frames of a body in order, and its items: data and errors.\<close>

fun frames_of :: "body \<Rightarrow> body_frames" where
  "frames_of [] = []"
| "frames_of (NotReady # b) = frames_of b"
| "frames_of (FrameReady f # b) = f # frames_of b"

fun frame_item :: "frame \<Rightarrow> (string, string) result option" where
  "frame_item (FrData d) = Some (Inr d)"
| "frame_item (FrError e) = Some (Inl e)"
| "frame_item FrTrailers = None"

definition items_of :: "body \<Rightarrow> (string, string) result list" where
  "items_of b = List.map_filter frame_item (frames_of b)"

lemma items_of_simps [simp]:
  "items_of [] = []" "items_of (NotReady # b) = items_of b" "items_of (FrameReady FrTrailers # b) = items_of b"
  "items_of (FrameReady (FrData d) # b) = Inr d # items_of b" "items_of (FrameReady (FrError e) # b) = Inl e # items_of b"
  by (simp_all add: items_of_def map_filter_simps)

lemma data_stream_poll_next_spec:
  "case data_stream_poll_next b of
      (Pending, b') \<Rightarrow> items_of b = items_of b' \<and> length b' < length b
    | (Ready None, b') \<Rightarrow> items_of b = [] \<and> b' = []
    | (Ready (Some x), b') \<Rightarrow> items_of b = x # items_of b' \<and> length b' < length b"
proof (induction b)
  case (Cons ev b)
  show ?case
  proof (cases ev)
    case (FrameReady f)
    then show ?thesis using Cons by (cases f) (auto split: prod.splits poll.splits option.splits)
  qed simp
qed simp

lemma data_stream_poll_next_shorter:
  "data_stream_poll_next b = (Pending, b') \<Longrightarrow> length b' < length b"
  "data_stream_poll_next b = (Ready (Some x), b') \<Longrightarrow> length b' < length b"
  using data_stream_poll_next_spec[of b] by simp_all

text \<open>Polling until the end.\<close>

function poll_all :: "body \<Rightarrow> (string, string) result list" where
  "poll_all b =
    (case data_stream_poll_next b of
       (Pending, b') \<Rightarrow> poll_all b'
     | (Ready None, b') \<Rightarrow> []
     | (Ready (Some x), b') \<Rightarrow> x # poll_all b')"
  by pat_completeness auto
termination
  by (relation "measure length") (auto dest: data_stream_poll_next_shorter[OF sym])

declare poll_all.simps [simp del]

lemma poll_all_items: "poll_all b = items_of b"
proof (induction "length b" arbitrary: b rule: less_induct)
  case less
  then show ?case
    using data_stream_poll_next_spec[of b] by (auto simp: poll_all.simps[of b] split: prod.splits poll.splits option.splits)
qed

text \<open>The loop of \<^verbatim>\<open>into_stream\<close> over the items of the stream.\<close>

fun dump_items :: "(string, string) result list \<Rightarrow> nat \<Rightarrow> (string, nat) result" where
  "dump_items [] n = Inr n"
| "dump_items (Inl e # xs) n = Inl e"
| "dump_items (Inr buf # xs) n = dump_items xs (n + length buf)"

fun items_loop :: "(nat \<Rightarrow> string) \<Rightarrow> nat \<Rightarrow> nat \<Rightarrow> (string, string) result list \<Rightarrow> (http_error, string) result list" where
  "items_loop disp cap n [] = []"
| "items_loop disp cap n (Inl e # xs) = [Inl (stream_error e)]"
| "items_loop disp cap n (Inr buf # xs) =
    (if n + length buf > cap then
       [case dump_items xs 0 of
          Inl e \<Rightarrow> Inl (stream_error e)
        | Inr _ \<Rightarrow> Inl (for_bad_request None (''request body exceeded maximum size of '' @ disp cap @ '' bytes''))]
     else Inr buf # items_loop disp cap (n + length buf) xs)"

lemma dump_items_frames: "http_dump_body fs n = dump_items (List.map_filter frame_item fs) n"
  by (induction fs n rule: http_dump_body.induct) (simp_all add: map_filter_simps)

lemma stream_loop_items: "stream_loop disp cap n fs = items_loop disp cap n (List.map_filter frame_item fs)"
  by (induction disp cap n fs rule: stream_loop.induct) (simp_all add: map_filter_simps dump_items_frames)

text \<open>Whatever the timing of a body, its stream ends, and reading the stream with a cap is reading
  the frames of the body with this cap.\<close>

lemma data_stream_refines: "into_stream disp \<lparr> sb_body = frames_of b, sb_cap = cap \<rparr> = items_loop disp cap 0 (poll_all b)"
  by (simp add: into_stream_def stream_loop_items poll_all_items items_of_def)

end
