(* ===== verification/Test_Client.thy ===== *)
theory Test_Client
  imports Request_Body Pagination Server
begin

text \<open>
  The test client (\<^verbatim>\<open>test_util.rs\<close>): requests against a running server with the checks that are made of
  every response, and the helpers that read objects, lists and paginated collections.  The network, the server
  behind it and the clock are the state \<open>'w\<close> of the world, which a request changes; a check that
  fails is a panic.  The HTTP client of \<^verbatim>\<open>hyper_util\<close>, its URIs, and the decoders of dates, UTF-8 and JSON are parameters.
\<close>

section \<open>Actions on the world\<close>

type_synonym ('w, 'a) act = "'w \<Rightarrow> ('a \<times> 'w) outcome"

definition areturn :: "'a \<Rightarrow> ('w, 'a) act" where
  "areturn a w = Inr (a, w)"

definition abind :: "('w, 'a) act \<Rightarrow> ('a \<Rightarrow> ('w, 'b) act) \<Rightarrow> ('w, 'b) act" where
  "abind m f w = rbind (m w) (\<lambda>(a, w). f a w)"

definition alift :: "'a outcome \<Rightarrow> ('w, 'a) act" where
  "alift r w = rbind r (\<lambda>a. Inr (a, w))"

named_theorems act_simps \<open>running actions\<close>

lemma areturn_run [act_simps]: "areturn a w = Inr (a, w)"
  by (simp add: areturn_def)

lemma abind_run [act_simps]: "m w = Inr (a, w') \<Longrightarrow> abind m f w = f a w'"
  by (simp add: abind_def)

lemma alift_run [act_simps]: "r = Inr a \<Longrightarrow> alift r w = Inr (a, w)"
  by (simp add: alift_def)

lemma abind_Inr_iff: "abind m f w = Inr r \<longleftrightarrow> (\<exists>a w'. m w = Inr (a, w') \<and> f a w' = Inr r)"
  by (auto simp: abind_def rbind_Inr_iff)

lemma alift_Inr_iff: "alift r w = Inr (a, w') \<longleftrightarrow> r = Inr a \<and> w' = w"
  by (auto simp: alift_def rbind_Inr_iff)

text \<open>\<^verbatim>\<open>expect\<close>, \<^verbatim>\<open>unwrap\<close>, \<^verbatim>\<open>unwrap_err\<close> and \<^verbatim>\<open>assert!\<close>.\<close>

definition expect :: "string \<Rightarrow> 'a option \<Rightarrow> 'a outcome" where
  "expect msg x = ok_or (Panic msg) x"

definition unwrap_ok :: "('e, 'a) result \<Rightarrow> 'a outcome" where
  "unwrap_ok r = map_err (\<lambda>_. Panic ''called `Result::unwrap()` on an `Err` value'') r"

definition unwrap_err :: "('e, 'a) result \<Rightarrow> 'e outcome" where
  "unwrap_err r = (case r of Inl e \<Rightarrow> Inr e | Inr _ \<Rightarrow> Inl (Panic ''called `Result::unwrap_err()` on an `Ok` value''))"

definition assert_that :: "bool \<Rightarrow> unit outcome" where
  "assert_that c = (if c then Inr () else Inl (Panic ''assertion failed''))"

lemma outcome_iffs [simp]:
  "expect msg x = Inr a \<longleftrightarrow> x = Some a" "unwrap_ok r = Inr b \<longleftrightarrow> r = Inr b"
  "unwrap_err r = Inr e \<longleftrightarrow> r = Inl e" "assert_that c = Inr u \<longleftrightarrow> c"
  by (auto simp: expect_def unwrap_ok_def unwrap_err_def assert_that_def split: sum.splits)

section \<open>The headers that a response may have\<close>

datatype allowed_value = AnyValue | OneOf "string list"

record allowed_header =
  ah_name :: string
  ah_value :: allowed_value

definition allowed_header_new :: "string \<Rightarrow> allowed_header" where
  "allowed_header_new name = \<lparr> ah_name = name, ah_value = AnyValue \<rparr>"

definition TEST_HEADER_1 :: string where
  "TEST_HEADER_1 = ''x-dropshot-test-header-1''"

definition TEST_HEADER_2 :: string where
  "TEST_HEADER_2 = ''x-dropshot-test-header-2''"

definition ALLOWED_HEADERS :: "allowed_header list" where
  "ALLOWED_HEADERS =
    [allowed_header_new ''content-encoding'', allowed_header_new ''content-length'', allowed_header_new ''content-type'',
     allowed_header_new ''date'', allowed_header_new ''location'', allowed_header_new ''vary'',
     allowed_header_new ''x-request-id'', \<lparr> ah_name = ''transfer-encoding'', ah_value = OneOf [''chunked''] \<rparr>,
     allowed_header_new TEST_HEADER_1, allowed_header_new TEST_HEADER_2]"

text \<open>The inner loop: the first entry with the name of the header decides.\<close>

fun header_okay :: "(string \<Rightarrow> string option) \<Rightarrow> allowed_header list \<Rightarrow> string \<Rightarrow> string \<Rightarrow> bool outcome" where
  "header_okay to_str [] name v = Inr False"
| "header_okay to_str (a # as) name v =
    (if name = ah_name a then
       (case ah_value a of
          AnyValue \<Rightarrow> Inr True
        | OneOf allowed \<Rightarrow>
            rbind (expect ''Cannot turn header value to string'' (to_str v)) (\<lambda>h. Inr (h \<in> set allowed)))
     else header_okay to_str as name v)"

fun check_headers :: "(string \<Rightarrow> string option) \<Rightarrow> (string \<times> string) list \<Rightarrow> unit outcome" where
  "check_headers to_str [] = Inr ()"
| "check_headers to_str ((name, v) # hs) =
    rbind (header_okay to_str ALLOWED_HEADERS name v) (\<lambda>okay.
      if okay then check_headers to_str hs
      else Inl (Panic (''header name not in allowed list: '' @ [CHR 0x22] @ name @ [CHR 0x22])))"

section \<open>Requests and responses\<close>

record uri =
  uri_scheme :: string
  uri_authority :: string
  uri_path_and_query :: string

record client_request =
  tq_method :: string
  tq_uri :: uri
  tq_headers :: "(string \<times> string) list"
  tq_body :: body

text \<open>A response as it is received: the headers in the order in which they are iterated.\<close>

record client_response =
  cr_status :: status_code
  cr_headers :: "(string \<times> string) list"
  cr_body :: body

record 'w http_client =
  cl_request :: "client_request \<Rightarrow> 'w \<Rightarrow> (string, client_response) result \<times> 'w"
  cl_now :: "'w \<Rightarrow> int"
  cl_authority_ok :: "string \<Rightarrow> bool"
  cl_path_ok :: "string \<Rightarrow> bool"
  cl_to_str :: "string \<Rightarrow> string option"
  cl_parse_date :: "string \<Rightarrow> int option"
  cl_collect :: "body \<Rightarrow> (string, string) result \<times> body"
  cl_from_utf8 :: "string \<Rightarrow> string option"
  cl_parse_error :: "string \<Rightarrow> http_error_response_body option"
  cl_bodies :: body_lib

record 'w client_test_context =
  ctc_bind_address :: string
  ctc_client :: "'w http_client"

definition client_test_context_new :: "string \<Rightarrow> 'w http_client \<Rightarrow> 'w client_test_context" where
  "client_test_context_new server_addr client = \<lparr> ctc_bind_address = server_addr, ctc_client = client \<rparr>"

definition client_url :: "'w client_test_context \<Rightarrow> string \<Rightarrow> uri outcome" where
  "client_url C p =
    (if cl_authority_ok (ctc_client C) (ctc_bind_address C) \<and> cl_path_ok (ctc_client C) p
     then Inr \<lparr> uri_scheme = ''http'', uri_authority = ctc_bind_address C, uri_path_and_query = p \<rparr>
     else Inl (Panic ''attempted to construct invalid URI''))"

section \<open>Reading responses\<close>

text \<open>Reading a body consumes it.\<close>

definition read_bytes :: "'w http_client \<Rightarrow> client_response \<Rightarrow> (string \<times> client_response) outcome" where
  "read_bytes K r =
    (case cl_collect K (cr_body r) of
       (Inl e, _) \<Rightarrow> Inl (Panic ''error reading body'')
     | (Inr bytes, rest) \<Rightarrow> Inr (bytes, r\<lparr> cr_body := rest \<rparr>))"

definition read_string :: "'w http_client \<Rightarrow> client_response \<Rightarrow> (string \<times> client_response) outcome" where
  "read_string K r =
    rbind (read_bytes K r) (\<lambda>(bytes, r).
    rbind (expect ''response contained non-UTF-8 bytes'' (cl_from_utf8 K bytes)) (\<lambda>s. Inr (s, r)))"

definition read_json ::
  "'w http_client \<Rightarrow> (string \<Rightarrow> 't option) \<Rightarrow> client_response \<Rightarrow> ('t \<times> client_response) outcome" where
  "read_json K from_slice r =
    rbind (expect ''missing content-type'' (map_of (cr_headers r) ''content-type'')) (\<lambda>ct.
    rbind (assert_that (ct = CONTENT_TYPE_JSON)) (\<lambda>_.
    rbind (read_bytes K r) (\<lambda>(bytes, r).
    rbind (expect ''failed to parse server body as expected type'' (from_slice bytes)) (\<lambda>t. Inr (t, r)))))"

definition read_ndjson ::
  "'w http_client \<Rightarrow> (string \<Rightarrow> 't option) \<Rightarrow> client_response \<Rightarrow> ('t list \<times> client_response) outcome" where
  "read_ndjson K from_str r =
    rbind (expect ''missing content-type'' (map_of (cr_headers r) ''content-type'')) (\<lambda>ct.
    rbind (assert_that (ct = CONTENT_TYPE_NDJSON)) (\<lambda>_.
    rbind (read_string K r) (\<lambda>(body_string, r).
    rbind (mapM_result (\<lambda>line. expect ''failed to parse server body as expected type'' (from_str line))
             (filter (\<lambda>line. line \<noteq> []) (split_on CHR 0x0A body_string))) (\<lambda>ts. Inr (ts, r)))))"

text \<open>\<^verbatim>\<open>str::parse::<usize>\<close>.\<close>

definition parse_usize :: "string \<Rightarrow> 64 word option" where
  "parse_usize s =
    (let ds = (case s of [] \<Rightarrow> [] | c # cs \<Rightarrow> if c = CHR ''+'' then cs else s) in
     if ds = [] \<or> \<not> list_all (\<lambda>c. digit_value c \<noteq> None) ds \<or> digits_nat ds \<ge> 2 ^ 64 then None
     else Some (word_of_nat (digits_nat ds)))"

definition read_content_length :: "'w http_client \<Rightarrow> client_response \<Rightarrow> 64 word outcome" where
  "read_content_length K r =
    rbind (expect ''called `Option::unwrap()` on a `None` value'' (map_of (cr_headers r) ''content-length'')) (\<lambda>v.
    rbind (expect ''called `Result::unwrap()` on an `Err` value'' (cl_to_str K v)) (\<lambda>s.
    expect ''called `Result::unwrap()` on an `Err` value'' (parse_usize s)))"

section \<open>Making requests\<close>

definition is_client_error :: "status_code \<Rightarrow> bool" where
  "is_client_error s \<longleftrightarrow> 400 \<le> s \<and> s < 500"

definition is_server_error :: "status_code \<Rightarrow> bool" where
  "is_server_error s \<longleftrightarrow> 500 \<le> s \<and> s < 600"

text \<open>The checks of a response, in order: status, header names, date, request id, and the empty body of
  a 204; the body of an error response is parsed.\<close>

definition check_date :: "'w http_client \<Rightarrow> int \<Rightarrow> int \<Rightarrow> (string \<times> string) list \<Rightarrow> unit outcome" where
  "check_date K time_before time_after hs =
    rbind (expect ''missing Date header'' (map_of hs ''date'')) (\<lambda>v.
    rbind (expect ''non-ASCII characters in Date header'' (cl_to_str K v)) (\<lambda>date_header.
    rbind (expect ''unable to parse server's Date header'' (cl_parse_date K date_header)) (\<lambda>time_request.
    rbind (assert_that (time_before \<le> time_after)) (\<lambda>_.
    rbind (assert_that (time_request \<ge> time_before - 1)) (\<lambda>_.
    assert_that (time_request \<le> time_after + 1))))))"

definition check_response ::
  "'w http_client \<Rightarrow> int \<Rightarrow> int \<Rightarrow> status_code \<Rightarrow> client_response \<Rightarrow> (string \<times> client_response) outcome" where
  "check_response K time_before time_after expected_status r =
    rbind (assert_that (expected_status = cr_status r)) (\<lambda>_.
    rbind (check_headers (cl_to_str K) (cr_headers r)) (\<lambda>_.
    rbind (check_date K time_before time_after (cr_headers r)) (\<lambda>_.
    rbind (expect ''missing request id header'' (map_of (cr_headers r) HEADER_REQUEST_ID)) (\<lambda>v.
    rbind (expect ''non-ASCII characters in request id'' (cl_to_str K v)) (\<lambda>request_id_header.
    rbind (if cr_status r = 204 then
             rbind (read_bytes K r) (\<lambda>(body_bytes, r). rbind (assert_that (length body_bytes = 0)) (\<lambda>_. Inr r))
           else Inr r) (\<lambda>r. Inr (request_id_header, r)))))))"

definition make_request_inner ::
  "'w http_client \<Rightarrow> (string \<Rightarrow> 'e option) \<Rightarrow> client_request \<Rightarrow> status_code
    \<Rightarrow> ('w, (string \<times> 'e, client_response) result) act" where
  "make_request_inner K parse_error request expected_status w =
    (let time_before = cl_now K w in
     case cl_request K request w of
       (Inl e, _) \<Rightarrow> Inl (Panic ''failed to make request to server'')
     | (Inr response, w) \<Rightarrow>
         rbind (check_response K time_before (cl_now K w) expected_status response) (\<lambda>(request_id_header, response).
           if \<not> is_client_error (cr_status response) \<and> \<not> is_server_error (cr_status response) then Inr (Inr response, w)
           else rbind (read_json K parse_error response) (\<lambda>(err_body, response).
                  Inr (Inl (request_id_header, err_body), w))))"

text \<open>The plain context expects an \<^verbatim>\<open>HttpError\<close> whose request id is that of the header, a typed one
  any error.\<close>

definition make_request_with_request ::
  "'w client_test_context \<Rightarrow> client_request \<Rightarrow> status_code
    \<Rightarrow> ('w, (http_error_response_body, client_response) result) act" where
  "make_request_with_request C request expected_status =
    abind (make_request_inner (ctc_client C) (cl_parse_error (ctc_client C)) request expected_status) (\<lambda>r.
      case r of
        Inr response \<Rightarrow> areturn (Inr response)
      | Inl (request_id_header, err_body) \<Rightarrow>
          alift (rbind (assert_that (body_request_id err_body = request_id_header)) (\<lambda>_. Inr (Inl err_body))))"

definition typed_make_request_with_request ::
  "'w client_test_context \<Rightarrow> (string \<Rightarrow> 'e option) \<Rightarrow> client_request \<Rightarrow> status_code
    \<Rightarrow> ('w, ('e, client_response) result) act" where
  "typed_make_request_with_request C parse_error request expected_status =
    abind (make_request_inner (ctc_client C) parse_error request expected_status) (\<lambda>r.
      areturn (map_err (\<lambda>(_, err_body). err_body) r))"

text \<open>The methods that both contexts share; \<open>send\<close> is their \<^verbatim>\<open>make_request_with_request\<close>.\<close>

type_synonym ('w, 'e) sender = "client_request \<Rightarrow> status_code \<Rightarrow> ('w, ('e, client_response) result) act"

definition make_request_with_body ::
  "'w client_test_context \<Rightarrow> ('w, 'e) sender \<Rightarrow> string \<Rightarrow> string \<Rightarrow> body \<Rightarrow> status_code
    \<Rightarrow> ('w, ('e, client_response) result) act" where
  "make_request_with_body C send meth p b expected_status =
    abind (alift (client_url C p)) (\<lambda>u.
      send \<lparr> tq_method = meth, tq_uri = u, tq_headers = [], tq_body = b \<rparr> expected_status)"

definition make_request_with_body_url_encoded ::
  "'w client_test_context \<Rightarrow> ('w, 'e) sender \<Rightarrow> string \<Rightarrow> string \<Rightarrow> body \<Rightarrow> status_code
    \<Rightarrow> ('w, ('e, client_response) result) act" where
  "make_request_with_body_url_encoded C send meth p b expected_status =
    abind (alift (client_url C p)) (\<lambda>u.
      send \<lparr> tq_method = meth, tq_uri = u, tq_headers = [(''content-type'', CONTENT_TYPE_URL_ENCODED)], tq_body = b \<rparr>
        expected_status)"

text \<open>The body of an optional input; \<open>ser\<close> serializes it.\<close>

definition input_body :: "body_lib \<Rightarrow> ('r \<Rightarrow> (string, string) result) \<Rightarrow> 'r option \<Rightarrow> body outcome" where
  "input_body B ser request_body =
    (case request_body of
       None \<Rightarrow> Inr (body_empty B)
     | Some input \<Rightarrow> rbind (unwrap_ok (ser input)) (\<lambda>s. Inr (body_with_content B s)))"

definition make_request ::
  "'w client_test_context \<Rightarrow> ('w, 'e) sender \<Rightarrow> ('r \<Rightarrow> (string, string) result) \<Rightarrow> string \<Rightarrow> string \<Rightarrow> 'r option
    \<Rightarrow> status_code \<Rightarrow> ('w, ('e, client_response) result) act" where
  "make_request C send to_json meth p request_body expected_status =
    abind (alift (input_body (cl_bodies (ctc_client C)) to_json request_body)) (\<lambda>b.
      make_request_with_body C send meth p b expected_status)"

definition make_request_url_encoded ::
  "'w client_test_context \<Rightarrow> ('w, 'e) sender \<Rightarrow> ('r \<Rightarrow> (string, string) result) \<Rightarrow> string \<Rightarrow> string \<Rightarrow> 'r option
    \<Rightarrow> status_code \<Rightarrow> ('w, ('e, client_response) result) act" where
  "make_request_url_encoded C send to_urlencoded meth p request_body expected_status =
    abind (alift (input_body (cl_bodies (ctc_client C)) to_urlencoded request_body)) (\<lambda>b.
      make_request_with_body_url_encoded C send meth p b expected_status)"

definition make_request_no_body ::
  "'w client_test_context \<Rightarrow> ('w, 'e) sender \<Rightarrow> string \<Rightarrow> string \<Rightarrow> status_code
    \<Rightarrow> ('w, ('e, client_response) result) act" where
  "make_request_no_body C send meth p expected_status =
    make_request_with_body C send meth p (body_empty (cl_bodies (ctc_client C))) expected_status"

definition make_request_error ::
  "'w client_test_context \<Rightarrow> ('w, 'e) sender \<Rightarrow> string \<Rightarrow> string \<Rightarrow> status_code \<Rightarrow> ('w, 'e) act" where
  "make_request_error C send meth p expected_status =
    abind (make_request_with_body C send meth p (body_with_content (cl_bodies (ctc_client C)) []) expected_status)
      (\<lambda>r. alift (unwrap_err r))"

definition make_request_error_body ::
  "'w client_test_context \<Rightarrow> ('w, 'e) sender \<Rightarrow> ('r \<Rightarrow> (string, string) result) \<Rightarrow> string \<Rightarrow> string \<Rightarrow> 'r
    \<Rightarrow> status_code \<Rightarrow> ('w, 'e) act" where
  "make_request_error_body C send to_json meth p b expected_status =
    abind (make_request C send to_json meth p (Some b) expected_status) (\<lambda>r. alift (unwrap_err r))"

section \<open>Objects, lists and collections\<close>

definition object_get :: "'w client_test_context \<Rightarrow> (string \<Rightarrow> 't option) \<Rightarrow> string \<Rightarrow> ('w, 't) act" where
  "object_get C from_slice object_url =
    abind (make_request_with_body C (make_request_with_request C) ''GET'' object_url
        (body_with_content (cl_bodies (ctc_client C)) []) 200) (\<lambda>r.
      alift (rbind (unwrap_ok r) (\<lambda>response. map_sum id fst (read_json (ctc_client C) from_slice response))))"

definition objects_list :: "'w client_test_context \<Rightarrow> (string \<Rightarrow> 't option) \<Rightarrow> string \<Rightarrow> ('w, 't list) act" where
  "objects_list C from_str list_url =
    abind (make_request_with_body C (make_request_with_request C) ''GET'' list_url
        (body_with_content (cl_bodies (ctc_client C)) []) 200) (\<lambda>r.
      alift (rbind (unwrap_ok r) (\<lambda>response. map_sum id fst (read_ndjson (ctc_client C) from_str response))))"

definition objects_list_page ::
  "'w client_test_context \<Rightarrow> (string \<Rightarrow> 't results_page option) \<Rightarrow> string \<Rightarrow> ('w, 't results_page) act" where
  "objects_list_page C from_slice list_url =
    abind (make_request_with_body C (make_request_with_request C) ''GET'' list_url
        (body_with_content (cl_bodies (ctc_client C)) []) 200) (\<lambda>r.
      alift (rbind (unwrap_ok r) (\<lambda>response. map_sum id fst (read_json (ctc_client C) from_slice response))))"

definition objects_post ::
  "'w client_test_context \<Rightarrow> ('s \<Rightarrow> (string, string) result) \<Rightarrow> (string \<Rightarrow> 't option) \<Rightarrow> string \<Rightarrow> 's \<Rightarrow> ('w, 't) act" where
  "objects_post C to_json from_slice collection_url input =
    abind (make_request C (make_request_with_request C) to_json ''POST'' collection_url (Some input) 201) (\<lambda>r.
      alift (rbind (unwrap_ok r) (\<lambda>response. map_sum id fst (read_json (ctc_client C) from_slice response))))"

definition object_put ::
  "'w client_test_context \<Rightarrow> ('s \<Rightarrow> (string, string) result) \<Rightarrow> string \<Rightarrow> 's \<Rightarrow> status_code \<Rightarrow> ('w, unit) act" where
  "object_put C to_json object_url input st =
    abind (make_request C (make_request_with_request C) to_json ''PUT'' object_url (Some input) st) (\<lambda>r.
      alift (rbind (unwrap_ok r) (\<lambda>_. Inr ())))"

definition object_delete :: "'w client_test_context \<Rightarrow> string \<Rightarrow> ('w, unit) act" where
  "object_delete C object_url =
    abind (make_request_no_body C (make_request_with_request C) ''DELETE'' object_url 204) (\<lambda>r.
      alift (rbind (unwrap_ok r) (\<lambda>_. Inr ())))"

text \<open>The loop of \<^verbatim>\<open>iter_collection\<close> may not end, when a server keeps returning tokens.\<close>

partial_function (option) iter_pages ::
  "(string \<Rightarrow> ('w, 't results_page) act) \<Rightarrow> (string \<Rightarrow> string) \<Rightarrow> nat \<Rightarrow> 't results_page \<Rightarrow> 't list \<Rightarrow> nat
    \<Rightarrow> 'w \<Rightarrow> (('t list \<times> nat) \<times> 'w) outcome option" where
  "iter_pages fetch next_url mx pg rv npages w =
    (case next_page pg of
       None \<Rightarrow> Some (Inr ((rv, npages), w))
     | Some tok \<Rightarrow>
         (case fetch (next_url tok) w of
            Inl p \<Rightarrow> Some (Inl p)
          | Inr (pg, w) \<Rightarrow>
              if length (items pg) \<le> mx then iter_pages fetch next_url mx pg (rv @ items pg) (npages + 1) w
              else Some (Inl (Panic ''assertion failed: page.items.len() <= limit''))))"

definition iter_collection ::
  "'w client_test_context \<Rightarrow> (string \<Rightarrow> 't results_page option) \<Rightarrow> string \<Rightarrow> string \<Rightarrow> nat
    \<Rightarrow> 'w \<Rightarrow> (('t list \<times> nat) \<times> 'w) outcome option" where
  "iter_collection C from_slice collection_url initial_params mx w =
    (case objects_list_page C from_slice (collection_url @ ''?limit='' @ show_nat mx @ ''&'' @ initial_params) w of
       Inl p \<Rightarrow> Some (Inl p)
     | Inr (pg, w) \<Rightarrow>
         if length (items pg) \<le> mx then
           iter_pages (objects_list_page C from_slice)
             (\<lambda>tok. collection_url @ ''?limit='' @ show_nat mx @ ''&page_token='' @ tok) mx pg (items pg) 1 w
         else Some (Inl (Panic ''assertion failed: page.items.len() <= limit'')))"

section \<open>Lemmas\<close>

lemmas outcome_binds = rbind_Inr_iff abind_Inr_iff alift_Inr_iff areturn_def

lemma map_sum_fst_Inr [simp]: "map_sum id fst r = Inr a \<longleftrightarrow> (\<exists>b. r = Inr (a, b))"
  by (cases r) auto

lemma read_bytes_Inr_iff:
  "read_bytes K r = Inr (bytes, r') \<longleftrightarrow> (\<exists>rest. cl_collect K (cr_body r) = (Inr bytes, rest) \<and> r' = r\<lparr> cr_body := rest \<rparr>)"
  by (auto simp: read_bytes_def split: prod.splits sum.splits)

lemma read_json_Inr_iff:
  "read_json K from_slice r = Inr (t, r') \<longleftrightarrow>
    map_of (cr_headers r) ''content-type'' = Some CONTENT_TYPE_JSON
    \<and> (\<exists>bytes rest. cl_collect K (cr_body r) = (Inr bytes, rest) \<and> from_slice bytes = Some t \<and> r' = r\<lparr> cr_body := rest \<rparr>)"
  by (auto simp: read_json_def rbind_Inr_iff read_bytes_Inr_iff)

text \<open>A header passes when it is one of the allowed names, with an allowed value.\<close>

definition header_allowed :: "(string \<Rightarrow> string option) \<Rightarrow> string \<Rightarrow> string \<Rightarrow> bool" where
  "header_allowed to_str name v \<longleftrightarrow>
    (if name = ''transfer-encoding'' then to_str v = Some ''chunked'' else name \<in> ah_name ` set ALLOWED_HEADERS)"

lemma header_okay_iff: "header_okay to_str ALLOWED_HEADERS name v = Inr True \<longleftrightarrow> header_allowed to_str name v"
  by (simp add: ALLOWED_HEADERS_def header_allowed_def allowed_header_new_def TEST_HEADER_1_def TEST_HEADER_2_def
      rbind_Inr_iff)

lemma check_headers_iff:
  "check_headers to_str hs = Inr () \<longleftrightarrow> (\<forall>(name, v) \<in> set hs. header_allowed to_str name v)"
  by (induction to_str hs rule: check_headers.induct) (auto simp: rbind_Inr_iff header_okay_iff)

text \<open>What a response must be for its checks to pass.\<close>

definition well_dated :: "'w http_client \<Rightarrow> int \<Rightarrow> int \<Rightarrow> (string \<times> string) list \<Rightarrow> bool" where
  "well_dated K before after hs \<longleftrightarrow>
    (\<exists>v s t. map_of hs ''date'' = Some v \<and> cl_to_str K v = Some s \<and> cl_parse_date K s = Some t
      \<and> before \<le> after \<and> before - 1 \<le> t \<and> t \<le> after + 1)"

lemma check_date_iff: "check_date K before after hs = Inr u \<longleftrightarrow> well_dated K before after hs"
  by (auto simp: check_date_def rbind_Inr_iff well_dated_def)

lemma check_response_Inr_iff:
  "check_response K before after st r = Inr (rid, r') \<longleftrightarrow>
    cr_status r = st \<and> (\<forall>(name, v) \<in> set (cr_headers r). header_allowed (cl_to_str K) name v)
    \<and> well_dated K before after (cr_headers r)
    \<and> (\<exists>v. map_of (cr_headers r) HEADER_REQUEST_ID = Some v \<and> cl_to_str K v = Some rid)
    \<and> (if cr_status r = 204 then \<exists>rest. cl_collect K (cr_body r) = (Inr [], rest) \<and> r' = r\<lparr> cr_body := rest \<rparr> else r' = r)"
  by (auto simp: check_response_def rbind_Inr_iff check_headers_iff check_date_iff read_bytes_Inr_iff)

lemma make_request_inner_Inr_iff:
  "make_request_inner K parse_error request st w = Inr (res, w') \<longleftrightarrow>
    (\<exists>r rid r'. cl_request K request w = (Inr r, w') \<and> check_response K (cl_now K w) (cl_now K w') st r = Inr (rid, r')
      \<and> (if \<not> is_client_error (cr_status r') \<and> \<not> is_server_error (cr_status r') then res = Inr r'
         else \<exists>e r''. read_json K parse_error r' = Inr (e, r'') \<and> res = Inl (rid, e)))"
  by (auto simp: make_request_inner_def Let_def rbind_Inr_iff split: prod.splits sum.splits if_splits)

section \<open>The errors of a server\<close>

text \<open>What arrives of a response: its status and body, and its headers with those that the connection adds.\<close>

definition values_of :: "string \<Rightarrow> (string \<times> string) list \<Rightarrow> string list" where
  "values_of n hs = map snd (filter (\<lambda>(m, _). m = n) hs)"

definition received :: "body response \<Rightarrow> client_response \<Rightarrow> bool" where
  "received rsp r \<longleftrightarrow> cr_status r = resp_status rsp \<and> cr_body r = resp_body rsp
    \<and> (\<forall>n. n \<notin> {''date'', ''content-length'', ''transfer-encoding''} \<longrightarrow> values_of n (cr_headers r) = resp_headers rsp n)"

lemma map_of_values: "map_of hs n = (case values_of n hs of [] \<Rightarrow> None | v # _ \<Rightarrow> Some v)"
  by (induction hs) (auto simp: values_of_def)

lemma received_header:
  "received rsp r \<Longrightarrow> n \<notin> {''date'', ''content-length'', ''transfer-encoding''} \<Longrightarrow>
    map_of (cr_headers r) n = hm_get (resp_headers rsp) n"
  by (simp add: received_def map_of_values hm_get_def)

text \<open>What the client relies on: the JSON that the server prints is what the client parses.\<close>

definition json_arrives ::
  "'w http_client \<Rightarrow> (http_error_response_body \<Rightarrow> body) \<Rightarrow> http_error_response_body \<Rightarrow> bool" where
  "json_arrives K to_json b \<longleftrightarrow> (\<exists>s rest. cl_collect K (to_json b) = (Inr s, rest) \<and> cl_parse_error K s = Some b)"

text \<open>C39. An error of a handler arrives: when the response that the server makes of an \<^verbatim>\<open>HttpError\<close> is
  received, with allowed headers and a sound date, the test client returns that error without a panic, with
  the request id, the code and the external message, and the request id in the body is that of the header.\<close>

theorem client_reads_error:
  assumes "error_into_response H to_json rid e = Inr rsp" "error_status_wf (status_code e)"
    and "error_headers e ''content-type'' = []" "error_headers e HEADER_REQUEST_ID = []"
    and "cl_request (ctc_client C) request w = (Inr r, w')" "received rsp r"
    and "\<forall>(name, v) \<in> set (cr_headers r). header_allowed (cl_to_str (ctc_client C)) name v"
    and "well_dated (ctc_client C) (cl_now (ctc_client C) w) (cl_now (ctc_client C) w') (cr_headers r)"
    and "cl_to_str (ctc_client C) rid = Some rid"
    and "json_arrives (ctc_client C) to_json
      \<lparr> body_request_id = rid, body_error_code = error_code e, body_message = external_message e \<rparr>"
  shows "make_request_with_request C request (as_status (status_code e)) w =
    Inr (Inl \<lparr> body_request_id = rid, body_error_code = error_code e, body_message = external_message e \<rparr>, w')"
proof -
  let ?K = "ctc_client C"
  let ?b = "\<lparr> body_request_id = rid, body_error_code = error_code e, body_message = external_message e \<rparr>"
  have rsp: "resp_status rsp = as_status (status_code e)" "resp_body rsp = to_json ?b"
    "resp_headers rsp = hm_append HEADER_REQUEST_ID rid (hm_append ''content-type'' CONTENT_TYPE_JSON (error_headers e))"
    using assms(1) by (auto simp: error_into_response_def rbind_Inr_iff builder_header_def error_headers_def split: if_splits)
  have r: "cr_status r = as_status (status_code e)" "cr_body r = to_json ?b"
    using assms(6) rsp by (simp_all add: received_def)
  have hs: "map_of (cr_headers r) HEADER_REQUEST_ID = Some rid"
    "map_of (cr_headers r) ''content-type'' = Some CONTENT_TYPE_JSON"
    using received_header[OF assms(6), of HEADER_REQUEST_ID] received_header[OF assms(6), of "''content-type''"] assms(3,4)
    by (simp_all add: rsp(3) hm_get_def HEADER_REQUEST_ID_def)
  have "error_status (as_status (status_code e))" using assms(2) by (rule error_status_of_wf)
  then have status: "is_client_error (cr_status r) \<or> is_server_error (cr_status r)" "cr_status r \<noteq> 204"
    unfolding r by (auto simp: error_status_def is_client_error_def is_server_error_def)
  obtain s rest where body: "cl_collect ?K (to_json ?b) = (Inr s, rest)" "cl_parse_error ?K s = Some ?b"
    using assms(10) by (auto simp: json_arrives_def)
  have "check_response ?K (cl_now ?K w) (cl_now ?K w') (as_status (status_code e)) r = Inr (rid, r)"
    unfolding check_response_Inr_iff using r(1) hs(1) status(2) assms(7-9) by simp
  moreover have "read_json ?K (cl_parse_error ?K) r = Inr (?b, r\<lparr> cr_body := rest \<rparr>)"
    unfolding read_json_Inr_iff using r(2) hs(2) body by simp
  ultimately have "make_request_inner ?K (cl_parse_error ?K) request (as_status (status_code e)) w = Inr (Inl (rid, ?b), w')"
    unfolding make_request_inner_Inr_iff using assms(5) status(1) by auto
  then show ?thesis
    by (simp add: make_request_with_request_def abind_def alift_def assert_that_def)
qed

section \<open>Paginated collections\<close>

text \<open>A collection that is sorted by a key, as an endpoint of the server serves it: the first items, or
  those after the selected one, up to the limit.\<close>

definition page_for ::
  "'s::linorder token_codec \<Rightarrow> (nat \<Rightarrow> string) \<Rightarrow> ('i \<Rightarrow> 's) \<Rightarrow> 'i list \<Rightarrow> nat \<Rightarrow> 'p \<Rightarrow> ('p, 's) which_page
    \<Rightarrow> (http_error, 'i results_page) result" where
  "page_for T disp key whole mx sp which =
    results_page_new T disp (take mx (case which of First _ \<Rightarrow> whole | Next s \<Rightarrow> filter (\<lambda>x. s < key x) whole)) sp (\<lambda>x _. key x)"

text \<open>How many pages the client reads: the pages with items, and an empty one that ends the scan.\<close>

definition page_count :: "nat \<Rightarrow> nat \<Rightarrow> nat" where
  "page_count mx n = (n + mx - 1) div mx + 1"

lemma page_count_step: "mx > 0 \<Longrightarrow> n > 0 \<Longrightarrow> page_count mx n = page_count mx (n - min mx n) + 1"
  by (cases "mx \<le> n") (auto simp: page_count_def min_def not_le div_add_self2[symmetric] le_add_diff_inverse2 le_div_geq
      intro!: div_eq_dividend_iff[THEN iffD2])

lemma filter_after:
  assumes "sorted_wrt (\<lambda>x y. key x < (key y :: 's::linorder)) (xs @ y # ys)"
  shows "filter (\<lambda>x. key y < key x) (xs @ y # ys) = ys"
  using assms by (auto simp: sorted_wrt_append filter_empty_conv filter_id_conv dest: less_asym)

text \<open>The loop, from a page that ended before \<open>rest\<close>.\<close>

lemma iter_pages_rest:
  fixes key :: "'i \<Rightarrow> 's::linorder"
  assumes "mx > 0" "sorted_wrt (\<lambda>x y. key x < key y) whole"
    and fetch: "\<And>w x tok pg. x \<in> set whole \<Longrightarrow> serialize_page_token T disp (key x) = Inr tok \<Longrightarrow>
      page_for T disp key whole mx sp (Next (key x)) = Inr pg \<Longrightarrow> \<exists>w'. fetch (next_url tok) w = Inr (pg, w')"
    and tokens: "\<And>x. x \<in> set whole \<Longrightarrow> \<exists>tok. serialize_page_token T disp (key x) = Inr tok"
    and "whole = seen @ x # rest" "serialize_page_token T disp (key x) = Inr tok" "next_page pg = Some tok"
  shows "\<exists>w'. iter_pages fetch next_url mx pg (seen @ [x]) n w = Some (Inr ((whole, n + page_count mx (length rest)), w'))"
  using assms(5-7)
proof (induction "length rest" arbitrary: seen x rest tok pg n w rule: less_induct)
  case less
  have x: "x \<in> set whole" using less(2) by simp
  have after: "filter (\<lambda>y. key x < key y) whole = rest"
    using filter_after[of key seen x rest] assms(2) less(2) by simp
  show ?case
  proof (cases "rest = []")
    case True
    then have page: "page_for T disp key whole mx sp (Next (key x)) = Inr \<lparr> next_page = None, items = [] \<rparr>"
      using after by (simp add: page_for_def results_page_new_def)
    from fetch[OF x less(3) page] obtain w' where "fetch (next_url tok) w = Inr (\<lparr> next_page = None, items = [] \<rparr>, w')" by blast
    then show ?thesis
      using less(2,4) True assms(1) by (simp add: iter_pages.simps[of _ _ _ pg] iter_pages.simps[of _ _ _ "\<lparr> next_page = _, items = _ \<rparr>"]
          page_count_def)
  next
    case False
    define mid where "mid = take mx rest"
    have mid: "mid \<noteq> []" "rest = mid @ drop mx rest" "length mid \<le> mx" using False assms(1) by (auto simp: mid_def)
    have last: "last mid \<in> set whole" using mid(1,2) less(2) last_in_set[of mid] by (metis Un_iff set_append set_subset_Cons subsetD)
    then obtain tok' where tok': "serialize_page_token T disp (key (last mid)) = Inr tok'" using tokens by blast
    let ?pg = "\<lparr> next_page = Some tok', items = mid \<rparr>"
    have page: "page_for T disp key whole mx sp (Next (key x)) = Inr ?pg"
      using after mid(1) tok' by (simp add: page_for_def results_page_new_def mid_def[symmetric])
    from fetch[OF x less(3) page] obtain w' where w': "fetch (next_url tok) w = Inr (?pg, w')" by blast
    have whole: "whole = (seen @ x # butlast mid) @ last mid # drop mx rest"
      using less(2) mid(1,2) by (metis append_Cons append_assoc append_butlast_last_id append_Nil)
    have "length (drop mx rest) < length rest" using False assms(1) by simp
    from less(1)[OF this whole tok', of ?pg "n + 1" w'] obtain w'' where
      "iter_pages fetch next_url mx ?pg ((seen @ x # butlast mid) @ [last mid]) (n + 1) w' =
        Some (Inr ((whole, n + 1 + page_count mx (length (drop mx rest))), w''))" by auto
    moreover have "(seen @ x # butlast mid) @ [last mid] = (seen @ [x]) @ mid" using mid(1) by simp
    moreover have "page_count mx (length rest) = page_count mx (length (drop mx rest)) + 1"
      using page_count_step[OF assms(1), of "length rest"] False by (simp add: min_def)
    ultimately show ?thesis
      using less(4) w' mid(3) by (simp add: iter_pages.simps[of _ _ _ pg])
  qed
qed

text \<open>What a client assumes of the endpoint: the answer to a query is the page that the query asks for, in
  JSON, and in a response that passes the checks.  \<open>parse\<close> reads a query string, \<open>de\<close> the scan parameters.\<close>

definition answers_page ::
  "'w http_client \<Rightarrow> (string \<Rightarrow> 't option) \<Rightarrow> client_request \<Rightarrow> 'w \<Rightarrow> 't \<Rightarrow> 'w \<Rightarrow> bool" where
  "answers_page K from_slice request w pg w' \<longleftrightarrow>
    (\<exists>r rid r'. cl_request K request w = (Inr r, w') \<and> check_response K (cl_now K w) (cl_now K w') 200 r = Inr (rid, r)
      \<and> read_json K from_slice r = Inr (pg, r'))"

definition list_request :: "'w client_test_context \<Rightarrow> string \<Rightarrow> client_request" where
  "list_request C p =
    \<lparr> tq_method = ''GET'', tq_uri = \<lparr> uri_scheme = ''http'', uri_authority = ctc_bind_address C, uri_path_and_query = p \<rparr>,
      tq_headers = [], tq_body = body_with_content (cl_bodies (ctc_client C)) [] \<rparr>"

definition collection_served ::
  "'w client_test_context \<Rightarrow> (string \<Rightarrow> 'i results_page option) \<Rightarrow> 's::linorder token_codec \<Rightarrow> (nat \<Rightarrow> string)
    \<Rightarrow> (string map_deserializer \<Rightarrow> (map_error, 'p) result) \<Rightarrow> (string \<Rightarrow> (string, string) btree_map)
    \<Rightarrow> ('i \<Rightarrow> 's) \<Rightarrow> 'i list \<Rightarrow> nat \<Rightarrow> 'p \<Rightarrow> string \<Rightarrow> bool" where
  "collection_served C from_slice T disp de parse key whole mx sp url \<longleftrightarrow>
    (\<forall>w q which pg. deserialize_whichpage T de (parse (''limit='' @ show_nat mx @ ''&'' @ q)) = Inr which \<longrightarrow>
      page_for T disp key whole mx sp which = Inr pg \<longrightarrow>
      cl_path_ok (ctc_client C) (url @ ''?limit='' @ show_nat mx @ ''&'' @ q)
      \<and> (\<exists>w'. answers_page (ctc_client C) from_slice (list_request C (url @ ''?limit='' @ show_nat mx @ ''&'' @ q)) w pg w'))"

lemma objects_list_page_run:
  assumes "cl_authority_ok (ctc_client C) (ctc_bind_address C)" "cl_path_ok (ctc_client C) p"
    and "answers_page (ctc_client C) from_slice (list_request C p) w pg w'"
  shows "objects_list_page C from_slice p w = Inr (pg, w')"
proof -
  obtain r rid r' where r: "cl_request (ctc_client C) (list_request C p) w = (Inr r, w')"
      "check_response (ctc_client C) (cl_now (ctc_client C) w) (cl_now (ctc_client C) w') 200 r = Inr (rid, r)"
      "read_json (ctc_client C) from_slice r = Inr (pg, r')"
    using assms(3) by (auto simp: answers_page_def)
  then have "cr_status r = 200" by (simp add: check_response_Inr_iff)
  then have "make_request_inner (ctc_client C) (cl_parse_error (ctc_client C)) (list_request C p) 200 w = Inr (Inr r, w')"
    unfolding make_request_inner_Inr_iff using r(1,2) by (auto simp: is_client_error_def is_server_error_def)
  then show ?thesis
    using assms(1,2) r(3)
    by (simp add: objects_list_page_def make_request_with_body_def client_url_def make_request_with_request_def
        list_request_def act_simps abind_def alift_def unwrap_ok_def)
qed

text \<open>C36. A paginated collection is read completely: against an endpoint that serves the pages of a sorted
  collection, built by \<^verbatim>\<open>ResultsPage::new\<close> and chosen by the tokens that it handed out, \<^verbatim>\<open>iter_collection\<close> ends
  and returns every item once and in order, after one page per \<open>mx\<close> items and a last empty one.\<close>

theorem iter_collection_complete:
  fixes key :: "'i \<Rightarrow> 's::linorder"
  assumes "codec_faithful T" "mx > 0" "sorted_wrt (\<lambda>x y. key x < key y) whole"
    and "cl_authority_ok (ctc_client C) (ctc_bind_address C)"
    and "collection_served C from_slice T disp de parse key whole mx sp url"
    and "deserialize_whichpage T de (parse (''limit='' @ show_nat mx @ ''&'' @ initial_params)) = Inr (First sp)"
    and "\<forall>x \<in> set whole. \<exists>tok. serialize_page_token T disp (key x) = Inr tok
      \<and> map_of (parse (''limit='' @ show_nat mx @ ''&page_token='' @ tok)) ''page_token'' = Some tok"
  shows "\<exists>w'. iter_collection C from_slice url initial_params mx w =
    Some (Inr ((whole, (length whole + mx - 1) div mx + 1), w'))"
proof -
  let ?next = "\<lambda>tok. url @ ''?limit='' @ show_nat mx @ ''&page_token='' @ tok"
  have served: "\<exists>w'. objects_list_page C from_slice (url @ ''?limit='' @ show_nat mx @ ''&'' @ q) w = Inr (pg, w')"
    if "deserialize_whichpage T de (parse (''limit='' @ show_nat mx @ ''&'' @ q)) = Inr which"
      "page_for T disp key whole mx sp which = Inr pg" for q which pg w
    using assms(5) that objects_list_page_run[OF assms(4)] unfolding collection_served_def by blast
  have tokens: "\<exists>tok. serialize_page_token T disp (key x) = Inr tok" if "x \<in> set whole" for x
    using assms(7) that by blast
  have step: "\<exists>w'. objects_list_page C from_slice (?next tok) w = Inr (pg, w')"
    if x: "x \<in> set whole" "serialize_page_token T disp (key x) = Inr tok" "page_for T disp key whole mx sp (Next (key x)) = Inr pg"
    for w x tok pg
  proof -
    have "map_of (parse (''limit='' @ show_nat mx @ ''&'' @ ''page_token='' @ tok)) ''page_token'' = Some tok"
      using assms(7) x(1,2) by fastforce
    then have "deserialize_whichpage T de (parse (''limit='' @ show_nat mx @ ''&'' @ ''page_token='' @ tok)) = Inr (Next (key x))"
      using deserialize_serialized[OF assms(1) x(2)] by (simp add: deserialize_whichpage_def)
    from served[OF this x(3)] show ?thesis by simp
  qed
  show ?thesis
  proof (cases "whole = []")
    case True
    then have "page_for T disp key whole mx sp (First sp) = Inr \<lparr> next_page = None, items = [] \<rparr>"
      by (simp add: page_for_def results_page_new_def)
    from served[OF assms(6) this, of w] show ?thesis
      using True assms(2) by (auto simp: iter_collection_def iter_pages.simps)
  next
    case False
    define mid where "mid = take mx whole"
    have mid: "mid \<noteq> []" "whole = mid @ drop mx whole" "length mid \<le> mx" using False assms(2) by (auto simp: mid_def)
    then have "last mid \<in> set whole" by (metis Un_iff last_in_set set_append)
    then obtain tok where tok: "serialize_page_token T disp (key (last mid)) = Inr tok" using tokens by blast
    let ?pg = "\<lparr> next_page = Some tok, items = mid \<rparr>"
    have "page_for T disp key whole mx sp (First sp) = Inr ?pg"
      using mid(1) tok by (simp add: page_for_def results_page_new_def mid_def[symmetric])
    from served[OF assms(6) this, of w] obtain w' where
      first: "objects_list_page C from_slice (url @ ''?limit='' @ show_nat mx @ ''&'' @ initial_params) w = Inr (?pg, w')" by blast
    have split: "whole = butlast mid @ last mid # drop mx whole"
      using mid(1,2) by (metis append_Cons append_assoc append_Nil append_butlast_last_id)
    have "\<exists>w''. iter_pages (objects_list_page C from_slice) ?next mx ?pg (butlast mid @ [last mid]) 1 w' =
        Some (Inr ((whole, 1 + page_count mx (length (drop mx whole))), w''))"
    proof (rule iter_pages_rest[where key = key and T = T and disp = disp and sp = sp, OF assms(2,3)])
      show "\<exists>w'. objects_list_page C from_slice (?next tok) w = Inr (pg, w')"
        if "x \<in> set whole" "serialize_page_token T disp (key x) = Inr tok"
          "page_for T disp key whole mx sp (Next (key x)) = Inr pg" for w x tok pg
        using that by (rule step)
      show "\<exists>tok. serialize_page_token T disp (key x) = Inr tok" if "x \<in> set whole" for x
        using that by (rule tokens)
    qed (use split tok in simp_all)
    then obtain w'' where "iter_pages (objects_list_page C from_slice) ?next mx ?pg mid 1 w' =
        Some (Inr ((whole, 1 + page_count mx (length (drop mx whole))), w''))"
      using mid(1) by auto
    moreover have "1 + page_count mx (length (drop mx whole)) = (length whole + mx - 1) div mx + 1"
      using page_count_step[OF assms(2), of "length whole"] False by (simp add: min_def page_count_def)
    ultimately show ?thesis using first mid(3) by (simp add: iter_collection_def)
  qed
qed

section \<open>A server of letters\<close>

text \<open>A collection of three letters, and a server that serves it two at a time; its JSON is a text of its own.\<close>

definition letters_parse :: "string \<Rightarrow> (string, string) btree_map" where
  "letters_parse q =
    (let p = drop 8 q in if take 11 p = ''page_token='' then [(''page_token'', drop 11 p)] else [])"

definition letters_print :: "char results_page \<Rightarrow> string" where
  "letters_print pg = (case next_page pg of None \<Rightarrow> CHR ''N'' # items pg | Some tok \<Rightarrow> CHR ''S'' # tok @ items pg)"

definition letters_read :: "string \<Rightarrow> char results_page option" where
  "letters_read s =
    (if s = [] then None
     else if hd s = CHR ''N'' then Some \<lparr> next_page = None, items = tl s \<rparr>
     else Some \<lparr> next_page = Some (take 2 (tl s)), items = drop 2 (tl s) \<rparr>)"

definition letters_page :: "string \<Rightarrow> (http_error, char results_page) result" where
  "letters_page q =
    (case deserialize_whichpage sample_codec (\<lambda>_. Inr ()) (letters_parse q) of
       Inl e \<Rightarrow> Inl (for_bad_request None e)
     | Inr which \<Rightarrow> page_for sample_codec show_nat id ''abc'' 2 () which)"

definition plain_body :: "string \<Rightarrow> body" where
  "plain_body s = [FrameReady (FrData s)]"

definition letters_headers :: "(string \<times> string) list" where
  "letters_headers =
    [(''content-type'', ''application/json''), (''date'', ''now''), (''x-request-id'', ''r1'')]"

definition letters_client :: "unit http_client" where
  "letters_client = \<lparr>
    cl_request = (\<lambda>request w. (Inr (case letters_page (drop 9 (uri_path_and_query (tq_uri request))) of
        Inr pg \<Rightarrow> \<lparr> cr_status = 200, cr_headers = letters_headers, cr_body = plain_body (letters_print pg) \<rparr>
      | Inl e \<Rightarrow> \<lparr> cr_status = 400, cr_headers = letters_headers, cr_body = plain_body (external_message e) \<rparr>), w)),
    cl_now = (\<lambda>_. 0), cl_authority_ok = (\<lambda>_. True), cl_path_ok = (\<lambda>_. True), cl_to_str = Some,
    cl_parse_date = (\<lambda>_. Some 0),
    cl_collect = (\<lambda>b. (Inr (case b of FrameReady (FrData s) # _ \<Rightarrow> s | _ \<Rightarrow> []), [])),
    cl_from_utf8 = Some, cl_parse_error = (\<lambda>s. Some \<lparr> body_request_id = ''r1'', body_error_code = None, body_message = s \<rparr>),
    cl_bodies = \<lparr> bl_empty = [], bl_full = plain_body \<rparr> \<rparr>"

lemma letters_token: "serialize_page_token sample_codec show_nat c = Inr [c, CHR ''='']"
  by (simp add: serialize_page_token_def sample_codec_def MAX_TOKEN_LENGTH_def)

lemma letters_printed:
  "page_for sample_codec show_nat id whole mx () which = Inr pg \<Longrightarrow> letters_read (letters_print pg) = Some pg"
  by (auto simp: page_for_def results_page_new_def letters_token letters_print_def letters_read_def split: if_splits)

lemma letters_checked:
  "check_response letters_client 0 0 200 \<lparr> cr_status = 200, cr_headers = letters_headers, cr_body = b \<rparr>
    = Inr (''r1'', \<lparr> cr_status = 200, cr_headers = letters_headers, cr_body = b \<rparr>)"
  unfolding check_response_Inr_iff
  by (simp add: letters_headers_def letters_client_def header_allowed_def ALLOWED_HEADERS_def allowed_header_new_def
      well_dated_def HEADER_REQUEST_ID_def)

lemma letters_served:
  "collection_served (client_test_context_new ''host'' letters_client) letters_read sample_codec show_nat (\<lambda>_. Inr ())
    letters_parse id ''abc'' 2 () ''/letters''"
proof -
  let ?C = "client_test_context_new ''host'' letters_client"
  have "\<exists>w'. answers_page letters_client letters_read (list_request ?C (''/letters?limit=2&'' @ q)) w pg w'"
    if q: "deserialize_whichpage sample_codec (\<lambda>_. Inr ()) (letters_parse (''limit=2&'' @ q)) = Inr which"
      "page_for sample_codec show_nat id ''abc'' 2 () which = Inr pg" for w q which pg
  proof -
    let ?r = "\<lparr> cr_status = 200, cr_headers = letters_headers, cr_body = plain_body (letters_print pg) \<rparr>"
    have "letters_page (''limit=2&'' @ q) = Inr pg" using q by (simp add: letters_page_def)
    then have "cl_request letters_client (list_request ?C (''/letters?limit=2&'' @ q)) w = (Inr ?r, w)"
      by (simp add: letters_client_def list_request_def)
    moreover have "read_json letters_client letters_read ?r = Inr (pg, ?r\<lparr> cr_body := [] \<rparr>)"
      unfolding read_json_Inr_iff
      using letters_printed[OF q(2)] by (simp add: letters_client_def letters_headers_def plain_body_def CONTENT_TYPE_JSON_def)
    moreover have "cl_now letters_client w = 0" by (simp add: letters_client_def)
    ultimately show ?thesis unfolding answers_page_def using letters_checked by auto
  qed
  moreover have "show_nat 2 = ''2''" by code_simp
  ultimately show ?thesis
    unfolding collection_served_def by (auto simp: client_test_context_new_def letters_client_def)
qed

theorem iter_collection_complete_witness:
  "\<exists>w'. iter_collection (client_test_context_new ''host'' letters_client) letters_read ''/letters'' ''sort=up'' 2 () =
    Some (Inr ((''abc'', 3), w'))"
proof -
  let ?C = "client_test_context_new ''host'' letters_client"
  have two: "show_nat 2 = ''2''" by code_simp
  have "sorted_wrt (\<lambda>x y. id x < id y) ''abc''" by code_simp
  moreover have "cl_authority_ok (ctc_client ?C) (ctc_bind_address ?C)"
    by (simp add: client_test_context_new_def letters_client_def)
  moreover have "deserialize_whichpage sample_codec (\<lambda>_. Inr ()) (letters_parse (''limit='' @ show_nat 2 @ ''&'' @ ''sort=up'')) = Inr (First ())"
    unfolding two by (simp add: deserialize_whichpage_def letters_parse_def from_map_def)
  moreover have "\<forall>x \<in> set ''abc''. \<exists>tok. serialize_page_token sample_codec show_nat (id x) = Inr tok
      \<and> map_of (letters_parse (''limit='' @ show_nat 2 @ ''&page_token='' @ tok)) ''page_token'' = Some tok"
    unfolding two by (simp add: letters_token letters_parse_def)
  ultimately show ?thesis
    using iter_collection_complete[OF sample_codec_faithful _ _ _ letters_served, of "''sort=up''" "()"] by simp
qed

theorem client_reads_error_witness:
  "make_request_with_request (client_test_context_new ''host'' letters_client)
      \<lparr> tq_method = ''GET'', tq_uri = \<lparr> uri_scheme = ''http'', uri_authority = ''host'',
          uri_path_and_query = ''/letters?limit=2&page_token='' \<rparr>, tq_headers = [], tq_body = [] \<rparr> 400 ()
    = Inr (Inl \<lparr> body_request_id = ''r1'', body_error_code = None,
        body_message = ''failed to parse pagination token: empty'' \<rparr>, ())"
proof -
  let ?C = "client_test_context_new ''host'' letters_client"
  let ?request = "\<lparr> tq_method = ''GET'', tq_uri = \<lparr> uri_scheme = ''http'', uri_authority = ''host'',
          uri_path_and_query = ''/letters?limit=2&page_token='' \<rparr>, tq_headers = [], tq_body = [] \<rparr>"
  let ?e = "for_bad_request None ''failed to parse pagination token: empty''"
  let ?H = "\<lparr>parse_header_name = Some, header_value_ok = (\<lambda>_. True), headers_full = (\<lambda>_. False)\<rparr>"
  let ?r = "\<lparr> cr_status = 400, cr_headers = letters_headers, cr_body = plain_body ''failed to parse pagination token: empty'' \<rparr>"
  let ?rsp = "\<lparr> resp_status = 400, resp_headers = hm_append HEADER_REQUEST_ID ''r1''
      (hm_append ''content-type'' CONTENT_TYPE_JSON (error_headers ?e)), resp_body = plain_body (external_message ?e) \<rparr>"
  have rsp: "error_into_response ?H (\<lambda>b. plain_body (body_message b)) ''r1'' ?e = Inr ?rsp"
    by (simp add: error_into_response_def builder_header_def error_headers_def)
  have status: "as_status (status_code ?e) = 400" by simp
  have headers: "error_headers ?e n = []" for n by (simp add: error_headers_def)
  have "letters_page ''limit=2&page_token='' = Inl ?e"
    by (simp add: letters_page_def letters_parse_def deserialize_whichpage_def deserialize_page_token_def sample_codec_def
        MAX_TOKEN_LENGTH_def)
  then have answered: "cl_request (ctc_client ?C) ?request () = (Inr ?r, ())"
    by (simp add: letters_client_def client_test_context_new_def)
  have received: "received ?rsp ?r"
    by (auto simp: received_def headers values_of_def letters_headers_def HEADER_REQUEST_ID_def CONTENT_TYPE_JSON_def)
  have allowed: "\<forall>(name, v) \<in> set (cr_headers ?r). header_allowed (cl_to_str (ctc_client ?C)) name v"
    by (simp add: letters_headers_def header_allowed_def ALLOWED_HEADERS_def allowed_header_new_def)
  have dated: "well_dated (ctc_client ?C) (cl_now (ctc_client ?C) ()) (cl_now (ctc_client ?C) ()) (cr_headers ?r)"
    by (simp add: well_dated_def letters_headers_def letters_client_def client_test_context_new_def)
  have id: "cl_to_str (ctc_client ?C) ''r1'' = Some ''r1''"
    by (simp add: letters_client_def client_test_context_new_def)
  have json: "json_arrives (ctc_client ?C) (\<lambda>b. plain_body (body_message b))
      \<lparr> body_request_id = ''r1'', body_error_code = error_code ?e, body_message = external_message ?e \<rparr>"
    by (simp add: json_arrives_def letters_client_def client_test_context_new_def plain_body_def)
  have wf: "error_status_wf (status_code ?e)" by (simp add: error_status_wf_def)
  show ?thesis
    using client_reads_error[OF rsp wf headers headers answered received allowed dated id json] status by simp
qed

end
