(* ===== verification/Logging.thy ===== *)
theory Logging
  imports Config
begin

text \<open>
  The configuration of the logger and its root logger (\<^verbatim>\<open>logging.rs\<close>).  The file system is a map from
  paths to contents with the errors that the operating system may raise; opening a file is what
  \<^verbatim>\<open>std::fs::OpenOptions\<close> documents.  How \<^verbatim>\<open>slog\<close> prints a record is a parameter; the queue of
  \<^verbatim>\<open>slog_async\<close> is left out: a record is given to the drains when its turn has come.
\<close>

section \<open>Logging configuration\<close>

datatype config_logging_level = LTrace | LDebug | LInfo | LWarn | LError | LCritical

datatype slog_level = SCritical | SError | SWarning | SInfo | SDebug | STrace

fun slog_level_of :: "config_logging_level \<Rightarrow> slog_level" where
  "slog_level_of LTrace = STrace"
| "slog_level_of LDebug = SDebug"
| "slog_level_of LInfo = SInfo"
| "slog_level_of LWarn = SWarning"
| "slog_level_of LError = SError"
| "slog_level_of LCritical = SCritical"

datatype config_logging_if_exists = IfExistsFail | IfExistsTruncate | IfExistsAppend

datatype config_logging =
    StderrTerminal config_logging_level
  | LogFile config_logging_level string config_logging_if_exists

text \<open>The options with which the log file is opened.\<close>

record open_options =
  oo_write :: bool
  oo_create :: bool
  oo_create_new :: bool
  oo_append :: bool
  oo_truncate :: bool

definition log_open_options :: "config_logging_if_exists \<Rightarrow> open_options" where
  "log_open_options if_exists =
    (let opts = \<lparr> oo_write = True, oo_create = True, oo_create_new = False, oo_append = False,
                  oo_truncate = False \<rparr>
     in (case if_exists of
           IfExistsFail \<Rightarrow> opts\<lparr> oo_create_new := True \<rparr>
         | IfExistsAppend \<Rightarrow> opts\<lparr> oo_append := True \<rparr>
         | IfExistsTruncate \<Rightarrow> opts\<lparr> oo_truncate := True \<rparr>))"

text \<open>Files, and the errors of creating a directory and of opening a file.\<close>

datatype io_error = AlreadyExists | NotFound | InvalidInput | OsError string

record file_system =
  fs_files :: "string \<rightharpoonup> string"
  fs_dirs :: "string set"
  fs_dir_error :: "string \<Rightarrow> string option"
  fs_open_error :: "string \<Rightarrow> string option"

text \<open>\<^verbatim>\<open>OpenOptions::open\<close>: a new file is required, or an existing one is kept or emptied, or created.\<close>

definition open_file_at :: "open_options \<Rightarrow> string \<Rightarrow> file_system \<Rightarrow> (io_error, file_system) result" where
  "open_file_at opts p fs =
    (case fs_open_error fs p of
       Some e \<Rightarrow> Inl (OsError e)
     | None \<Rightarrow>
         if \<not> oo_write opts \<and> \<not> oo_append opts \<or> oo_append opts \<and> oo_truncate opts \<and> \<not> oo_create_new opts then Inl InvalidInput
         else
           (case fs_files fs p of
              None \<Rightarrow>
                if oo_create_new opts \<or> oo_create opts then Inr (fs\<lparr> fs_files := (fs_files fs)(p \<mapsto> []) \<rparr>) else Inl NotFound
            | Some content \<Rightarrow>
                if oo_create_new opts then Inl AlreadyExists
                else if oo_truncate opts then Inr (fs\<lparr> fs_files := (fs_files fs)(p \<mapsto> []) \<rparr>)
                else Inr fs))"

definition create_dir_all :: "string \<Rightarrow> file_system \<Rightarrow> (io_error, file_system) result" where
  "create_dir_all p fs =
    (case fs_dir_error fs p of
       Some e \<Rightarrow> Inl (OsError e)
     | None \<Rightarrow> Inr (fs\<lparr> fs_dirs := insert p (fs_dirs fs) \<rparr>))"

text \<open>Drains and loggers.  A record has a level and a message.\<close>

datatype log_drain = TerminalDrain | FileDrain string string

record logger =
  lg_level :: slog_level
  lg_drain :: log_drain

record log_record =
  rec_level :: slog_level
  rec_msg :: string

definition log_drain_for_file ::
  "(string \<Rightarrow> string option) \<Rightarrow> open_options \<Rightarrow> string \<Rightarrow> string \<Rightarrow> file_system
    \<Rightarrow> (io_error, log_drain) result \<times> file_system" where
  "log_drain_for_file path_parent opts p log_name fs =
    (case (case path_parent p of None \<Rightarrow> Inr fs | Some d \<Rightarrow> create_dir_all d fs) of
       Inl e \<Rightarrow> (Inl e, fs)
     | Inr fs \<Rightarrow>
         (case open_file_at opts p fs of
            Inl e \<Rightarrow> (Inl e, fs)
          | Inr fs \<Rightarrow> (Inr (FileDrain p log_name), fs)))"

definition async_root_logger :: "config_logging_level \<Rightarrow> log_drain \<Rightarrow> logger" where
  "async_root_logger level drain = \<lparr> lg_level = slog_level_of level, lg_drain = drain \<rparr>"

text \<open>The severity of a level, as \<^verbatim>\<open>Level::as_usize\<close> numbers them; a filter lets pass what is at least
  as severe as its own.\<close>

fun severity :: "slog_level \<Rightarrow> nat" where
  "severity SCritical = 1"
| "severity SError = 2"
| "severity SWarning = 3"
| "severity SInfo = 4"
| "severity SDebug = 5"
| "severity STrace = 6"

definition passes_filter :: "logger \<Rightarrow> log_record \<Rightarrow> bool" where
  "passes_filter l r \<longleftrightarrow> severity (rec_level r) \<le> severity (lg_level l)"

text \<open>A record that reaches a file is appended to it; the standard error stream is not a file.\<close>

definition log_record_to :: "(string \<Rightarrow> log_record \<Rightarrow> string) \<Rightarrow> logger \<Rightarrow> log_record \<Rightarrow> file_system \<Rightarrow> file_system" where
  "log_record_to bunyan l r fs =
    (if \<not> passes_filter l r then fs
     else
       (case lg_drain l of
          TerminalDrain \<Rightarrow> fs
        | FileDrain p name \<Rightarrow>
            fs\<lparr> fs_files := (fs_files fs)(p \<mapsto>
              (case fs_files fs p of None \<Rightarrow> [] | Some c \<Rightarrow> c) @ bunyan name r) \<rparr>))"

text \<open>\<^verbatim>\<open>to_logger\<close>, with the records that it logs itself: a warning when the note on the standard
  error stream cannot be written, which is what \<open>stderr_error\<close> says.\<close>

definition to_logger ::
  "(string \<Rightarrow> string option) \<Rightarrow> string option \<Rightarrow> config_logging \<Rightarrow> string \<Rightarrow> file_system
    \<Rightarrow> (io_error, logger \<times> log_record list) result \<times> file_system" where
  "to_logger path_parent stderr_error c log_name fs =
    (case c of
       StderrTerminal level \<Rightarrow> (Inr (async_root_logger level TerminalDrain, []), fs)
     | LogFile level p if_exists \<Rightarrow>
         (let (drain, fs) = log_drain_for_file path_parent (log_open_options if_exists) p log_name fs
          in (rbind drain (\<lambda>drain.
                Inr (async_root_logger level drain,
                  case stderr_error of
                    None \<Rightarrow> []
                  | Some _ \<Rightarrow> [\<lparr> rec_level = SWarning, rec_msg = ''failed to report log path on stderr'' \<rparr>])), fs)))"

section \<open>Logging to a file\<close>

lemma log_records_file:
  assumes "lg_drain l = FileDrain p name" "fs_files fs p = Some c"
  shows "fs_files (fold (log_record_to bunyan l) rs fs) p =
    Some (c @ concat (map (bunyan name) (filter (passes_filter l) rs)))"
  using assms(2)
proof (induction rs arbitrary: fs c)
  case (Cons r rs)
  show ?case
  proof (cases "passes_filter l r")
    case True
    then have "fs_files (log_record_to bunyan l r fs) p = Some (c @ bunyan name r)"
      using assms(1) Cons(2) by (simp add: log_record_to_def)
    from Cons(1)[OF this] True show ?thesis by simp
  next
    case False
    then show ?thesis using Cons by (simp add: log_record_to_def)
  qed
qed simp

lemma log_drain_for_file_opens:
  "fst (log_drain_for_file path_parent (log_open_options x) p name fs) = Inr d \<longleftrightarrow>
    d = FileDrain p name \<and> (\<forall>dir. path_parent p = Some dir \<longrightarrow> fs_dir_error fs dir = None)
    \<and> fs_open_error fs p = None \<and> (x = IfExistsFail \<longrightarrow> fs_files fs p = None)"
  by (cases x) (auto simp: log_drain_for_file_def create_dir_all_def open_file_at_def log_open_options_def split: option.splits)

text \<open>What the file holds once it is open, and after an error.\<close>

lemma log_drain_for_file_content:
  "fs_files (snd (log_drain_for_file path_parent (log_open_options x) p name fs)) =
    (if is_ok (fst (log_drain_for_file path_parent (log_open_options x) p name fs)) then
       (fs_files fs)(p \<mapsto> (case fs_files fs p of Some c \<Rightarrow> if x = IfExistsAppend then c else [] | None \<Rightarrow> []))
     else fs_files fs)"
  by (cases x) (auto simp: log_drain_for_file_def create_dir_all_def open_file_at_def log_open_options_def split: option.splits)

text \<open>A log file: it is opened exactly when the operating system lets it be and, if it must not exist,
  it does not; no existing log is lost unless it is to be truncated, an error changes no
  file, and then the file grows by the records that are severe enough, in order.\<close>

theorem log_file_written:
  "case to_logger path_parent stderr_error (LogFile level p x) name fs of
      (Inl e, fs') \<Rightarrow> fs_files fs' = fs_files fs
        \<and> ((\<exists>dir. path_parent p = Some dir \<and> fs_dir_error fs dir \<noteq> None) \<or> fs_open_error fs p \<noteq> None
          \<or> x = IfExistsFail \<and> fs_files fs p \<noteq> None)
    | (Inr (l, own), fs') \<Rightarrow>
        fs_files (fold (log_record_to bunyan l) (own @ rs) fs') p =
          Some ((case fs_files fs p of Some c \<Rightarrow> if x = IfExistsAppend then c else [] | None \<Rightarrow> [])
            @ concat (map (bunyan name) (filter (\<lambda>r. severity (rec_level r) \<le> severity (slog_level_of level)) (own @ rs))))"
proof -
  let ?run = "log_drain_for_file path_parent (log_open_options x) p name fs"
  obtain r fs' where run: "?run = (r, fs')" by fastforce
  show ?thesis
  proof (cases r)
    case (Inl e)
    have "\<nexists>d. fst ?run = Inr d" using run Inl by simp
    then show ?thesis
      using run Inl log_drain_for_file_content[of path_parent x p name fs]
        log_drain_for_file_opens[of path_parent x p name fs "FileDrain p name"]
      by (auto simp: to_logger_def)
  next
    case (Inr d)
    then have d: "d = FileDrain p name" using log_drain_for_file_opens[of path_parent x p name fs d] run by simp
    let ?l = "async_root_logger level (FileDrain p name)"
    have filtered: "passes_filter ?l = (\<lambda>r. severity (rec_level r) \<le> severity (slog_level_of level))"
      by (simp add: passes_filter_def async_root_logger_def fun_eq_iff)
    have drain: "lg_drain ?l = FileDrain p name" by (simp add: async_root_logger_def)
    have opened: "fs_files fs' p = Some (case fs_files fs p of Some c \<Rightarrow> if x = IfExistsAppend then c else [] | None \<Rightarrow> [])"
      using log_drain_for_file_content[of path_parent x p name fs] run Inr by simp
    note written = log_records_file[OF drain opened, of bunyan, unfolded filtered]
    show ?thesis
      using run Inr d by (simp add: to_logger_def written del: fold_append filter_append map_append concat_append)
  qed
qed

end
