(* ===== verification/Test_Logs.thy ===== *)
theory Test_Logs
  imports Test_Client Logging Server_Lifecycle
begin

text \<open>
  The logs and servers of test suites (\<^verbatim>\<open>test_util.rs\<close>): the unique log file of a test, contexts that set up
  a logger or a server and clean up after it, and the checks of the records of a Bunyan log.  The state is the
  file system and the counter of the process.
\<close>

section \<open>The log file of a test\<close>

record test_process =
  tp_files :: file_system
  tp_logger_id :: "32 word"

record test_env =
  te_args :: "string list"
  te_file_name :: "string \<Rightarrow> string option"
  te_temp_dir :: "string option"
  te_pid :: "32 word"
  te_path_parent :: "string \<Rightarrow> string option"
  te_stderr_error :: "string option"
  te_remove_error :: "string \<Rightarrow> string option"

text \<open>\<^verbatim>\<open>fetch_add\<close> wraps around.\<close>

definition log_prefix_for_test ::
  "test_env \<Rightarrow> string \<Rightarrow> test_process \<Rightarrow> ((string \<times> string) \<times> test_process) outcome" where
  "log_prefix_for_test V test_name p =
    rbind (expect ''called `Option::unwrap()` on a `None` value'' (case te_args V of [] \<Rightarrow> None | a # _ \<Rightarrow> Some a)) (\<lambda>arg0path.
    rbind (expect ''called `Option::unwrap()` on a `None` value'' (te_file_name V arg0path)) (\<lambda>arg0.
    rbind (expect ''temp dir is valid UTF-8'' (te_temp_dir V)) (\<lambda>dir.
    Inr ((dir, arg0 @ ''-'' @ test_name @ ''.'' @ show_nat (unat (te_pid V)) @ ''.'' @ show_nat (unat (tp_logger_id p))),
         p\<lparr> tp_logger_id := tp_logger_id p + 1 \<rparr>))))"

text \<open>\<^verbatim>\<open>PathBuf::push\<close> on Unix.\<close>

definition path_push :: "string \<Rightarrow> string \<Rightarrow> string" where
  "path_push dir p =
    (if starts_with ''/'' p then p
     else if dir = [] \<or> last dir = CHR ''/'' then dir @ p
     else dir @ ''/'' @ p)"

definition log_file_for_test :: "test_env \<Rightarrow> string \<Rightarrow> test_process \<Rightarrow> (string \<times> test_process) outcome" where
  "log_file_for_test V test_name p =
    rbind (log_prefix_for_test V test_name p) (\<lambda>((dir, prefix), p). Inr (path_push dir (prefix @ ''.log''), p))"

section \<open>LogContext\<close>

record log_context =
  lgc_log :: logger
  lgc_test_name :: string
  lgc_log_path :: "string option"

text \<open>With the context come the records that \<^verbatim>\<open>to_logger\<close> logs itself.\<close>

definition test_log_config ::
  "test_env \<Rightarrow> string \<Rightarrow> config_logging \<Rightarrow> test_process \<Rightarrow> ((string option \<times> config_logging) \<times> test_process) outcome" where
  "test_log_config V test_name initial_config_logging p =
    (case initial_config_logging of
       LogFile level dummy_path if_exists \<Rightarrow>
         rbind (assert_that (dummy_path = ''UNUSED'')) (\<lambda>_.
         rbind (log_file_for_test V test_name p) (\<lambda>(new_path, p).
         Inr ((Some new_path, LogFile level new_path if_exists), p)))
     | other_config \<Rightarrow> Inr ((None, other_config), p))"

definition log_context_new ::
  "test_env \<Rightarrow> string \<Rightarrow> config_logging \<Rightarrow> test_process \<Rightarrow> ((log_context \<times> log_record list) \<times> test_process) outcome" where
  "log_context_new V test_name initial_config_logging p =
    rbind (test_log_config V test_name initial_config_logging p) (\<lambda>((log_path, log_config), p).
    (let (lg, fs) = to_logger (te_path_parent V) (te_stderr_error V) log_config test_name (tp_files p) in
     rbind (unwrap_ok lg) (\<lambda>(lg, own).
       Inr ((\<lparr> lgc_log = lg, lgc_test_name = test_name, lgc_log_path = log_path \<rparr>, own), p\<lparr> tp_files := fs \<rparr>))))"

text \<open>\<^verbatim>\<open>fs::remove_file\<close>: the file must be there, and the operating system may refuse.\<close>

definition remove_file :: "(string \<Rightarrow> string option) \<Rightarrow> string \<Rightarrow> file_system \<Rightarrow> (io_error, file_system) result" where
  "remove_file remove_error file fs =
    (case remove_error file of
       Some e \<Rightarrow> Inl (OsError e)
     | None \<Rightarrow>
         if fs_files fs file = None then Inl NotFound
         else Inr (fs\<lparr> fs_files := (fs_files fs)(file := None) \<rparr>))"

definition cleanup_successful :: "test_env \<Rightarrow> log_context \<Rightarrow> test_process \<Rightarrow> test_process outcome" where
  "cleanup_successful V c p =
    (case lgc_log_path c of
       None \<Rightarrow> Inr p
     | Some log_path \<Rightarrow>
         rbind (unwrap_ok (remove_file (te_remove_error V) log_path (tp_files p))) (\<lambda>fs. Inr (p\<lparr> tp_files := fs \<rparr>)))"

section \<open>TestContext\<close>

text \<open>A server with its client and logger.  \<open>port\<close> and \<open>print_addr\<close> read and print a socket address.\<close>

record ('w, 'g, 'v, 'b, 'a, 'r) test_context =
  tcx_client :: "'w client_test_context"
  tcx_starter :: "('g, 'v, 'b, 'a, 'r) http_server_starter"
  tcx_server :: "'r lifecycle"
  tcx_log :: logger
  tcx_log_context :: "log_context option"

definition test_context_new ::
  "'a listen_env \<Rightarrow> ('c, 'k, 'r) tls_lib \<Rightarrow> 'w http_client \<Rightarrow> ('a \<Rightarrow> nat) \<Rightarrow> ('a \<Rightarrow> string) \<Rightarrow> 'a
    \<Rightarrow> ('b route_handler, 'g, 'v::linorder) api_description \<Rightarrow> 'a config_dropshot \<Rightarrow> log_context option \<Rightarrow> logger
    \<Rightarrow> ('w, 'g, 'v, 'b, 'a, 'r) test_context outcome" where
  "test_context_new N T K port print_addr localhost api config_dropshot log_ctx lg =
    rbind (assert_that (port (bind_address config_dropshot) = 0)) (\<lambda>_.
    rbind (builder_start N T (builder_config config_dropshot (server_builder_new localhost api))) (\<lambda>built.
    rbind (unwrap_ok built) (\<lambda>(starter, server).
    Inr \<lparr> tcx_client = client_test_context_new (print_addr (hs_local_addr starter)) K, tcx_starter = starter,
          tcx_server = server, tcx_log = lg, tcx_log_context = log_ctx \<rparr>)))"

text \<open>\<open>stop_result\<close> is what the shutdown returns that \<^verbatim>\<open>close\<close> requests and awaits.\<close>

definition teardown ::
  "test_env \<Rightarrow> (string, unit) result \<Rightarrow> ('w, 'g, 'v, 'b, 'a, 'r) test_context \<Rightarrow> test_process \<Rightarrow> test_process outcome" where
  "teardown V stop_result c p =
    rbind (close_server (tcx_server c)) (\<lambda>_.
    rbind (case stop_result of Inl e \<Rightarrow> Inl (Panic ''server stopped with an error'') | Inr _ \<Rightarrow> Inr ()) (\<lambda>_.
    case tcx_log_context c of None \<Rightarrow> Inr p | Some log_ctx \<Rightarrow> cleanup_successful V log_ctx p))"

section \<open>Bunyan logs\<close>

record 'd bunyan_log_record =
  br_time :: 'd
  br_name :: string
  br_hostname :: string
  br_pid :: "32 word"
  br_msg :: string
  br_v :: "64 word"

definition read_bunyan_log ::
  "(string \<Rightarrow> 'd bunyan_log_record option) \<Rightarrow> string \<Rightarrow> file_system \<Rightarrow> 'd bunyan_log_record list outcome" where
  "read_bunyan_log from_str logpath fs =
    rbind (expect ''called `Result::unwrap()` on an `Err` value'' (fs_files fs logpath)) (\<lambda>log_contents.
    mapM_result (\<lambda>line. expect ''called `Result::unwrap()` on an `Err` value'' (from_str line))
      (filter (\<lambda>line. line \<noteq> []) (split_on CHR 0x0A log_contents)))"

record bunyan_log_record_spec =
  bs_name :: "string option"
  bs_hostname :: "string option"
  bs_pid :: "32 word option"
  bs_v :: "64 word option"

definition assert_expected :: "'x option \<Rightarrow> 'x \<Rightarrow> unit outcome" where
  "assert_expected expected x = (case expected of None \<Rightarrow> Inr () | Some e \<Rightarrow> assert_that (e = x))"

fun verify_bunyan_records :: "'d bunyan_log_record list \<Rightarrow> bunyan_log_record_spec \<Rightarrow> unit outcome" where
  "verify_bunyan_records [] expected = Inr ()"
| "verify_bunyan_records (r # rs) expected =
    rbind (assert_expected (bs_name expected) (br_name r)) (\<lambda>_.
    rbind (assert_expected (bs_hostname expected) (br_hostname r)) (\<lambda>_.
    rbind (assert_expected (bs_pid expected) (br_pid r)) (\<lambda>_.
    rbind (assert_expected (bs_v expected) (br_v r)) (\<lambda>_.
    verify_bunyan_records rs expected))))"

text \<open>\<open>timestamp\<close> is the time in whole seconds.\<close>

fun verify_sequential_loop ::
  "('d \<Rightarrow> int) \<Rightarrow> 'd bunyan_log_record list \<Rightarrow> 'd option \<Rightarrow> 'd option outcome" where
  "verify_sequential_loop timestamp [] maybe_should_be_before = Inr maybe_should_be_before"
| "verify_sequential_loop timestamp (r # rs) maybe_should_be_before =
    rbind (case maybe_should_be_before of
             None \<Rightarrow> Inr ()
           | Some should_be_before \<Rightarrow> assert_that (timestamp should_be_before \<le> timestamp (br_time r)))
      (\<lambda>_. verify_sequential_loop timestamp rs (Some (br_time r)))"

definition verify_bunyan_records_sequential ::
  "('d \<Rightarrow> int) \<Rightarrow> 'd bunyan_log_record list \<Rightarrow> 'd option \<Rightarrow> 'd option \<Rightarrow> unit outcome" where
  "verify_bunyan_records_sequential timestamp rs maybe_time_before maybe_time_after =
    rbind (verify_sequential_loop timestamp rs maybe_time_before) (\<lambda>maybe_should_be_before.
      case maybe_should_be_before of
        None \<Rightarrow> Inr ()
      | Some should_be_before \<Rightarrow>
          (case maybe_time_after of
             None \<Rightarrow> Inr ()
           | Some time_after \<Rightarrow> assert_that (timestamp should_be_before \<le> timestamp time_after)))"

section \<open>The checks of a log\<close>

text \<open>The check of the order accepts exactly the logs whose times are sorted between the two bounds.\<close>

lemma verify_sequential_loop_Inr_iff:
  "verify_sequential_loop timestamp rs m = Inr m' \<longleftrightarrow>
    sorted (map timestamp (List.map_filter id [m] @ map br_time rs)) \<and> m' = (if rs = [] then m else Some (br_time (last rs)))"
proof (induction timestamp rs m rule: verify_sequential_loop.induct)
  case (2 timestamp r rs m)
  have "sorted (map timestamp (List.map_filter id [m] @ map br_time (r # rs))) \<longleftrightarrow>
      (\<forall>b. m = Some b \<longrightarrow> timestamp b \<le> timestamp (br_time r)) \<and> sorted (map timestamp (map br_time (r # rs)))"
    by (cases m) (auto simp: map_filter_simps intro: order.trans)
  then show ?case using 2 by (auto simp: map_filter_simps rbind_Inr_iff split: option.splits)
qed (auto simp: map_filter_simps split: option.splits)

definition times_of :: "'d bunyan_log_record list \<Rightarrow> 'd option \<Rightarrow> 'd option \<Rightarrow> 'd list" where
  "times_of rs before after = List.map_filter id ([before] @ map (\<lambda>r. Some (br_time r)) rs @ [after])"

theorem sequential_iff_sorted:
  "verify_bunyan_records_sequential timestamp rs before after = Inr () \<longleftrightarrow>
    sorted (map timestamp (times_of rs before after))"
proof -
  have times: "times_of rs before after = List.map_filter id [before] @ map br_time rs @ List.map_filter id [after]"
    by (simp add: times_of_def List.map_filter_def comp_def)
  show ?thesis
    unfolding verify_bunyan_records_sequential_def rbind_Inr_iff verify_sequential_loop_Inr_iff times
    by (cases before; cases after; cases rs rule: rev_cases) (auto simp: map_filter_simps sorted_append)
qed

theorem verify_bunyan_records_iff:
  "verify_bunyan_records rs expected = Inr () \<longleftrightarrow>
    (\<forall>r \<in> set rs. \<forall>f \<in> {bs_name expected \<in> {None, Some (br_name r)}, bs_hostname expected \<in> {None, Some (br_hostname r)},
      bs_pid expected \<in> {None, Some (br_pid r)}, bs_v expected \<in> {None, Some (br_v r)}}. f)"
  by (induction rs expected rule: verify_bunyan_records.induct)
     (auto simp: rbind_Inr_iff assert_expected_def split: option.splits)

section \<open>The log file is the test's own\<close>

lemma show_nat_no_dot: "CHR ''.'' \<notin> set (show_nat n)"
proof (induction n rule: show_nat.induct)
  case (1 n)
  have "char_of (48 + k :: nat) \<noteq> CHR ''.''" if "k < 10" for k
  proof
    assume "char_of (48 + k) = CHR ''.''"
    then have "(of_char (char_of (48 + k :: nat) :: char) :: nat) = of_char CHR ''.''" by simp
    then show False using that by simp
  qed
  from this[symmetric] show ?case using 1 by (subst show_nat.simps) auto
qed

lemma path_push_inj: "path_push dir (c # p) = path_push dir (c # q) \<Longrightarrow> p = q"
  by (auto simp: path_push_def starts_with_def split: if_splits)

lemma last_piece:
  assumes "xs @ CHR ''.'' # as = ys @ CHR ''.'' # bs" "CHR ''.'' \<notin> set as" "CHR ''.'' \<notin> set bs"
  shows "as = bs"
proof -
  have piece: "takeWhile (\<lambda>c. c \<noteq> CHR ''.'') (rev (zs @ CHR ''.'' # cs)) = rev cs" if "CHR ''.'' \<notin> set cs" for zs cs
    using that by (auto simp: takeWhile_append)
  show ?thesis using piece[OF assms(2), of xs] piece[OF assms(3), of ys] unfolding assms(1) by simp
qed

text \<open>The file of a test, by the number of its logger.\<close>

definition log_path :: "test_env \<Rightarrow> string \<Rightarrow> string \<Rightarrow> 32 word \<Rightarrow> string \<Rightarrow> string" where
  "log_path V dir arg0 i test_name =
    path_push dir (arg0 @ ''-'' @ test_name @ ''.'' @ show_nat (unat (te_pid V)) @ ''.'' @ show_nat (unat i) @ ''.log'')"

lemma log_path_number:
  assumes "log_path V dir arg0 i n = log_path V dir arg0 j m"
  shows "i = j"
proof -
  have cons: "\<exists>c s. \<forall>t. arg0 @ ''-'' @ t = c # s @ t" by (cases arg0) auto
  then obtain c s where c: "\<And>t. arg0 @ ''-'' @ t = c # s @ t" by blast
  have "s @ n @ ''.'' @ show_nat (unat (te_pid V)) @ ''.'' @ show_nat (unat i) @ ''.log''
      = s @ m @ ''.'' @ show_nat (unat (te_pid V)) @ ''.'' @ show_nat (unat j) @ ''.log''"
    using assms path_push_inj unfolding log_path_def c by blast
  then have "(n @ ''.'' @ show_nat (unat (te_pid V))) @ CHR ''.'' # show_nat (unat i)
      = (m @ ''.'' @ show_nat (unat (te_pid V))) @ CHR ''.'' # show_nat (unat j)"
    using append_same_eq[of _ "''.log''"] by simp
  from last_piece[OF this show_nat_no_dot show_nat_no_dot] show ?thesis
    using show_nat_inj by (simp add: word_unat_eq_iff)
qed

lemma log_file_for_test_Inr:
  assumes "log_file_for_test V test_name p = Inr (file, p')"
  obtains a dir arg0 where "te_args V \<noteq> []" "hd (te_args V) = a" "te_file_name V a = Some arg0" "te_temp_dir V = Some dir"
    "file = log_path V dir arg0 (tp_logger_id p) test_name" "p' = p\<lparr> tp_logger_id := tp_logger_id p + 1 \<rparr>"
  using assms that by (auto simp: log_file_for_test_def log_prefix_for_test_def rbind_Inr_iff log_path_def split: list.splits)

text \<open>The log files of several tests of a process, one after the other.\<close>

fun log_files :: "test_env \<Rightarrow> string list \<Rightarrow> test_process \<Rightarrow> (string list \<times> test_process) outcome" where
  "log_files V [] p = Inr ([], p)"
| "log_files V (n # ns) p =
    rbind (log_file_for_test V n p) (\<lambda>(f, p). rbind (log_files V ns p) (\<lambda>(fs, p). Inr (f # fs, p)))"

lemma log_files_numbered:
  "log_files V names p = Inr (paths, p') \<Longrightarrow> names \<noteq> [] \<Longrightarrow>
    \<exists>dir arg0. te_temp_dir V = Some dir \<and> te_file_name V (hd (te_args V)) = Some arg0 \<and> length paths = length names
      \<and> (\<forall>k < length names. paths ! k = log_path V dir arg0 (tp_logger_id p + of_nat k) (names ! k))"
proof (induction names arbitrary: p paths)
  case (Cons n ns)
  obtain f q fs where f: "log_file_for_test V n p = Inr (f, q)" "log_files V ns q = Inr (fs, p')" "paths = f # fs"
    using Cons(2) by (auto simp: rbind_Inr_iff)
  obtain a dir arg0 where a: "hd (te_args V) = a" "te_file_name V a = Some arg0" "te_temp_dir V = Some dir"
      "f = log_path V dir arg0 (tp_logger_id p) n" "q = p\<lparr> tp_logger_id := tp_logger_id p + 1 \<rparr>"
    using log_file_for_test_Inr[OF f(1)] by metis
  have "fs ! k = log_path V dir arg0 (tp_logger_id p + of_nat (Suc k)) (ns ! k) \<and> length fs = length ns" if "k < length ns" for k
  proof -
    have "ns \<noteq> []" using that by auto
    from Cons(1)[OF f(2) this] that a show ?thesis by (auto simp: add.assoc)
  qed
  moreover have "length fs = length ns" using calculation f(2) by (cases ns) auto
  ultimately show ?case using a f(3) by (auto simp: nth_Cons split: nat.splits)
qed simp

text \<open>No two tests of a process log to the same file: the paths that \<^verbatim>\<open>log_file_for_test\<close> returns are
  distinct, whatever the tests are called, until its counter has gone through all of its values.\<close>

theorem log_files_distinct:
  assumes "log_files V names p = Inr (paths, p')" "length names \<le> 2 ^ 32"
  shows "distinct paths"
proof (cases "names = []")
  case True
  then show ?thesis using assms(1) by simp
next
  case False
  obtain dir arg0 where paths: "length paths = length names"
      "\<And>k. k < length names \<Longrightarrow> paths ! k = log_path V dir arg0 (tp_logger_id p + of_nat k) (names ! k)"
    using log_files_numbered[OF assms(1) False] by blast
  show ?thesis
    unfolding distinct_conv_nth
  proof (intro allI impI notI)
    fix i j assume ij: "i < length paths" "j < length paths" "i \<noteq> j" "paths ! i = paths ! j"
    then have "tp_logger_id p + of_nat i = (tp_logger_id p + of_nat j :: 32 word)"
      using paths log_path_number by metis
    then have "(of_nat i :: 32 word) = of_nat j" by simp
    moreover have "i < 2 ^ 32" "j < 2 ^ 32" using ij(1,2) paths(1) assms(2) by simp_all
    ultimately show False using ij(3) by (simp add: word_of_nat_eq_iff take_bit_nat_eq_self)
  qed
qed


section \<open>The log of a test\<close>

text \<open>What the tests rely on: a record is printed as a line of its own, which parses as the record.\<close>

definition bunyan_printed ::
  "(string \<Rightarrow> log_record \<Rightarrow> string) \<Rightarrow> (string \<Rightarrow> 'd bunyan_log_record option) \<Rightarrow> (string \<Rightarrow> log_record \<Rightarrow> 'd bunyan_log_record)
    \<Rightarrow> bool" where
  "bunyan_printed print from_str as_bunyan \<longleftrightarrow>
    (\<forall>name r. \<exists>line. print name r = line @ [CHR 0x0A] \<and> line \<noteq> [] \<and> CHR 0x0A \<notin> set line
      \<and> from_str line = Some (as_bunyan name r))"

lemma read_bunyan_log_printed:
  assumes "bunyan_printed print from_str as_bunyan" "fs_files fs file = Some (concat (map (print name) rs))"
  shows "read_bunyan_log from_str file fs = Inr (map (as_bunyan name) rs)"
proof -
  have "mapM_result (\<lambda>line. expect ''called `Result::unwrap()` on an `Err` value'' (from_str line))
      (filter (\<lambda>line. line \<noteq> []) (split_on CHR 0x0A (concat (map (print name) rs)))) = Inr (map (as_bunyan name) rs)"
  proof (induction rs)
    case (Cons r rs)
    obtain line where "print name r = line @ [CHR 0x0A]" "line \<noteq> []" "CHR 0x0A \<notin> set line"
        "from_str line = Some (as_bunyan name r)"
      using assms(1) unfolding bunyan_printed_def by blast
    then show ?case using Cons by (simp add: split_on_append expect_def ok_or_def)
  qed simp
  then show ?thesis unfolding read_bunyan_log_def assms(2) by (simp add: expect_def ok_or_def)
qed

lemma log_records_other_files:
  "lg_drain l = FileDrain file name \<Longrightarrow> other \<noteq> file \<Longrightarrow> fs_files (fold (log_record_to print l) rs fs) other = fs_files fs other"
proof (induction rs arbitrary: fs)
  case (Cons r rs)
  then show ?case by (simp add: log_record_to_def)
qed simp

lemma to_logger_file_Inr:
  assumes "to_logger path_parent stderr_error (LogFile level file x) name fs = (Inr (l, own), fs')"
  shows "l = async_root_logger level (FileDrain file name)"
    and "fs_files fs' = (fs_files fs)(file \<mapsto> (case fs_files fs file of Some c \<Rightarrow> if x = IfExistsAppend then c else [] | None \<Rightarrow> []))"
proof -
  obtain d where d: "log_drain_for_file path_parent (log_open_options x) file name fs = (Inr d, fs')"
      "l = async_root_logger level d"
    using assms by (auto simp: to_logger_def rbind_Inr_iff split: prod.splits)
  then have "fst (log_drain_for_file path_parent (log_open_options x) file name fs) = Inr d" by simp
  then have "d = FileDrain file name" unfolding log_drain_for_file_opens by simp
  then show "l = async_root_logger level (FileDrain file name)" using d(2) by simp
  show "fs_files fs' = (fs_files fs)(file \<mapsto> (case fs_files fs file of Some c \<Rightarrow> if x = IfExistsAppend then c else [] | None \<Rightarrow> []))"
    using log_drain_for_file_content[where path_parent = path_parent and x = x and p = "file" and name = name and fs = fs] d(1) by simp
qed

text \<open>The log of a test: when the unique file of the test is new, what \<^verbatim>\<open>read_bunyan_log\<close> reads from it
  are the records that were logged and are severe enough, in order and under the name of the test, and
  \<^verbatim>\<open>cleanup_successful\<close> leaves the files as they were before the test.\<close>

theorem test_log_roundtrip:
  assumes "log_context_new V test_name (LogFile level ''UNUSED'' x) p = Inr ((c, own), p')"
    and "lgc_log_path c = Some file" "fs_files (tp_files p) file = None" "te_remove_error V file = None"
    and "bunyan_printed print from_str as_bunyan"
  shows "read_bunyan_log from_str file (fold (log_record_to print (lgc_log c)) rs (tp_files p')) =
      Inr (map (as_bunyan test_name) (filter (\<lambda>r. severity (rec_level r) \<le> severity (slog_level_of level)) rs))
    \<and> (\<exists>q. cleanup_successful V c (p'\<lparr> tp_files := fold (log_record_to print (lgc_log c)) rs (tp_files p') \<rparr>) = Inr q
      \<and> fs_files (tp_files q) = fs_files (tp_files p))"
proof (intro conjI)
  obtain a config q where q: "test_log_config V test_name (LogFile level ''UNUSED'' x) p = Inr ((a, config), q)"
    using assms(1) by (auto simp: log_context_new_def rbind_Inr_iff)
  obtain r fs where r: "to_logger (te_path_parent V) (te_stderr_error V) config test_name (tp_files q) = (r, fs)" by fastforce
  obtain lg where lg: "r = Inr (lg, own)" "c = \<lparr> lgc_log = lg, lgc_test_name = test_name, lgc_log_path = a \<rparr>" "p' = q\<lparr> tp_files := fs \<rparr>"
    using assms(1) by (auto simp: log_context_new_def q r rbind_Inr_iff)
  have new: "log_file_for_test V test_name p = Inr (file, q)"
      "to_logger (te_path_parent V) (te_stderr_error V) (LogFile level file x) test_name (tp_files q) = (Inr (lg, own), fs)"
      "lgc_log c = lg" "p' = q\<lparr> tp_files := fs \<rparr>"
    using assms(2) q r lg by (auto simp: test_log_config_def rbind_Inr_iff)
  have same: "tp_files q = tp_files p" using new(1) by (auto elim: log_file_for_test_Inr)
  note logger = to_logger_file_Inr[OF new(2)]
  have drain: "lg_drain lg = FileDrain file test_name" unfolding logger(1) by (simp add: async_root_logger_def)
  have opened: "fs_files fs = (fs_files (tp_files p))(file \<mapsto> [])" unfolding logger(2) same using assms(3) by simp
  have filtered: "passes_filter lg = (\<lambda>r. severity (rec_level r) \<le> severity (slog_level_of level))"
    unfolding logger(1) by (simp add: passes_filter_def async_root_logger_def fun_eq_iff)
  let ?logged = "fold (log_record_to print lg) rs fs"
  have content: "fs_files ?logged file =
      Some (concat (map (print test_name) (filter (\<lambda>r. severity (rec_level r) \<le> severity (slog_level_of level)) rs)))"
    using log_records_file[OF drain, of fs "[]" print rs] opened unfolding filtered by simp
  show "read_bunyan_log from_str file (fold (log_record_to print (lgc_log c)) rs (tp_files p')) =
      Inr (map (as_bunyan test_name) (filter (\<lambda>r. severity (rec_level r) \<le> severity (slog_level_of level)) rs))"
    using read_bunyan_log_printed[OF assms(5) content] new(3,4) by simp
  have "fs_files ?logged other = fs_files (tp_files p) other" if "other \<noteq> file" for other
    using log_records_other_files[OF drain that] opened that by simp
  then have "(fs_files ?logged)(file := None) = fs_files (tp_files p)" using assms(3) by (auto simp: fun_eq_iff)
  then show "\<exists>q. cleanup_successful V c (p'\<lparr> tp_files := fold (log_record_to print (lgc_log c)) rs (tp_files p') \<rparr>) = Inr q
      \<and> fs_files (tp_files q) = fs_files (tp_files p)"
    using content assms(2,4) new(3,4) by (simp add: cleanup_successful_def remove_file_def unwrap_ok_def)
qed


section \<open>A test that logs\<close>

definition sample_test_env :: test_env where
  "sample_test_env = \<lparr> te_args = [''/bin/prog''], te_file_name = (\<lambda>_. Some ''prog''), te_temp_dir = Some ''/tmp'', te_pid = 7,
    te_path_parent = (\<lambda>_. Some ''/tmp''), te_stderr_error = None, te_remove_error = (\<lambda>_. None) \<rparr>"

definition sample_process :: test_process where
  "sample_process = \<lparr> tp_files = \<lparr> fs_files = (\<lambda>_. None), fs_dirs = {}, fs_dir_error = (\<lambda>_. None),
      fs_open_error = (\<lambda>_. None) \<rparr>, tp_logger_id = 0 \<rparr>"

text \<open>A format that keeps the level of a record, in unary.\<close>

definition sample_line :: "string \<Rightarrow> log_record \<Rightarrow> string" where
  "sample_line name r = replicate (severity (rec_level r)) CHR ''x'' @ [CHR 0x0A]"

definition bunyan_of_msg :: "string \<Rightarrow> int bunyan_log_record" where
  "bunyan_of_msg m = \<lparr> br_time = 0, br_name = ''t'', br_hostname = ''h'', br_pid = 7, br_msg = m, br_v = 0 \<rparr>"

definition sample_as_bunyan :: "string \<Rightarrow> log_record \<Rightarrow> int bunyan_log_record" where
  "sample_as_bunyan name r = bunyan_of_msg (replicate (severity (rec_level r)) CHR ''x'')"

lemma sample_printed: "bunyan_printed sample_line (\<lambda>l. Some (bunyan_of_msg l)) sample_as_bunyan"
proof -
  have "severity (rec_level r) > 0" for r by (cases "rec_level r") simp_all
  then show ?thesis by (auto simp: bunyan_printed_def sample_line_def sample_as_bunyan_def)
qed

lemma sample_log_file: "show_nat (unat (te_pid sample_test_env)) = ''7''" "show_nat (unat (tp_logger_id sample_process)) = ''0''"
  by code_simp+

theorem test_log_roundtrip_witness:
  "\<exists>c p' q. log_context_new sample_test_env ''t1'' (LogFile LInfo ''UNUSED'' IfExistsFail) sample_process = Inr ((c, []), p')
    \<and> read_bunyan_log (\<lambda>l. Some (bunyan_of_msg l)) ''/tmp/prog-t1.7.0.log''
        (fold (log_record_to sample_line (lgc_log c)) [\<lparr> rec_level = STrace, rec_msg = ''in'' \<rparr>, \<lparr> rec_level = SWarning, rec_msg = ''hm'' \<rparr>]
          (tp_files p')) = Inr [bunyan_of_msg ''xxx'']
    \<and> cleanup_successful sample_test_env c (p'\<lparr> tp_files := fold (log_record_to sample_line (lgc_log c))
          [\<lparr> rec_level = STrace, rec_msg = ''in'' \<rparr>, \<lparr> rec_level = SWarning, rec_msg = ''hm'' \<rparr>] (tp_files p') \<rparr>) = Inr q
    \<and> fs_files (tp_files q) = fs_files (tp_files sample_process)"
proof -
  have "\<exists>c p'. log_context_new sample_test_env ''t1'' (LogFile LInfo ''UNUSED'' IfExistsFail) sample_process = Inr ((c, []), p')
      \<and> lgc_log_path c = Some ''/tmp/prog-t1.7.0.log''"
    using sample_log_file
    by (simp add: log_context_new_def test_log_config_def log_file_for_test_def log_prefix_for_test_def sample_test_env_def
        sample_process_def expect_def ok_or_def assert_that_def unwrap_ok_def path_push_def starts_with_def to_logger_def
        log_drain_for_file_def create_dir_all_def open_file_at_def log_open_options_def)
  then obtain c p' where c: "log_context_new sample_test_env ''t1'' (LogFile LInfo ''UNUSED'' IfExistsFail) sample_process = Inr ((c, []), p')"
      "lgc_log_path c = Some ''/tmp/prog-t1.7.0.log''" by blast
  have "fs_files (tp_files sample_process) ''/tmp/prog-t1.7.0.log'' = None" "te_remove_error sample_test_env ''/tmp/prog-t1.7.0.log'' = None"
    by (simp_all add: sample_process_def sample_test_env_def)
  from test_log_roundtrip[OF c this sample_printed,
      of "[\<lparr> rec_level = STrace, rec_msg = ''in'' \<rparr>, \<lparr> rec_level = SWarning, rec_msg = ''hm'' \<rparr>]"]
  have read: "read_bunyan_log (\<lambda>l. Some (bunyan_of_msg l)) ''/tmp/prog-t1.7.0.log''
        (fold (log_record_to sample_line (lgc_log c)) [\<lparr> rec_level = STrace, rec_msg = ''in'' \<rparr>, \<lparr> rec_level = SWarning, rec_msg = ''hm'' \<rparr>]
          (tp_files p')) = Inr [bunyan_of_msg ''xxx'']"
    and clean: "\<exists>q. cleanup_successful sample_test_env c (p'\<lparr> tp_files := fold (log_record_to sample_line (lgc_log c))
          [\<lparr> rec_level = STrace, rec_msg = ''in'' \<rparr>, \<lparr> rec_level = SWarning, rec_msg = ''hm'' \<rparr>] (tp_files p') \<rparr>) = Inr q
      \<and> fs_files (tp_files q) = fs_files (tp_files sample_process)"
    by (simp_all add: sample_as_bunyan_def numeral_3_eq_3 del: fold_simps)
  show ?thesis using c(1) read clean by blast
qed

theorem log_files_distinct_witness:
  "\<exists>paths p'. log_files sample_test_env [''t'', ''t'', ''u''] sample_process = Inr (paths, p') \<and> distinct paths \<and> length paths = 3"
proof -
  have "map_sum id (\<lambda>(fs, _). length fs) (log_files sample_test_env [''t'', ''t'', ''u''] sample_process) = Inr 3" by code_simp
  then obtain paths p' where run: "log_files sample_test_env [''t'', ''t'', ''u''] sample_process = Inr (paths, p')" "length paths = 3"
    by (cases "log_files sample_test_env [''t'', ''t'', ''u''] sample_process") auto
  from log_files_distinct[OF run(1)] run show ?thesis by simp
qed

end
