(* ===== verification/Request_Extract.thy ===== *)
theory Request_Extract
  imports Struct_Members Request_Body Server
begin

text \<open>
  The extractors as the server runs them (\<^verbatim>\<open>extractor/path.rs\<close>, \<^verbatim>\<open>query.rs\<close>, \<^verbatim>\<open>header.rs\<close>, \<^verbatim>\<open>body.rs\<close> and
  \<^verbatim>\<open>common.rs\<close>): their instances over the context of a request, their metadata, and an endpoint with a typed body
  from the request to its response.
\<close>

section \<open>The values that are extracted\<close>

datatype 't path_extractor = PathOf (path_into_inner: 't)
datatype 't query_extractor = QueryOf (query_into_inner: 't)
datatype 't header_extractor = HeaderOf (header_into_inner: 't)
datatype 't typed_body = TypedBodyOf (typed_body_into_inner: 't)

definition path_extractor_map :: "('t \<Rightarrow> 'u) \<Rightarrow> 't path_extractor \<Rightarrow> 'u path_extractor" where
  "path_extractor_map f x = PathOf (f (path_into_inner x))"

definition path_extractor_try_map :: "('t \<Rightarrow> ('e, 'u) result) \<Rightarrow> 't path_extractor \<Rightarrow> ('e, 'u path_extractor) result" where
  "path_extractor_try_map f x = rbind (f (path_into_inner x)) (\<lambda>u. Inr (PathOf u))"

definition query_extractor_map :: "('t \<Rightarrow> 'u) \<Rightarrow> 't query_extractor \<Rightarrow> 'u query_extractor" where
  "query_extractor_map f x = QueryOf (f (query_into_inner x))"

definition query_extractor_try_map :: "('t \<Rightarrow> ('e, 'u) result) \<Rightarrow> 't query_extractor \<Rightarrow> ('e, 'u query_extractor) result" where
  "query_extractor_try_map f x = rbind (f (query_into_inner x)) (\<lambda>u. Inr (QueryOf u))"

definition header_extractor_map :: "('t \<Rightarrow> 'u) \<Rightarrow> 't header_extractor \<Rightarrow> 'u header_extractor" where
  "header_extractor_map f x = HeaderOf (f (header_into_inner x))"

definition header_extractor_try_map :: "('t \<Rightarrow> ('e, 'u) result) \<Rightarrow> 't header_extractor \<Rightarrow> ('e, 'u header_extractor) result" where
  "header_extractor_try_map f x = rbind (f (header_into_inner x)) (\<lambda>u. Inr (HeaderOf u))"

definition typed_body_map :: "('t \<Rightarrow> 'u) \<Rightarrow> 't typed_body \<Rightarrow> 'u typed_body" where
  "typed_body_map f x = TypedBodyOf (f (typed_body_into_inner x))"

definition typed_body_try_map :: "('t \<Rightarrow> ('e, 'u) result) \<Rightarrow> 't typed_body \<Rightarrow> ('e, 'u typed_body) result" where
  "typed_body_try_map f x = rbind (f (typed_body_into_inner x)) (\<lambda>u. Inr (TypedBodyOf u))"

section \<open>Extraction\<close>

text \<open>The shared extractors read the context; that of the path panics on a missing field, which the
  registration has excluded.\<close>

definition path_from_request ::
  "(variable_value map_deserializer \<Rightarrow> (map_error, 't) result) \<Rightarrow> request_context
    \<Rightarrow> (http_error, 't path_extractor) result outcome" where
  "path_from_request de rqctx =
    rbind (http_extract_path_params de (rem_variables (rc_endpoint rqctx))) (\<lambda>r. Inr (rbind r (\<lambda>params. Inr (PathOf params))))"

definition query_from_request ::
  "(string \<Rightarrow> (string, 't) result) \<Rightarrow> request_context \<Rightarrow> (http_error, 't query_extractor) result" where
  "query_from_request urlencoded_de rqctx =
    rbind (http_request_load_query urlencoded_de
        \<lparr> rq_method = ri_method (rc_request rqctx), rq_query = ri_query (rc_request rqctx),
          rq_headers = ri_headers (rc_request rqctx), rq_body = [] \<rparr>) (\<lambda>q. Inr (QueryOf q))"

definition header_from_request ::
  "(header_map \<Rightarrow> (string \<times> string) list) \<Rightarrow> (string \<Rightarrow> (string, string) result)
    \<Rightarrow> (string map_deserializer \<Rightarrow> (map_error, 't) result) \<Rightarrow> request_context
    \<Rightarrow> (http_error, 't header_extractor) result" where
  "header_from_request header_iter to_str de rqctx =
    rbind (http_request_load_header to_str de (header_iter (ri_headers (rc_request rqctx)))) (\<lambda>h. Inr (HeaderOf h))"

text \<open>A shared extractor serves as an exclusive one, and an exclusive one alone as a tuple.\<close>

definition shared_as_exclusive ::
  "(request_context \<Rightarrow> (http_error, 't) result) \<Rightarrow> request_context \<Rightarrow> server_request \<Rightarrow> (http_error, 't) result" where
  "shared_as_exclusive shared rqctx request = shared rqctx"

definition single_from_request ::
  "(request_context \<Rightarrow> server_request \<Rightarrow> (http_error, 't) result) \<Rightarrow> request_context \<Rightarrow> server_request
    \<Rightarrow> (http_error, 't) result" where
  "single_from_request exclusive rqctx request = exclusive rqctx request"

text \<open>The body extractors take the limit and the media type from the endpoint.\<close>

definition typed_body_from_request ::
  "(nat \<Rightarrow> string) \<Rightarrow> (string \<Rightarrow> (string, string) result) \<Rightarrow> (string \<Rightarrow> (string, 't) result) \<Rightarrow> (string \<Rightarrow> (string, 't) result)
    \<Rightarrow> request_context \<Rightarrow> server_request \<Rightarrow> (http_error, 't typed_body) result" where
  "typed_body_from_request disp to_str json_de url_de rqctx request =
    rbind (http_request_load_body disp to_str json_de url_de (http_request.truncate request)
        (context_body_max_bytes (rc_config rqctx) (rc_endpoint rqctx)) (rem_body_content_type (rc_endpoint rqctx)))
      (\<lambda>t. Inr (TypedBodyOf t))"

section \<open>Metadata\<close>

definition path_metadata ::
  "schema_lib \<Rightarrow> schema_type \<Rightarrow> api_endpoint_body_content_type \<Rightarrow> 'g extractor_metadata outcome option" where
  "path_metadata L T content_type = get_metadata L T LocPath"

definition query_metadata ::
  "schema_lib \<Rightarrow> schema_type \<Rightarrow> api_endpoint_body_content_type \<Rightarrow> 'g extractor_metadata outcome option" where
  "query_metadata L T content_type = get_metadata L T LocQuery"

definition header_metadata ::
  "schema_lib \<Rightarrow> schema_type \<Rightarrow> api_endpoint_body_content_type \<Rightarrow> 'g extractor_metadata outcome option" where
  "header_metadata L T content_type = get_metadata L T LocHeader"

section \<open>Endpoints with a typed body\<close>

text \<open>When the body of a request is accepted as \<open>t\<close>.\<close>

definition body_accepted ::
  "(string \<Rightarrow> (string, string) result) \<Rightarrow> (string \<Rightarrow> (string, 't) result) \<Rightarrow> (string \<Rightarrow> (string, 't) result)
    \<Rightarrow> server_request \<Rightarrow> nat \<Rightarrow> api_endpoint_body_content_type \<Rightarrow> 't \<Rightarrow> bool" where
  "body_accepted to_str json_de url_de rq max_bytes expected t \<longleftrightarrow>
    frames_ok (rq_body rq) \<and> length (frames_bytes (rq_body rq)) \<le> max_bytes
    \<and> request_content_type to_str (rq_headers rq) = Inr expected
    \<and> (expected = Json \<and> json_de (frames_bytes (rq_body rq)) = Inr t
       \<or> expected = UrlEncoded \<and> url_de (frames_bytes (rq_body rq)) = Inr t)"

lemma typed_body_from_request_iff:
  "typed_body_from_request disp to_str json_de url_de ctx rq = Inr x \<longleftrightarrow>
    (\<exists>t. x = TypedBodyOf t \<and> body_accepted to_str json_de url_de rq
      (context_body_max_bytes (rc_config ctx) (rc_endpoint ctx)) (rem_body_content_type (rc_endpoint ctx)) t)"
  unfolding typed_body_from_request_def rbind_Inr_iff load_body_cases[THEN conjunct1] body_accepted_def
  by (auto simp: http_request.defs)

lemma typed_body_from_request_400:
  "typed_body_from_request disp to_str json_de url_de ctx rq = Inl e \<Longrightarrow> as_status (status_code e) = 400"
  unfolding typed_body_from_request_def rbind_Inl_iff using load_body_cases[THEN conjunct2] by blast

text \<open>The handler of an endpoint that takes a typed body and fails with \<^verbatim>\<open>HttpError\<close>.\<close>

definition typed_body_handler ::
  "(error_status_code \<Rightarrow> string) \<Rightarrow> (nat \<Rightarrow> string) \<Rightarrow> (string \<Rightarrow> (string, string) result) \<Rightarrow> (string \<Rightarrow> (string, 't) result)
    \<Rightarrow> (string \<Rightarrow> (string, 't) result) \<Rightarrow> (request_context \<Rightarrow> 't typed_body \<Rightarrow> (http_error, 'r) result outcome)
    \<Rightarrow> ('r \<Rightarrow> 'b handler_result) \<Rightarrow> 'b route_handler" where
  "typed_body_handler pr disp to_str json_de url_de func to_result =
    route_handle_request (http_response_error pr)
      (single_from_request (typed_body_from_request disp to_str json_de url_de)) func to_result"


section \<open>An endpoint that echoes\<close>

definition echo_func :: "request_context \<Rightarrow> string typed_body \<Rightarrow> (http_error, string) result outcome" where
  "echo_func ctx b = Inr (Inr (typed_body_into_inner b))"

definition echo_result :: "string \<Rightarrow> string handler_result" where
  "echo_result s = Inr \<lparr> resp_status = 200, resp_headers = hm_empty, resp_body = s \<rparr>"

definition echo_endpoint :: "(string route_handler, unit, nat) api_endpoint" where
  "echo_endpoint = hello_endpoint\<lparr> handler := typed_body_handler (\<lambda>_. ''error'') show_nat Inr Inr Inl echo_func echo_result,
    method := ''PUT'', request_body_max_bytes := Some 4 \<rparr>"

definition echo_router :: "(string route_handler, unit, nat) api_endpoint http_router" where
  "echo_router = (case router_insert echo_endpoint router_new of Inr r \<Rightarrow> r | Inl _ \<Rightarrow> router_new)"

definition echo_state :: "(unit, nat, string) dropshot_state" where
  "echo_state = hello_state\<lparr> st_router := echo_router \<rparr>"

definition echo_request :: "string \<Rightarrow> server_request" where
  "echo_request b = hello_request\<lparr> rq_method := ''PUT'', rq_body := [FrData b] \<rparr>"

lemma echo_inserts: "router_insert echo_endpoint router_new = Inr echo_router"
proof -
  have "is_ok (router_insert echo_endpoint router_new)" by code_simp
  then show ?thesis by (auto simp: echo_router_def is_ok_iff)
qed

lemma echo_reachable: "router_reachable echo_router"
  using router_reachable.ins[OF router_reachable.new echo_inserts] .

lemma echo_table: "route_table echo_router ([Literal ''hello''], ''PUT'') = [echo_endpoint]"
proof -
  have "template_of (path echo_endpoint) = Inr [Literal ''hello'']" "to_upper (method echo_endpoint) = ''PUT''"
    by code_simp+
  then show ?thesis
    using router_insert_table[OF reachable_wf[OF router_reachable.new] echo_inserts]
    by (auto simp: route_table_def router_new_def)
qed

lemma echo_routes: "routes_to echo_router [''hello''] [Literal ''hello''] []"
proof -
  have "case node_at [Literal ''hello''] (root echo_router) of None \<Rightarrow> False
      | Some c \<Rightarrow> \<not> has_rest_edge c" by code_simp
  moreover have "match_template [Literal ''hello''] [''hello''] = Some []" by code_simp
  ultimately show ?thesis by (auto simp: routes_to_def split: option.splits)
qed


end
