(* ===== verification/Spec2Isabelle.thy ===== *)
theory Spec2Isabelle
  imports Server_Lifecycle Pagination Struct_Members Trait_Correct Test_Logs Request_Extract
begin

text \<open>
  \<^bold>\<open>A verification development of dropshot.\<close>

  Dropshot builds HTTP servers with OpenAPI documents from Rust functions.  The development models
  the two crates of the repository: the library \<^verbatim>\<open>dropshot\<close> (\<^verbatim>\<open>src/dropshot/src\<close>) and its procedural macros
  \<^verbatim>\<open>dropshot_endpoint\<close> (\<^verbatim>\<open>src/dropshot_endpoint/src\<close>).

  \<^bold>\<open>The parts and how they interact.\<close>  The macros turn an annotated function or trait into code that
  constructs endpoints and registers them with an \<^verbatim>\<open>ApiDescription\<close>.  Registration checks tags, path variables and the
  schemas of parameter types, and inserts the endpoint into the router, a trie of path segments with the
  handlers of each method by version range.  From a description the library prints an OpenAPI document of a version
  (it iterates over the router and converts JSON schemas), and it builds a server: each request is routed with its
  version, extractors read its path, query, headers and body, the handler runs, and its response is compressed, labelled
  with the request id and sent.  The server accepts connections, with or without TLS, until it is shut down.

  \<^bold>\<open>The theories and the code.\<close>  Every theory opens with what it holds; the names are those of the code, but for a suffix where
  HOL has the name.
  \<^item> \<open>Prelude\<close>: results, byte strings, decimal numbers and ordered association lists (\<^verbatim>\<open>BTreeMap\<close>), with the simp collections.
  \<^item> \<open>Versions\<close>: \<^verbatim>\<open>ApiEndpointVersions\<close> of \<^verbatim>\<open>api_description.rs\<close>; \<open>Versioning\<close>: \<^verbatim>\<open>versioning.rs\<close>.
  \<^item> \<open>Status_Codes\<close>, \<open>Http_Error\<close>: \<^verbatim>\<open>error_status_code.rs\<close>, \<^verbatim>\<open>error.rs\<close>, the constants of \<^verbatim>\<open>http_util.rs\<close>, header maps, responses.
  \<^item> \<open>Router\<close> (model of \<^verbatim>\<open>router.rs\<close>), \<open>Router_Laws\<close> (invariant, what insertion and the walk do to the trie),
    \<open>Router_Properties\<close> (the abstract route table and what lookups answer), \<open>Router_Iter\<close> (the iterator over endpoints).
  \<^item> \<open>Api_Types\<close>, \<open>Type_Util\<close>, \<open>Api_Register\<close>: endpoints and parameters, the type checks of \<^verbatim>\<open>type_util.rs\<close>, and \<^verbatim>\<open>register\<close>.
  \<^item> \<open>Json_Schema\<close>, \<open>Openapi_Schema\<close>, \<open>Schema_Meaning\<close>, \<open>Struct_Members\<close>: schemas, their conversion (\<^verbatim>\<open>schema_util.rs\<close>), the values that
    a schema accepts before and after, and the members of structures with \<^verbatim>\<open>extractor/metadata.rs\<close>.
  \<^item> \<open>Openapi_Document\<close>: \<^verbatim>\<open>gen_openapi\<close> and \<^verbatim>\<open>OpenApiDefinition\<close> of \<^verbatim>\<open>api_description.rs\<close>.
  \<^item> \<open>Map_Serde\<close>, \<open>Pagination\<close>, \<open>Compression\<close>, \<open>Config\<close>, \<open>Logging\<close>, \<open>Websocket\<close>: the files of these names (\<^verbatim>\<open>from_map.rs\<close> and
    \<^verbatim>\<open>to_map.rs\<close> for the first).
  \<^item> \<open>Extractors\<close>, \<open>Request_Body\<close>, \<open>Request_Extract\<close>: \<^verbatim>\<open>extractor/*.rs\<close> and \<^verbatim>\<open>body.rs\<close>; the last one runs them over the context of a request.
  \<^item> \<open>Handler\<close>, \<open>Server\<close>, \<open>Server_Lifecycle\<close>: \<^verbatim>\<open>handler.rs\<close>, and of \<^verbatim>\<open>server.rs\<close> the building of a server and the way of a request, then
    the running server with its connections, tasks and shutdown as a step relation.
  \<^item> \<open>Test_Client\<close>, \<open>Test_Logs\<close>: the client, the contexts and the log checks of \<^verbatim>\<open>test_util.rs\<close>.
  \<^item> \<open>Error_Store\<close>, \<open>Macro_Doc\<close>, \<open>Macro_Metadata\<close>, \<open>Macro_Params\<close>, \<open>Macro_Endpoint\<close>: \<^verbatim>\<open>error_store.rs\<close>, \<^verbatim>\<open>doc.rs\<close>, \<^verbatim>\<open>metadata.rs\<close>, \<^verbatim>\<open>params.rs\<close>,
    and \<^verbatim>\<open>endpoint.rs\<close>, \<^verbatim>\<open>channel.rs\<close> and \<^verbatim>\<open>util.rs\<close> of the macros; \<open>Macro_Module_Doc\<close>, \<open>Macro_Trait\<close>, \<open>Trait_Correct\<close>: \<^verbatim>\<open>api_trait.rs\<close>.
  \<^item> This theory composes them: from an annotated trait to the answers of its server and to its document.

  \<^bold>\<open>How the code is modelled.\<close>  A structure is a record, an enumeration a datatype; a function that fails returns a sum, a
  panic is the value \<open>Inl (Panic message)\<close> of its own (the message of the source; that of an assertion is shortened), and a
  function that changes its receiver returns it.  Numbers keep their width where it matters (versions, the counter of log files,
  casts of schema bounds).  Generated code is data with a meaning: the macros return a datatype of the calls that they emit, and
  evaluating it constructs endpoints and registers them.  What the code takes from other crates is an argument: header validity,
  the decoders of JSON, URLs, base64 and percent escapes, semver, schemars' generator, hyper's client, syn's parsers, rustls.
  What is relied on of them is a named predicate such as \<open>http_lib_documented\<close>, \<open>codec_faithful\<close>, \<open>semver_ok\<close> or
  \<open>collection_served\<close>, with an instance in the witness of the theorem.

  \<^bold>\<open>Interfaces.\<close>  \<open>ordered_map\<close> (of the maps), \<open>exclusive_ranges\<close> (handlers of disjoint version ranges are found uniquely),
  \<open>route_registry\<close> (what an insertion does to the route table), \<open>map_value\<close> (values that the map deserializer reads),
  \<open>response_error_trait\<close> (error types of handlers) and \<open>completing_steps\<close> (work that bounded completion steps finish) are
  locales; each is interpreted on the model's own operations.

  \<^bold>\<open>What is shown.\<close>  The router refines a table from templates and methods to handlers: insertion extends one entry or
  panics, lookups answer from the table, and its invariant holds of every router that is built; the iterator yields exactly the
  table.  Registration accepts exactly the consistent endpoints.  Every request is answered without a panic of the server, by the
  endpoint that it matches; bodies are within their limit; compression is negotiated; a server that is shut down stops, and
  then nothing of it runs.  The document has exactly the operations of its version, its references resolve, and converted
  schemas accept the same values.  The macros accept exactly the valid functions and traits, and what they generate
  constructs and registers the declared endpoints.  Texts, tokens, templates, maps and logs are read back as they were written.
  The findings of the work (overlaps that are missed, endpoints that are shadowed, schemas that change their meaning, panics on
  valid input) are lemmas next to the definitions they are about.

  \<^bold>\<open>Loops.\<close>  Loops that end are functions with a measure: the size of a node, schema or syntax tree, the length of the input, the
  references not yet visited.  Recursion that the code does not bound is a partial function into an option, where \<open>None\<close> is
  divergence: the type checks and the members of structures (through references), the propagation of macro errors, and the scan of a
  paginated collection; theorems say when each returns.  No fuel is used.  \<open>shutdown_work\<close> bounds the completion steps of a shutdown.

  \<^bold>\<open>Not modelled.\<close>  The scheduling of tokio, sockets, TLS and HTTP framing appear as events or arguments.  Spans of tokens, the parsers of
  syn (with \<^verbatim>\<open>syn_parsing.rs\<close>, which is adapted from it) and of the macro arguments, and the printing of generated code as text are not
  modelled: the macros start from parsed items and end with the calls that they emit.  Error messages that print a schema or a
  version are shortened or take a printer.  DTrace probes, the queue of \<^verbatim>\<open>slog_async\<close>, size hints of bodies and response extensions (other than the
  mark of uncompressed responses, a parameter) have no counterpart.  \<^verbatim>\<open>lib.rs\<close> is documentation and re-exports.
\<close>

section \<open>From a trait to its server\<close>

text \<open>The description that a generated function returns holds the endpoints that the trait declares.\<close>

lemma factory_registers_declared:
  fixes tr :: "('x, 'v::linorder) item_trait" and m :: "'p api_metadata"
    and env :: "(function_path, syn_type, 'x, 'h, 'g, 'v) code_env"
  assumes "semver_ok L" "\<forall>i \<in> set (it_items tr). item_parsed L i" "names_ok is_ident to_snake_case m tr"
    and "do_trait L parse_str parse_type is_ident to_snake_case print (Inr m) (Inr tr) = Inr (out, [])"
    and "factory_of kind (ao_module out) = Some body" "run_factory L env policy_of body = Some (Inr (Inr api))"
    and "\<forall>d \<in> set (declared_items parse_type (get_crate parse_str (am_dropshot_crate m)) (it_ident tr) kind (it_items tr)).
      is_ok (declared_versions env (unwrap_or (epm_versions (dc_metadata d)) RangeAll))"
  obtains es where "list_all2 (declares env)
      (declared_items parse_type (get_crate parse_str (am_dropshot_crate m)) (it_ident tr) kind (it_items tr)) es"
    "registered (router api) = set es" "router_reachable (router api)"
proof -
  let ?ds = "declared_items parse_type (get_crate parse_str (am_dropshot_crate m)) (it_ident tr) kind (it_items tr)"
  obtain out' errs where out': "do_trait L parse_str parse_type is_ident to_snake_case print (Inr m) (Inr tr) = Inr (out', errs)"
      "errs = [] \<longleftrightarrow> trait_accepted m tr"
      "\<And>c. errs = [] \<Longrightarrow> is_context_of (context_name m) tr c \<Longrightarrow>
        \<exists>blocks. factory_of kind (ao_module out') = Some (FactoryBody (map_option make_tag_config (am_tag_config m)) blocks)
          \<and> list_all2 (block_for L env) ?ds blocks"
    using do_trait_parsed[where env = env and kind = kind, OF assms(1-3), of parse_str parse_type print] by metis
  then have same: "out' = out" "errs = []" using assms(4) by simp_all
  then obtain c where "is_context_of (context_name m) tr c" using out'(2) by (auto simp: trait_accepted_def)
  then obtain blocks where blocks: "list_all2 (block_for L env) ?ds blocks"
      "body = FactoryBody (map_option make_tag_config (am_tag_config m)) blocks"
    using out'(3) same assms(5) by auto
  from run_factory_spec[OF blocks(1) assms(7) refl, of policy_of "map_option make_tag_config (am_tag_config m)"]
  show ?thesis using that assms(6) blocks(2) api_reachable_router by blast
qed



text \<open>Where an item is published: path and method of the document, and the template.\<close>

definition published_at :: "('x, 'v) item_endpoint \<Rightarrow> string \<Rightarrow> string \<Rightarrow> path_segment list \<Rightarrow> bool" where
  "published_at d p meth t \<longleftrightarrow> \<not> epm_unpublished (dc_metadata d) \<and> template_of (epm_path (dc_metadata d)) = Inr t
    \<and> p = render_path (map shown_segment t) \<and> meth = to_upper (method_as_str (epm_method (dc_metadata d)))"

text \<open>C6. The OpenAPI document of a trait needs no implementation: let the generated function
  \<^verbatim>\<open>stub_api_description\<close> return a description.  Then the document of a version has an operation at a path and
  method exactly when the trait declares a published endpoint or channel there whose range holds the version,
  and the operation is described as this endpoint is.\<close>

theorem stub_document_of_trait:
  fixes tr :: "('x, 'v::linorder) item_trait" and m :: "'p api_metadata"
    and env :: "(function_path, syn_type, 'x, 'h, 'g, 'v) code_env" and G :: "('g, 's) schema_generator"
  assumes "semver_ok L" "\<forall>i \<in> set (it_items tr). item_parsed L i" "names_ok is_ident to_snake_case m tr"
    and "do_trait L parse_str parse_type is_ident to_snake_case print (Inr m) (Inr tr) = Inr (out, [])"
    and "factory_of FactoryStub (ao_module out) = Some body" "run_factory L env policy_of body = Some (Inr (Inr api))"
    and "\<forall>d \<in> set (declared_items parse_type (get_crate parse_str (am_dropshot_crate m)) (it_ident tr) FactoryStub (it_items tr)).
      is_ok (declared_versions env (unwrap_or (epm_versions (dc_metadata d)) RangeAll))"
    and "gen_openapi G api i v = Inr doc"
  shows "case operation_at (oa_paths doc) p meth of
      None \<Rightarrow> \<not> (\<exists>d \<in> set (declared_items parse_type (get_crate parse_str (am_dropshot_crate m)) (it_ident tr) FactoryStub (it_items tr)).
        \<exists>t vs. published_at d p meth t
          \<and> declared_versions env (unwrap_or (epm_versions (dc_metadata d)) RangeAll) = Inr vs \<and> matches vs (Some v))
    | Some op \<Rightarrow> \<exists>d \<in> set (declared_items parse_type (get_crate parse_str (am_dropshot_crate m)) (it_ident tr) FactoryStub (it_items tr)).
        \<exists>t vs e. published_at d p meth t
          \<and> declared_versions env (unwrap_or (epm_versions (dc_metadata d)) RangeAll) = Inr vs \<and> matches vs (Some v)
          \<and> described_by env (dc_kind d) (dc_metadata d) (dc_name d) (dc_doc d) vs e \<and> describes op e"
proof -
  let ?ds = "declared_items parse_type (get_crate parse_str (am_dropshot_crate m)) (it_ident tr) FactoryStub (it_items tr)"
  obtain es where es: "list_all2 (declares env) ?ds es" "registered (router api) = set es" "router_reachable (router api)"
    using factory_registers_declared[OF assms(1-7)] by blast
  note ops = document_operations[OF es(3) assms(8), of meth p]
  have declared: "\<exists>d \<in> set ?ds. published_at d p meth t
      \<and> declared_versions env (unwrap_or (epm_versions (dc_metadata d)) RangeAll) = Inr (versions e)
      \<and> described_by env (dc_kind d) (dc_metadata d) (dc_name d) (dc_doc d) (versions e) e"
    if "e \<in> set (route_table (router api) (t, meth))" "visible e" "p = render_path (map shown_segment t)" for t e
  proof -
    have e: "e \<in> set es" "template_of (path e) = Inr t" "to_upper (method e) = meth"
      using that(1) unfolding route_table_registered[OF es(3)] es(2) by (auto simp: endpoint_key_def split: sum.splits)
    obtain d where d: "d \<in> set ?ds" "declares env d e" using list_all2_snd[OF es(1) e(1)] by blast
    then have described: "described_by env (dc_kind d) (dc_metadata d) (dc_name d) (dc_doc d) (versions e) e"
      using described_by_fields(7) unfolding declares_def by metis
    have "published_at d p meth t"
      using e(2,3) that(2,3) described_by_fields(2,4,6)[OF described] by (simp add: published_at_def)
    then show ?thesis using d described declares_versions[OF d(2)] by blast
  qed
  have served: "\<exists>e. e \<in> set (route_table (router api) (t, meth)) \<and> visible e \<and> versions e = vs"
    if d: "d \<in> set ?ds" "published_at d p meth t" "declared_versions env (unwrap_or (epm_versions (dc_metadata d)) RangeAll) = Inr vs" for d t vs
  proof -
    obtain e where e: "e \<in> set es" "declares env d e" using list_all2_fst[OF es(1) d(1)] by blast
    then have "described_by env (dc_kind d) (dc_metadata d) (dc_name d) (dc_doc d) vs e"
      using d(3) by (auto simp: declares_def)
    note fields = described_by_fields[OF this]
    show ?thesis
      using e(1) d(2) fields by (intro exI[of _ e]) (simp add: route_table_registered[OF es(3)] es(2) endpoint_key_def published_at_def)
  qed
  show ?thesis
  proof (cases "operation_at (oa_paths doc) p meth")
    case None
    then have "\<not> (\<exists>t. \<exists>e \<in> set (route_table (router api) (t, meth)).
        visible e \<and> matches (versions e) (Some v) \<and> p = render_path (map shown_segment t))" using ops by simp
    moreover have "p = render_path (map shown_segment t)" if "published_at d p meth t" for d :: "('x, 'v) item_endpoint" and t
      using that by (simp add: published_at_def)
    ultimately show ?thesis using None served by auto blast
  next
    case (Some op)
    then show ?thesis using ops declared by fastforce
  qed
qed

section \<open>A trait that is served\<close>

text \<open>A trait with the endpoint \<^verbatim>\<open>GET /hello\<close>, whose implementation says hello.\<close>

definition greet_metadata :: "(nat, 64 word \<times> 64 word \<times> 64 word) endpoint_metadata" where
  "greet_metadata = \<lparr> epm_operation_id = Some ''greet'', epm_method = GET, epm_path = ''/hello'', epm_tags = [],
    epm_unpublished = False, epm_deprecated = False, epm_request_body_max_bytes = None, epm_content_type = None,
    epm_dropshot_crate = None, epm_versions = None \<rparr>"

definition greet_fn :: "(nat, 64 word \<times> 64 word \<times> 64 word) trait_fn" where
  "greet_fn = sample_trait_fn\<lparr> tfn_attrs := [AttrEndpoint (MetaList (Inr greet_metadata))] \<rparr>"

definition greet_trait :: "(nat, 64 word \<times> 64 word \<times> 64 word) item_trait" where
  "greet_trait = sample_api_trait\<lparr> it_items := [PartOther (ItemType sample_context), PartFn greet_fn] \<rparr>"

definition greet_types :: "string handler_types" where
  "greet_types = \<lparr> ht_parameters = (\<lambda>_. \<lparr> em_extension_mode = ModeNone, em_parameters = [] \<rparr>),
    ht_response = api_endpoint_response_default\<lparr> response_success := Some 200 \<rparr>, ht_error = None \<rparr>"

definition greet_env ::
  "(function_path, syn_type, nat, string route_handler, string, 64 word \<times> 64 word \<times> 64 word) code_env" where
  "greet_env = \<lparr> env_version = (\<lambda>_. (1, 0, 0)), env_max_bytes = id, env_handler = (\<lambda>_. hello_handler),
    env_handler_types = (\<lambda>_. greet_types), env_types = (\<lambda>_ _. greet_types), env_stub = (\<lambda>_. hello_handler) \<rparr>"

definition greet_endpoint :: "(string route_handler, string, 64 word \<times> 64 word \<times> 64 word) api_endpoint" where
  "greet_endpoint = \<lparr> operation_id = ''greet'', handler = hello_handler, method = ''GET'', path = ''/hello'', parameters = [],
    body_content_type = Json, request_body_max_bytes = None,
    ep_response = api_endpoint_response_default\<lparr> response_success := Some 200 \<rparr>, ep_error = None,
    summary = None, description = None, tags = [], extension_mode = ModeNone, visible = True, deprecated = False,
    versions = All \<rparr>"

definition greet_api :: "(string route_handler, string, 64 word \<times> 64 word \<times> 64 word) api_description" where
  "greet_api = \<lparr> router = (case router_insert greet_endpoint router_new of Inr r \<Rightarrow> r | Inl _ \<Rightarrow> router_new),
     tag_conf = tag_config_default \<rparr>"

lemma greet_trait_facts:
  "\<forall>i \<in> set (it_items greet_trait). item_parsed sample_semver i"
  "names_ok (\<lambda>_. True) id sample_api_metadata greet_trait" "trait_accepted sample_api_metadata greet_trait"
proof -
  have parsed: "item_parsed sample_semver (PartFn greet_fn)"
    by (simp add: greet_fn_def greet_metadata_def sample_trait_fn_def parsed_signature_def sample_signature_def range_parsed_def)
  then show "\<forall>i \<in> set (it_items greet_trait). item_parsed sample_semver i"
    by (simp add: greet_trait_def del: item_parsed.simps(1))
  show "names_ok (\<lambda>_. True) id sample_api_metadata greet_trait" by (simp add: names_ok_def)
  have "is_context_of (context_name sample_api_metadata) greet_trait sample_context"
    by (simp add: is_context_of_def greet_trait_def sample_context_def sample_api_metadata_def context_name_def
        DEFAULT_CONTEXT_NAME_def unwrap_or_def)
  moreover have "filter is_recognized (tfn_attrs greet_fn) = [AttrEndpoint (MetaList (Inr greet_metadata))]"
    by (simp add: greet_fn_def)
  then have "fn_accepted ''Api'' ''Context'' greet_fn"
    using sample_trait_signature
    by (auto simp: fn_accepted_def greet_fn_def greet_metadata_def endpoint_metadata_ok_def starts_with_def)
  moreover have "context_name sample_api_metadata = ''Context''" "it_ident greet_trait = ''Api''" "trait_shape_ok greet_trait"
    by (simp_all add: sample_api_metadata_def context_name_def DEFAULT_CONTEXT_NAME_def unwrap_or_def sample_api_trait_def
        greet_trait_def trait_shape_ok_def)
  ultimately show "trait_accepted sample_api_metadata greet_trait"
    by (auto simp: trait_accepted_def greet_trait_def sample_context_def)
qed

lemma greet_declared:
  obtains i where "declared_items parse_type d (it_ident greet_trait) kind (it_items greet_trait) = [i]"
    "dc_metadata i = greet_metadata" "dc_name i = ''f''" "doc_summary (dc_doc i) = None" "doc_description (dc_doc i) = None"
proof -
  have "doc_summary (fn_doc greet_fn) = None" "doc_description (fn_doc greet_fn) = None" by code_simp+
  moreover have "filter is_recognized (tfn_attrs greet_fn) = [AttrEndpoint (MetaList (Inr greet_metadata))]"
    "sig_ident (tfn_sig greet_fn) = ''f''"
    by (simp_all add: greet_fn_def sample_trait_fn_def sample_signature_def)
  ultimately show ?thesis
    using that[of "\<lparr> dc_kind = endpoint_kind kind (it_ident greet_trait) (tfn_sig greet_fn), dc_metadata = greet_metadata,
      dc_name = ''f'', dc_doc = fn_doc greet_fn \<rparr>"] by (simp add: greet_trait_def declared_fn_def)
qed

lemma greet_described:
  assumes "declares greet_env i e" "dc_metadata i = greet_metadata" "dc_name i = ''f''"
    and "doc_summary (dc_doc i) = None" "doc_description (dc_doc i) = None"
  shows "e = greet_endpoint"
proof -
  have described: "described_by greet_env (dc_kind i) greet_metadata ''f'' (dc_doc i) All e"
    using assms(1-3) by (auto simp: declares_def greet_metadata_def unwrap_or_def)
  then have "from_mime_type ''application/json'' = Inr (body_content_type e)"
    by (simp add: described_by_def greet_metadata_def unwrap_or_def)
  moreover have "from_mime_type ''application/json'' = Inr Json" by code_simp
  ultimately have bct: "body_content_type e = Json" by simp
  have "kind_types greet_env k = greet_types" "kind_handler greet_env k x = hello_handler" for k x
    by (cases k; simp add: kind_types_def kind_handler_def greet_env_def)+
  then show ?thesis
    using described assms(4,5) unfolding described_by_def bct
    by (simp add: greet_endpoint_def greet_types_def greet_metadata_def unwrap_or_def)
qed

lemma greet_inserts: "router_insert greet_endpoint router_new = Inr (router greet_api)"
proof -
  have "is_ok (router_insert greet_endpoint router_new)" by code_simp
  then show ?thesis by (auto simp: greet_api_def is_ok_iff)
qed

lemma greet_registers: "register greet_endpoint api_description_new = Some (Inr (Inr (), greet_api))"
proof -
  have "template_of (path greet_endpoint) = Inr [Literal ''hello'']" by code_simp
  then have "endpoint_consistent greet_endpoint"
    by (simp add: endpoint_consistent_def declared_path_params_def greet_endpoint_def map_filter_simps)
  moreover have "tags_allowed (tag_conf api_description_new) greet_endpoint"
    by (simp add: tags_allowed_def api_description_new_def tag_config_default_def)
  ultimately show ?thesis
    unfolding register_Ok_iff[OF api_reachable.new]
    using greet_inserts by (simp add: api_description_new_def greet_api_def)
qed

lemma greet_runs:
  obtains out body where
    "do_trait sample_semver (\<lambda>_. None) (\<lambda>c i. ident_type i) (\<lambda>_. True) id (\<lambda>_. ''R'')
      (Inr sample_api_metadata) (Inr greet_trait) = Inr (out, [])"
    "factory_of kind (ao_module out) = Some body"
    "run_factory sample_semver greet_env (\<lambda>_. AnyTags) body = Some (Inr (Inr greet_api))"
proof -
  let ?declared = "\<lambda>d. declared_items (\<lambda>c i. ident_type i) d (it_ident greet_trait) kind (it_items greet_trait)"
  let ?d = "get_crate (\<lambda>_. None) (am_dropshot_crate sample_api_metadata)"
  obtain i where ds: "?declared ?d = [i]" and i: "dc_metadata i = greet_metadata" "dc_name i = ''f''"
      "doc_summary (dc_doc i) = None" "doc_description (dc_doc i) = None"
    by (rule greet_declared)
  have ok: "\<forall>d \<in> set (?declared ?d). is_ok (declared_versions greet_env (unwrap_or (epm_versions (dc_metadata d)) RangeAll))"
    unfolding ds by (simp add: i(1) greet_metadata_def unwrap_or_def)
  obtain out body es where run: "do_trait sample_semver (\<lambda>_. None) (\<lambda>c i. ident_type i) (\<lambda>_. True) id (\<lambda>_. ''R'')
        (Inr sample_api_metadata) (Inr greet_trait) = Inr (out, [])"
      "factory_of kind (ao_module out) = Some body" "list_all2 (declares greet_env) (?declared ?d) es"
      "run_factory sample_semver greet_env (\<lambda>_. AnyTags) body =
        factory_result (register_all es ([], new_description (\<lambda>_. AnyTags) (map_option make_tag_config (am_tag_config sample_api_metadata))))"
    using factories_register[where print = "\<lambda>_. ''R''" and policy_of = "\<lambda>_. AnyTags",
      OF sample_trait_facts(1) greet_trait_facts ok] by blast
  have "es = [greet_endpoint]"
    using run(3) greet_described[OF _ i] unfolding ds by (auto simp: list_all2_Cons1)
  moreover have "new_description (\<lambda>_. AnyTags) (map_option make_tag_config (am_tag_config sample_api_metadata)) =
      (api_description_new :: (string route_handler, string, 64 word \<times> 64 word \<times> 64 word) api_description)"
    by (simp add: sample_api_metadata_def new_description_def)
  ultimately have "run_factory sample_semver greet_env (\<lambda>_. AnyTags) body = Some (Inr (Inr greet_api))"
    using run(4) greet_registers by (simp add: factory_result_def)
  then show ?thesis using that run(1,2) by blast
qed

definition greet_lib :: "(64 word \<times> 64 word \<times> 64 word, string) server_lib" where
  "greet_lib = \<lparr> http = sample_lib, decode_segment = Inr, print_version = (\<lambda>_. ''v''),
     print_status = (\<lambda>_. ''error''), value_to_str = Some, exact_size = (\<lambda>b. Some (length b)),
     gzip = id, marked = (\<lambda>_. False), error_body = body_message \<rparr>"

definition greet_state :: "(string, 64 word \<times> 64 word \<times> 64 word, string) dropshot_state" where
  "greet_state = \<lparr> st_config = server_config_of (config_default ()), st_router = router greet_api,
     st_version_policy = Dynamic (\<lambda>_. Inr (1, 0, 0)) \<rparr>"

lemma greet_reachable: "router_reachable (router greet_api)"
  using router_reachable.ins[OF router_reachable.new greet_inserts] .

lemma greet_routes: "routes_to (router greet_api) [''hello''] [Literal ''hello''] []"
proof -
  have "case node_at [Literal ''hello''] (root (router greet_api)) of None \<Rightarrow> False
      | Some c \<Rightarrow> \<not> has_rest_edge c" by code_simp
  moreover have "match_template [Literal ''hello''] [''hello''] = Some []" by code_simp
  ultimately show ?thesis by (auto simp: routes_to_def split: option.splits)
qed


lemma greet_endpoints: "endpoints_list (router greet_api) (Some v) = [(''/hello'', ''GET'', greet_endpoint)]"
proof -
  have "map (\<lambda>(p, m, e). (p, m)) (endpoints_list (router greet_api) (Some v)) = [(''/hello'', ''GET'')]" by code_simp
  then obtain e where e: "endpoints_list (router greet_api) (Some v) = [(''/hello'', ''GET'', e)]" by auto
  then have "e \<in> registered (router greet_api)"
    using endpoints_list_iff[OF greet_reachable, of "''/hello''" "''GET''" e "Some v"] route_table_registered[OF greet_reachable] by auto
  moreover have "registered (router greet_api) = {greet_endpoint}"
    using registered_insert[OF reachable_wf[OF router_reachable.new] greet_inserts] by (simp add: registered_def router_new_def)
  ultimately show ?thesis using e by simp
qed

lemma greet_document: "\<exists>doc. gen_openapi name_generator greet_api i v = Inr doc"
proof (rule gen_steps_Inr)
  have "\<exists>paths. gen_endpoint name_generator (''/hello'', ''GET'', greet_endpoint) (doc_state_new name_generator) =
      Inr ((doc_state_new name_generator)\<lparr> ds_paths := paths \<rparr>)"
    by (simp add: gen_endpoint_def greet_endpoint_def gen_parameters_def gen_request_body_def gen_response_def
        gen_responses_def path_item_methods_def api_endpoint_response_default_def) (rule exI, rule refl)
  then show "gen_steps name_generator greet_api v = Inr ()"
    unfolding gen_steps_def greet_endpoints
    by (auto simp: component_schemas_def doc_state_new_def name_generator_def)
qed

theorem stub_document_of_trait_witness:
  "\<exists>out body doc op. do_trait sample_semver (\<lambda>_. None) (\<lambda>c i. ident_type i) (\<lambda>_. True) id (\<lambda>_. ''R'')
        (Inr sample_api_metadata) (Inr greet_trait) = Inr (out, [])
    \<and> factory_of FactoryStub (ao_module out) = Some body
    \<and> run_factory sample_semver greet_env (\<lambda>_. AnyTags) body = Some (Inr (Inr greet_api))
    \<and> gen_openapi name_generator greet_api empty_info (1, 0, 0) = Inr doc
    \<and> operation_at (oa_paths doc) ''/hello'' ''GET'' = Some op
    \<and> opn_operation_id op = Some ''greet''"
proof -
  let ?declared = "declared_items (\<lambda>c i. ident_type i) (get_crate (\<lambda>_. None) (am_dropshot_crate sample_api_metadata))
    (it_ident greet_trait) FactoryStub (it_items greet_trait)"
  obtain out body where run: "do_trait sample_semver (\<lambda>_. None) (\<lambda>c i. ident_type i) (\<lambda>_. True) id (\<lambda>_. ''R'')
        (Inr sample_api_metadata) (Inr greet_trait) = Inr (out, [])"
      "factory_of FactoryStub (ao_module out) = Some body"
      "run_factory sample_semver greet_env (\<lambda>_. AnyTags) body = Some (Inr (Inr greet_api))"
    by (rule greet_runs)
  obtain e where ds: "?declared = [e]" and e: "dc_metadata e = greet_metadata" "dc_name e = ''f''"
    by (rule greet_declared)
  have ok: "\<forall>d \<in> set ?declared. is_ok (declared_versions greet_env (unwrap_or (epm_versions (dc_metadata d)) RangeAll))"
    unfolding ds by (simp add: e(1) greet_metadata_def unwrap_or_def)
  obtain document where document: "gen_openapi name_generator greet_api empty_info (1, 0, 0) = Inr document"
    using greet_document by blast
  have published: "published_at e ''/hello'' ''GET'' [Literal ''hello'']"
    unfolding published_at_def e(1) by code_simp
  have versions: "declared_versions greet_env (unwrap_or (epm_versions (dc_metadata e)) RangeAll) = Inr All"
    by (simp add: e(1) greet_metadata_def unwrap_or_def)
  note spec = stub_document_of_trait[OF sample_trait_facts(1) greet_trait_facts(1,2) run ok document,
      of "''/hello''" "''GET''", unfolded ds]
  have "operation_at (oa_paths document) ''/hello'' ''GET'' \<noteq> None"
  proof
    assume "operation_at (oa_paths document) ''/hello'' ''GET'' = None"
    with spec have "\<not> (\<exists>t vs. published_at e ''/hello'' ''GET'' t
        \<and> declared_versions greet_env (unwrap_or (epm_versions (dc_metadata e)) RangeAll) = Inr vs \<and> matches vs (Some (1, 0, 0)))"
      by simp
    then show False using published versions matches_All by blast
  qed
  then obtain op where op: "operation_at (oa_paths document) ''/hello'' ''GET'' = Some op" by blast
  with spec obtain vs x where "declared_versions greet_env (unwrap_or (epm_versions (dc_metadata e)) RangeAll) = Inr vs"
      "described_by greet_env (dc_kind e) (dc_metadata e) (dc_name e) (dc_doc e) vs x" "describes op x"
    by auto
  then have "opn_operation_id op = Some ''greet''"
    using described_by_fields(1) e by (fastforce simp: describes_def greet_metadata_def unwrap_or_def)
  then show ?thesis using run document op by blast
qed

end
